(* ===== verification/Sync_Prelude.thy ===== *)
theory Sync_Prelude
  imports Main "HOL-Library.Word" "HOL-Library.AList"
begin

text \<open>
  The vocabulary shared by every component: Go's fixed-width integers and bytes, Go maps,
  the time stamps of package time, and the transaction functions of the sync service, which
  read and write a state and may fail.  The collections \<open>go_simps\<close> and \<open>txm_simps\<close> hold the
  rewrite rules the component proofs use.
\<close>

section \<open>Types\<close>

text \<open>
  \<open>uint64\<close> is a 64-bit word, so \<open>+\<close> and \<open>-\<close> wrap as they do in Go, and the order is the
  unsigned one.  A Go \<open>int\<close> that the code only compares with a literal and converts to
  \<open>uint64\<close> is a 64-bit word too.  A Go \<open>string\<close> is a sequence of bytes, here a \<open>char list\<close>;
  \<open>[]byte(s)\<close> is \<open>bytes_of s\<close>.  A \<open>time.Time\<close> is the number of nanoseconds since the Unix
  epoch, a \<open>time.Duration\<close> a number of nanoseconds.
\<close>

type_synonym u64 = "64 word"
type_synonym u32 = "32 word"
type_synonym byte = "8 word"
type_synonym bytes = "byte list"
type_synonym gotime = int

named_theorems go_simps
named_theorems txm_simps

definition bytes_of :: "string \<Rightarrow> bytes" where
  "bytes_of s = map of_char s"

lemma length_bytes_of [simp]: "length (bytes_of s) = length s"
  by (simp add: bytes_of_def)

lemma unat_of_char_byte [simp]: "unat (of_char c :: byte) = of_char c"
proof -
  have "(of_char c :: byte) = word_of_nat (of_char c)"
    by (metis of_nat_of_char)
  moreover have "(of_char c :: nat) < 256"
    by (metis of_char_mod_256 mod_less_divisor zero_less_numeral)
  ultimately show ?thesis by (simp add: unat_of_nat)
qed

lemma of_char_byte_inj: "inj (of_char :: char \<Rightarrow> byte)"
  by (rule injI) (metis unat_of_char_byte of_char_eq_iff)

lemma bytes_of_eq_iff [simp]: "bytes_of s = bytes_of t \<longleftrightarrow> s = t"
  by (simp add: bytes_of_def inj_map_eq_map of_char_byte_inj)

section \<open>Unsigned 64-bit arithmetic\<close>

lemma u64_of_nat_less_iff:
  "m < 2 ^ 64 \<Longrightarrow> n < 2 ^ 64 \<Longrightarrow> (of_nat m :: u64) < of_nat n \<longleftrightarrow> m < n"
  by (simp add: word_less_nat_alt unat_of_nat)

lemma u64_of_nat_le_iff:
  "m < 2 ^ 64 \<Longrightarrow> n < 2 ^ 64 \<Longrightarrow> (of_nat m :: u64) \<le> of_nat n \<longleftrightarrow> m \<le> n"
  by (simp add: word_le_nat_alt unat_of_nat)

lemma u64_of_nat_eq_iff:
  "m < 2 ^ 64 \<Longrightarrow> n < 2 ^ 64 \<Longrightarrow> (of_nat m :: u64) = of_nat n \<longleftrightarrow> m = n"
  by (simp add: word_unat_eq_iff unat_of_nat)

lemma unat_u64_lt: "unat (x :: u64) < 2 ^ 64"
  using unsigned_less [of x] by simp

lemma unat_u64_max: "unat (-1 :: u64) = 2 ^ 64 - 1"
  by (simp add: unsigned_minus_1_eq_mask mask_eq_exp_minus_1)

lemma unat_u64_Suc: "x \<noteq> (-1 :: u64) \<Longrightarrow> unat (x + 1) = Suc (unat x)"
  using unat_u64_lt [of x] by (simp add: unat_word_ariths word_unat_eq_iff unat_u64_max)

lemma unat_u64_pred: "x \<noteq> (0 :: u64) \<Longrightarrow> Suc (unat (x - 1)) = unat x"
  using unat_u64_Suc [of "x - 1"] by (auto simp: diff_eq_eq)

section \<open>Go maps\<close>

text \<open>
  A Go map is an association list with distinct keys, whose order is the order in which a
  \<open>range\<close> over it visits the entries.  Reading is \<open>map_of\<close>, writing \<open>AList.update\<close>, the
  builtin \<open>delete\<close> is \<open>AList.delete\<close>, and the loops that delete the entries whose value
  satisfies a condition are \<open>delete_where\<close>.
\<close>

type_synonym ('k, 'v) gomap = "('k \<times> 'v) list"

definition gomap_ok :: "('k, 'v) gomap \<Rightarrow> bool" where
  "gomap_ok m \<longleftrightarrow> distinct (map fst m)"

definition delete_where :: "('v \<Rightarrow> bool) \<Rightarrow> ('k, 'v) gomap \<Rightarrow> ('k, 'v) gomap" where
  "delete_where P m = filter (\<lambda>(k, v). \<not> P v) m"

definition delete_keys :: "('k \<Rightarrow> bool) \<Rightarrow> ('k, 'v) gomap \<Rightarrow> ('k, 'v) gomap" where
  "delete_keys P m = filter (\<lambda>(k, v). \<not> P k) m"

lemma gomap_ok_Nil [simp]: "gomap_ok []"
  by (simp add: gomap_ok_def)

lemma gomap_ok_update [simp]: "gomap_ok m \<Longrightarrow> gomap_ok (AList.update k v m)"
  by (simp add: gomap_ok_def distinct_update)

lemma gomap_ok_delete [simp]: "gomap_ok m \<Longrightarrow> gomap_ok (AList.delete k m)"
  by (simp add: gomap_ok_def distinct_delete)

lemma gomap_ok_filter: "gomap_ok m \<Longrightarrow> gomap_ok (filter P m)"
  by (simp add: gomap_ok_def distinct_map_filter)

lemma gomap_ok_delete_where [simp]: "gomap_ok m \<Longrightarrow> gomap_ok (delete_where P m)"
  by (simp add: delete_where_def gomap_ok_filter)

lemma gomap_ok_delete_keys [simp]: "gomap_ok m \<Longrightarrow> gomap_ok (delete_keys P m)"
  by (simp add: delete_keys_def gomap_ok_filter)

lemma map_of_update [go_simps]: "map_of (AList.update k v m) = (map_of m)(k \<mapsto> v)"
  by (rule update_conv')

lemma dom_update: "dom (map_of (AList.update k v m)) = insert k (dom (map_of m))"
  unfolding update_conv' by (rule dom_fun_upd [of _ _ "Some v", simplified option.distinct if_False])

lemma map_of_delete [go_simps]: "map_of (AList.delete k m) = (map_of m)(k := None)"
  by (rule delete_conv')

lemma map_of_filter_ok:
  "gomap_ok m \<Longrightarrow>
   map_of (filter P m) k = (case map_of m k of Some v \<Rightarrow> if P (k, v) then Some v else None | None \<Rightarrow> None)"
proof (induction m)
  case (Cons kv m)
  obtain k' v' where kv: "kv = (k', v')" by (cases kv)
  have "map_of m k = None" if "k = k'"
    using Cons.prems that by (auto simp: gomap_ok_def kv map_of_eq_None_iff)
  moreover have "gomap_ok m" using Cons.prems by (simp add: gomap_ok_def)
  ultimately show ?case using Cons.IH by (auto simp: kv split: option.splits)
qed simp

lemma map_of_delete_where [go_simps]:
  "gomap_ok m \<Longrightarrow>
   map_of (delete_where P m) k = (case map_of m k of Some v \<Rightarrow> if P v then None else Some v | None \<Rightarrow> None)"
  by (auto simp: delete_where_def map_of_filter_ok split: option.splits)

lemma map_of_delete_keys [go_simps]:
  "gomap_ok m \<Longrightarrow> map_of (delete_keys P m) k = (if P k then None else map_of m k)"
  by (auto simp: delete_keys_def map_of_filter_ok split: option.splits)

lemma gomap_values:
  "gomap_ok m \<Longrightarrow> v \<in> set (map snd m) \<longleftrightarrow> (\<exists>k. map_of m k = Some v)"
  by (force simp: gomap_ok_def image_iff)

lemma gomap_entries:
  "gomap_ok m \<Longrightarrow> (k, v) \<in> set m \<longleftrightarrow> map_of m k = Some v"
  by (simp add: gomap_ok_def)

text \<open>Counting the values of a map does not depend on the order of its entries.\<close>

lemma finite_gomap_keys [simp]: "finite {k. \<exists>v. map_of m k = Some v \<and> P v}"
  by (rule finite_subset [OF _ finite_dom_map_of [of m]]) auto

lemma gomap_count:
  "gomap_ok m \<Longrightarrow> length (filter P (map snd m)) = card {k. \<exists>v. map_of m k = Some v \<and> P v}"
proof (induction m)
  case (Cons kv m)
  obtain k v where kv: "kv = (k, v)" by (cases kv)
  let ?S = "{k. \<exists>v. map_of m k = Some v \<and> P v}"
  have fresh: "map_of m k = None" and ok: "gomap_ok m"
    using Cons.prems by (auto simp: gomap_ok_def kv map_of_eq_None_iff)
  have "{k'. \<exists>w. map_of (kv # m) k' = Some w \<and> P w} = (if P v then insert k ?S else ?S)"
    using fresh by (auto simp: kv)
  moreover have "k \<notin> ?S" using fresh by auto
  ultimately show ?case using Cons.IH [OF ok] by (simp add: kv)
qed simp

section \<open>Transaction functions\<close>

text \<open>
  A Go function that works on a transaction and returns \<open>(value, error)\<close> is a function from
  the state to the error or the value and the state it leaves.  \<open>bindE\<close> is the sequencing
  \<open>x, err := m; if err != nil { return err }\<close>; the state after an error is the state in which
  the error was returned, which is what the caller that rolls back observes.
\<close>

type_synonym ('s, 'e, 'a) txm = "'s \<Rightarrow> ('e + 'a) \<times> 's"

definition ret :: "'a \<Rightarrow> ('s, 'e, 'a) txm" where
  "ret x = (\<lambda>s. (Inr x, s))"

definition raise :: "'e \<Rightarrow> ('s, 'e, 'a) txm" where
  "raise e = (\<lambda>s. (Inl e, s))"

definition bindE :: "('s, 'e, 'a) txm \<Rightarrow> ('a \<Rightarrow> ('s, 'e, 'b) txm) \<Rightarrow> ('s, 'e, 'b) txm" where
  "bindE m f = (\<lambda>s. case m s of (Inl e, s') \<Rightarrow> (Inl e, s') | (Inr x, s') \<Rightarrow> f x s')"

text \<open>\<open>tryE\<close> hands the error to the code that inspects it (\<open>errors.Is(err, ErrNotFound)\<close>).\<close>

definition tryE :: "('s, 'e, 'a) txm \<Rightarrow> ('e + 'a \<Rightarrow> ('s, 'e, 'b) txm) \<Rightarrow> ('s, 'e, 'b) txm" where
  "tryE m f = (\<lambda>s. case m s of (r, s') \<Rightarrow> f r s')"

definition liftE :: "'e + 'a \<Rightarrow> ('s, 'e, 'a) txm" where
  "liftE r = (\<lambda>s. (r, s))"

definition readT :: "('s \<Rightarrow> 'e + 'a) \<Rightarrow> ('s, 'e, 'a) txm" where
  "readT f = (\<lambda>s. (f s, s))"

definition writeT :: "('s \<Rightarrow> 'e + 's) \<Rightarrow> ('s, 'e, unit) txm" where
  "writeT f = (\<lambda>s. case f s of Inl e \<Rightarrow> (Inl e, s) | Inr s' \<Rightarrow> (Inr (), s'))"

text \<open>\<open>if c { return e }\<close>\<close>

definition rejectIf :: "bool \<Rightarrow> 'e \<Rightarrow> ('s, 'e, unit) txm" where
  "rejectIf c e = (if c then raise e else ret ())"

text \<open>A \<open>range\<close> loop whose body may return an error.\<close>

primrec forE :: "'x list \<Rightarrow> ('x \<Rightarrow> ('s, 'e, unit) txm) \<Rightarrow> ('s, 'e, unit) txm" where
  "forE [] f = ret ()"
| "forE (x # xs) f = bindE (f x) (\<lambda>_. forE xs f)"

lemma ret_eq [txm_simps]: "ret x s = (r, s') \<longleftrightarrow> r = Inr x \<and> s' = s"
  by (auto simp: ret_def)

lemma raise_eq [txm_simps]: "raise e s = (r, s') \<longleftrightarrow> r = Inl e \<and> s' = s"
  by (auto simp: raise_def)

lemma liftE_eq [txm_simps]: "liftE v s = (r, s') \<longleftrightarrow> v = r \<and> s' = s"
  by (auto simp: liftE_def)

lemma readT_eq [txm_simps]: "readT f s = (r, s') \<longleftrightarrow> f s = r \<and> s' = s"
  by (auto simp: readT_def)

lemma writeT_ok [txm_simps]: "writeT f s = (Inr x, s') \<longleftrightarrow> f s = Inr s'"
  by (auto simp: writeT_def split: sum.splits)

lemma writeT_err [txm_simps]: "writeT f s = (Inl e, s') \<longleftrightarrow> f s = Inl e \<and> s' = s"
  by (auto simp: writeT_def split: sum.splits)

lemma bindE_ok [txm_simps]:
  "bindE m f s = (Inr y, s') \<longleftrightarrow> (\<exists>x s1. m s = (Inr x, s1) \<and> f x s1 = (Inr y, s'))"
  by (auto simp: bindE_def split: prod.splits sum.splits)

lemma bindE_err:
  "bindE m f s = (Inl e, s') \<longleftrightarrow>
     m s = (Inl e, s') \<or> (\<exists>x s1. m s = (Inr x, s1) \<and> f x s1 = (Inl e, s'))"
  by (auto simp: bindE_def split: prod.splits sum.splits)

lemma tryE_case [txm_simps]:
  "tryE (readT f) (case_sum h k) s = (r, s') \<longleftrightarrow>
     (\<exists>e. f s = Inl e \<and> h e s = (r, s')) \<or> (\<exists>x. f s = Inr x \<and> k x s = (r, s'))"
  by (auto simp: tryE_def readT_def split: sum.splits)

lemma tryE_eq:
  "tryE m f s = (r, s') \<longleftrightarrow> (\<exists>r1 s1. m s = (r1, s1) \<and> f r1 s1 = (r, s'))"
  by (auto simp: tryE_def split: prod.splits)

lemma rejectIf_ok [txm_simps]: "rejectIf c e s = (Inr x, s') \<longleftrightarrow> \<not> c \<and> s' = s"
  by (auto simp: rejectIf_def txm_simps)

lemma rejectIf_err [txm_simps]: "rejectIf c e s = (Inl e', s') \<longleftrightarrow> c \<and> e' = e \<and> s' = s"
  by (auto simp: rejectIf_def txm_simps)

text \<open>Rules that run a transaction function on a state whose reads are known.\<close>

lemmas txm_run = ret_def raise_def bindE_def tryE_def liftE_def readT_def writeT_def rejectIf_def

text \<open>A property of the state that every step keeps is kept by a loop.\<close>

lemma forE_invariant:
  assumes "forE xs f s = (Inr u, s')" "P s"
    and "\<And>x s1 s2. x \<in> set xs \<Longrightarrow> P s1 \<Longrightarrow> f x s1 = (Inr (), s2) \<Longrightarrow> P s2"
  shows "P s'"
  using assms
proof (induction xs arbitrary: s)
  case (Cons x xs)
  then obtain s1 where "f x s = (Inr (), s1)" "forE xs f s1 = (Inr u, s')"
    by (auto simp: txm_simps)
  with Cons show ?case by (meson list.set_intros)
qed (simp add: txm_simps)

end
