(* ===== verification/Go_Base64.thy ===== *)
theory Go_Base64
  imports Sync_Prelude
begin

text \<open>
  What the protocol uses of Go's packages encoding/base64 (\<open>RawURLEncoding\<close> and its
  \<open>Strict\<close> mode) and strconv (\<open>FormatUint\<close> in base 10).  The encoder works on groups of
  three bytes; the decoder drops carriage returns and line feeds, rejects every other byte
  outside the alphabet, a single trailing symbol, and, being strict, trailing bits that are
  not zero.
\<close>

section \<open>The alphabet\<close>

definition url_alphabet :: string where
  "url_alphabet = ''ABCDEFGHIJKLMNOPQRSTUVWXYZabcdefghijklmnopqrstuvwxyz0123456789-_''"

fun pos_of :: "'a \<Rightarrow> 'a list \<Rightarrow> nat option" where
  "pos_of x [] = None"
| "pos_of x (y # ys) = (if x = y then Some 0 else map_option Suc (pos_of x ys))"

definition enc_sextet :: "nat \<Rightarrow> char" where
  "enc_sextet n = url_alphabet ! n"

definition dec_sextet :: "char \<Rightarrow> nat option" where
  "dec_sextet c = pos_of c url_alphabet"

lemma length_url_alphabet [simp]: "length url_alphabet = 64"
  by (simp add: url_alphabet_def)

lemma distinct_url_alphabet [simp]: "distinct url_alphabet"
  by (simp add: url_alphabet_def)

lemma pos_of_SomeD: "pos_of x ys = Some n \<Longrightarrow> n < length ys \<and> ys ! n = x"
  by (induction ys arbitrary: n) (auto split: if_splits)

lemma pos_of_nth: "distinct ys \<Longrightarrow> n < length ys \<Longrightarrow> pos_of (ys ! n) ys = Some n"
proof (induction ys arbitrary: n)
  case (Cons y ys)
  then show ?case by (cases n) auto
qed simp

lemma dec_enc_sextet [simp]: "n < 64 \<Longrightarrow> dec_sextet (enc_sextet n) = Some n"
  by (simp add: dec_sextet_def enc_sextet_def pos_of_nth)

lemma dec_sextetD: "dec_sextet c = Some n \<Longrightarrow> n < 64 \<and> enc_sextet n = c"
  by (auto simp: dec_sextet_def enc_sextet_def dest: pos_of_SomeD)

lemma enc_sextet_in_alphabet: "n < 64 \<Longrightarrow> enc_sextet n \<in> set url_alphabet"
  by (simp add: enc_sextet_def)

section \<open>Groups\<close>

fun sextets :: "nat list \<Rightarrow> nat list" where
  "sextets [] = []"
| "sextets [a] = [a div 4, (a mod 4) * 16]"
| "sextets [a, b] = [a div 4, (a mod 4) * 16 + b div 16, (b mod 16) * 4]"
| "sextets (a # b # c # r) =
     [a div 4, (a mod 4) * 16 + b div 16, (b mod 16) * 4 + c div 64, c mod 64] @ sextets r"

fun unsextets :: "nat list \<Rightarrow> nat list option" where
  "unsextets [] = Some []"
| "unsextets [p] = None"
| "unsextets [p, q] = (if q mod 16 = 0 then Some [p * 4 + q div 16] else None)"
| "unsextets [p, q, r] =
     (if r mod 4 = 0 then Some [p * 4 + q div 16, (q mod 16) * 16 + r div 4] else None)"
| "unsextets (p # q # r # s # rest) =
     map_option (\<lambda>bs. [p * 4 + q div 16, (q mod 16) * 16 + r div 4, (r mod 4) * 64 + s] @ bs)
       (unsextets rest)"

lemma sextets_lt: "\<forall>b \<in> set bs. b < 256 \<Longrightarrow> \<forall>x \<in> set (sextets bs). x < 64"
  by (induction bs rule: sextets.induct) auto

lemma unsextets_lt:
  "\<forall>x \<in> set xs. x < 64 \<Longrightarrow> unsextets xs = Some bs \<Longrightarrow> \<forall>b \<in> set bs. b < 256"
  by (induction xs arbitrary: bs rule: unsextets.induct) (auto split: if_splits)

lemma unsextets_sextets: "\<forall>b \<in> set bs. b < 256 \<Longrightarrow> unsextets (sextets bs) = Some bs"
  by (induction bs rule: sextets.induct) auto

lemma sextets_unsextets:
  "\<forall>x \<in> set xs. x < 64 \<Longrightarrow> unsextets xs = Some bs \<Longrightarrow> sextets bs = xs"
  by (induction xs arbitrary: bs rule: unsextets.induct) (auto split: if_splits)

section \<open>RawURLEncoding\<close>

definition EncodeToString :: "bytes \<Rightarrow> string" where
  "EncodeToString bs = map enc_sextet (sextets (map unat bs))"

definition is_newline :: "char \<Rightarrow> bool" where
  "is_newline c \<longleftrightarrow> c = CHR 0x0A \<or> c = CHR 0x0D"

definition DecodeString :: "string \<Rightarrow> bytes option" where
  "DecodeString v =
     Option.bind (those (map dec_sextet (filter (\<lambda>c. \<not> is_newline c) v)))
       (\<lambda>xs. map_option (map of_nat) (unsextets xs))"

lemma those_map_Some: "(\<And>x. x \<in> set xs \<Longrightarrow> f x = Some (g x)) \<Longrightarrow> those (map f xs) = Some (map g xs)"
  by (induction xs) auto

lemma those_SomeD: "those (map f xs) = Some ys \<Longrightarrow> list_all2 (\<lambda>x y. f x = Some y) xs ys"
  by (induction xs arbitrary: ys) (auto split: option.splits)

lemma newline_not_in_alphabet: "c \<in> set url_alphabet \<Longrightarrow> \<not> is_newline c"
  by (auto simp: url_alphabet_def is_newline_def)

lemma unat_byte_lt: "\<forall>b \<in> set (map unat (bs :: bytes)). b < 256"
  by (auto intro: less_le_trans [OF unsigned_less])

lemma EncodeToString_alphabet: "set (EncodeToString bs) \<subseteq> set url_alphabet"
  using sextets_lt [OF unat_byte_lt [of bs]] enc_sextet_in_alphabet
  by (auto simp: EncodeToString_def)

lemma EncodeToString_no_newline: "c \<in> set (EncodeToString bs) \<Longrightarrow> \<not> is_newline c"
  using EncodeToString_alphabet newline_not_in_alphabet by blast

lemma map_of_nat_unat: "map (of_nat \<circ> unat) (bs :: bytes) = bs"
  by (simp add: map_idI)

lemma DecodeString_EncodeToString [simp]: "DecodeString (EncodeToString bs) = Some bs"
proof -
  let ?xs = "sextets (map unat bs)"
  have lt: "\<forall>x \<in> set ?xs. x < 64" by (rule sextets_lt [OF unat_byte_lt])
  have "filter (\<lambda>c. \<not> is_newline c) (EncodeToString bs) = map enc_sextet ?xs"
    using EncodeToString_no_newline [of _ bs] by (simp add: EncodeToString_def filter_id_conv)
  moreover have "those (map dec_sextet (map enc_sextet ?xs)) = Some ?xs"
    using lt those_map_Some [of ?xs "dec_sextet \<circ> enc_sextet" id] by simp
  moreover have "unsextets ?xs = Some (map unat bs)"
    by (rule unsextets_sextets [OF unat_byte_lt])
  ultimately show ?thesis
    by (simp add: DecodeString_def map_of_nat_unat)
qed

text \<open>
  The strict decoder is the inverse of the encoder on inputs without line breaks: one byte
  sequence has one text.
\<close>

lemma EncodeToString_DecodeString:
  assumes "DecodeString v = Some bs" and "\<forall>c \<in> set v. \<not> is_newline c"
  shows "EncodeToString bs = v"
proof -
  have f: "filter (\<lambda>c. \<not> is_newline c) v = v" using assms(2) by (simp add: filter_id_conv)
  from assms(1) obtain xs ns where xs: "those (map dec_sextet v) = Some xs"
    and ns: "unsextets xs = Some ns" and bs: "bs = map of_nat ns"
    unfolding DecodeString_def f by (auto simp: bind_eq_Some_conv)
  have all2: "list_all2 (\<lambda>c x. dec_sextet c = Some x) v xs" by (rule those_SomeD [OF xs])
  then have lt: "\<forall>x \<in> set xs. x < 64"
    by (induction rule: list_all2_induct) (auto dest: dec_sextetD)
  have "\<forall>n \<in> set ns. n < 256" by (rule unsextets_lt [OF lt ns])
  then have "map unat (map of_nat ns :: bytes) = ns"
    by (simp add: map_idI unat_of_nat)
  then have "EncodeToString bs = map enc_sextet xs"
    using sextets_unsextets [OF lt ns] by (simp add: EncodeToString_def bs)
  also have "\<dots> = v"
    using all2 by (induction rule: list_all2_induct) (auto dest: dec_sextetD)
  finally show ?thesis .
qed

lemma EncodeToString_inject [simp]: "EncodeToString a = EncodeToString b \<longleftrightarrow> a = b"
  by (metis DecodeString_EncodeToString option.inject)

lemma EncodeToString_eq_Nil [simp]: "EncodeToString bs = [] \<longleftrightarrow> bs = []"
  by (cases "map unat bs" rule: sextets.cases) (auto simp: EncodeToString_def)

lemma length_sextets_le: "length (sextets bs) \<le> 2 * length bs"
  by (induction bs rule: sextets.induct) auto

lemma length_EncodeToString_le: "length (EncodeToString bs) \<le> 2 * length bs"
  using length_sextets_le [of "map unat bs"] by (simp add: EncodeToString_def)

section \<open>FormatUint in base 10\<close>

definition digit_char :: "nat \<Rightarrow> char" where
  "digit_char d = ''0123456789'' ! d"

fun show_nat :: "nat \<Rightarrow> string" where
  "show_nat n = (if n < 10 then [digit_char n] else show_nat (n div 10) @ [digit_char (n mod 10)])"

declare show_nat.simps [simp del]

definition FormatUint :: "u64 \<Rightarrow> string" where
  "FormatUint v = show_nat (unat v)"

lemma digit_char_inj: "a < 10 \<Longrightarrow> b < 10 \<Longrightarrow> digit_char a = digit_char b \<longleftrightarrow> a = b"
  unfolding digit_char_def by (subst nth_eq_iff_index_eq) auto

lemma show_nat_not_Nil [simp]: "show_nat n \<noteq> []" "[] \<noteq> show_nat n"
  by (simp_all add: show_nat.simps [of n])

lemma show_nat_inj: "show_nat m = show_nat n \<Longrightarrow> m = n"
proof (induction m arbitrary: n rule: show_nat.induct)
  case (1 m)
  show ?case
  proof (cases "m < 10")
    case True
    with "1.prems" show ?thesis
      by (cases "n < 10")
        (auto simp: show_nat.simps [of m] show_nat.simps [of n] digit_char_inj)
  next
    case False
    with "1.prems" have n: "\<not> n < 10"
      by (auto simp: show_nat.simps [of m] show_nat.simps [of n])
    with False "1.prems" have "show_nat (m div 10) = show_nat (n div 10)" "m mod 10 = n mod 10"
      by (auto simp: show_nat.simps [of m] show_nat.simps [of n] digit_char_inj)
    with "1.IH" [OF False] have "m div 10 = n div 10" by blast
    with \<open>m mod 10 = n mod 10\<close> show ?thesis by (metis div_mult_mod_eq)
  qed
qed

lemma FormatUint_inject [simp]: "FormatUint a = FormatUint b \<longleftrightarrow> a = b"
  using show_nat_inj by (auto simp: FormatUint_def word_unat_eq_iff)

lemma length_show_nat_lt: "n < 10 ^ k \<Longrightarrow> 0 < k \<Longrightarrow> length (show_nat n) \<le> k"
proof (induction n arbitrary: k rule: show_nat.induct)
  case (1 n)
  show ?case
  proof (cases "n < 10")
    case True
    with "1.prems" show ?thesis by (subst show_nat.simps) simp
  next
    case False
    have "k \<noteq> 1" using False "1.prems" by auto
    then obtain j where k: "k = Suc j" and "0 < j"
      using "1.prems" by (cases k) auto
    then have "n div 10 < 10 ^ j" using "1.prems" by (simp add: div_less_iff_less_mult)
    with "1.IH" [OF False] \<open>0 < j\<close> have "length (show_nat (n div 10)) \<le> j" by blast
    with False k show ?thesis by (subst show_nat.simps) simp
  qed
qed

lemma length_FormatUint_le: "length (FormatUint v) \<le> 20"
proof -
  have "unat v < 10 ^ 20" using unat_u64_lt [of v] by (rule less_le_trans) simp
  then show ?thesis unfolding FormatUint_def by (rule length_show_nat_lt) simp
qed

lemma FormatUint_not_Nil [simp]: "FormatUint v \<noteq> []"
  by (simp add: FormatUint_def)

end
