(* ===== verification/Canonical.thy ===== *)
theory Canonical
  imports Go_Base64 Go_Sha256
begin

text \<open>
  The files constants.go and canonical.go of internal/syncproto: identifiers, the canonical
  byte form that every signature and digest of the protocol covers, and the canonical
  base64url values.  A \<open>canonical\<close> builder is the byte sequence it has collected so far.
  The lemmas show that the canonical form determines the sequence of its parts, and that
  \<open>decodeCanonical\<close> accepts exactly one text for each byte sequence.
\<close>

section \<open>Constants and identifiers\<close>

definition MaxCiphertextBytes :: nat where "MaxCiphertextBytes = 10 * 1024 * 1024"
definition XChaChaNonceBytes :: nat where "XChaChaNonceBytes = 24"
definition Ed25519SignatureBytes :: nat where "Ed25519SignatureBytes = 64"
definition Ed25519PublicKeyBytes :: nat where "Ed25519PublicKeyBytes = 32"
definition X25519PublicKeyBytes :: nat where "X25519PublicKeyBytes = 32"
definition XWingPublicKeyBytes :: nat where "XWingPublicKeyBytes = 1216"
definition MaxEncryptedKeyPackageBytes :: nat where "MaxEncryptedKeyPackageBytes = 64 * 1024"
definition MaxDevicesPerVault :: nat where "MaxDevicesPerVault = 10"

definition VersionV3 :: u64 where "VersionV3 = 3"
definition LabelDeviceList :: string where "LabelDeviceList = ''sesame-sync-v3-devicelist''"
definition LabelDeviceListDigest :: string where
  "LabelDeviceListDigest = ''sesame-sync-v3-devicelist-digest''"
definition LabelHeader :: string where "LabelHeader = ''sesame-sync-v3-header''"
definition LabelHeaderDigest :: string where "LabelHeaderDigest = ''sesame-sync-v3-header-digest''"
definition LabelRequest :: string where "LabelRequest = ''sesame-sync-v3-request''"
definition LabelReceipt :: string where "LabelReceipt = ''sesame-sync-v3-receipt''"
definition LabelAAD :: string where "LabelAAD = ''sesame-sync-v3-aad''"
definition DigestBytes :: nat where "DigestBytes = 32"
definition MaxSealedLabelBytes :: nat where "MaxSealedLabelBytes = 256"
definition MinSealedLabelBytes :: nat where "MinSealedLabelBytes = 40"
definition RequestNonceBytes :: nat where "RequestNonceBytes = 16"
definition MaxHeaderRetention :: u64 where "MaxHeaderRetention = 10000"
definition RequestTimestampSkew :: u64 where "RequestTimestampSkew = 5 * 60"
definition RequestNonceRetention :: int where "RequestNonceRetention = 2 * (5 * 60) + 60"

lemmas size_consts = XChaChaNonceBytes_def Ed25519SignatureBytes_def Ed25519PublicKeyBytes_def
  X25519PublicKeyBytes_def XWingPublicKeyBytes_def DigestBytes_def MaxSealedLabelBytes_def
  MinSealedLabelBytes_def RequestNonceBytes_def MaxEncryptedKeyPackageBytes_def

text \<open>The regular expression \<open>^[A-Za-z0-9_-]{16,128}$\<close>.\<close>

definition opaque_char :: "char \<Rightarrow> bool" where
  "opaque_char c \<longleftrightarrow> c \<in> set url_alphabet"

definition opaqueID :: "string \<Rightarrow> bool" where
  "opaqueID v \<longleftrightarrow> 16 \<le> length v \<and> length v \<le> 128 \<and> list_all opaque_char v"

text \<open>The errors of the package; the texts are the details \<open>fmt.Errorf\<close> adds.\<close>

datatype proto_error =
    NotCanonical string
  | ErrHeaderInvalid string
  | ErrHistoryBroken string
  | ErrDeviceListInvalid string
  | ErrDeviceListBroken string
  | ErrRequestSignature
  | ErrKeyPackage string
  | ErrCheckpointInvalid string

section \<open>The canonical builder\<close>

primrec writeUint64_loop :: "nat \<Rightarrow> bytes \<Rightarrow> u64 \<Rightarrow> bytes" where
  "writeUint64_loop 0 out v = out"
| "writeUint64_loop (Suc index) out v =
     writeUint64_loop index (out[index := ucast v]) (drop_bit 8 v)"

definition writeUint64 :: "u64 \<Rightarrow> bytes" where
  "writeUint64 v = writeUint64_loop 8 (replicate 8 0) v"

type_synonym canonical = bytes

definition add :: "canonical \<Rightarrow> bytes \<Rightarrow> canonical" where
  "add c part = (c @ writeUint64 (of_nat (length part))) @ part"

definition addText :: "canonical \<Rightarrow> string \<Rightarrow> canonical" where
  "addText c v = add c (bytes_of v)"

definition number :: "canonical \<Rightarrow> u64 \<Rightarrow> canonical" where
  "number c v = addText c (FormatUint v)"

definition newCanonical :: "string \<Rightarrow> canonical" where
  "newCanonical label = addText [] label"

definition digest :: "canonical \<Rightarrow> string" where
  "digest c = EncodeToString (Sum256 c)"

section \<open>Canonical base64url values\<close>

definition decodeCanonical :: "string \<Rightarrow> nat \<Rightarrow> proto_error + bytes" where
  "decodeCanonical v n =
     (if list_ex is_newline v then Inl (NotCanonical ''sync value is not canonical base64url'')
      else case DecodeString v of
          None \<Rightarrow> Inl (NotCanonical ''sync value is not canonical base64url of the expected length'')
        | Some decoded \<Rightarrow>
            if length decoded \<noteq> n
            then Inl (NotCanonical ''sync value is not canonical base64url of the expected length'')
            else if EncodeToString decoded \<noteq> v
            then Inl (NotCanonical ''sync value is not canonical base64url'')
            else Inr decoded)"

fun decodeCanonicalOneOf :: "string \<Rightarrow> nat list \<Rightarrow> proto_error + bytes" where
  "decodeCanonicalOneOf v [] =
     Inl (NotCanonical ''sync value is not canonical base64url of an allowed length'')"
| "decodeCanonicalOneOf v (n # ns) =
     (case decodeCanonical v n of Inr decoded \<Rightarrow> Inr decoded | Inl _ \<Rightarrow> decodeCanonicalOneOf v ns)"

definition decodeCanonicalRange :: "string \<Rightarrow> nat \<Rightarrow> nat \<Rightarrow> proto_error + bytes" where
  "decodeCanonicalRange v minimum maximum =
     (if list_ex is_newline v then Inl (NotCanonical ''sync value is not canonical base64url'')
      else case DecodeString v of
          None \<Rightarrow> Inl (NotCanonical ''sync value is not canonical base64url of an allowed length'')
        | Some decoded \<Rightarrow>
            if length decoded < minimum \<or> maximum < length decoded
            then Inl (NotCanonical ''sync value is not canonical base64url of an allowed length'')
            else if EncodeToString decoded \<noteq> v
            then Inl (NotCanonical ''sync value is not canonical base64url'')
            else Inr decoded)"

definition isOk :: "'e + 'a \<Rightarrow> bool" where
  "isOk r = (case r of Inl _ \<Rightarrow> False | Inr _ \<Rightarrow> True)"

definition validDigest :: "string \<Rightarrow> bool" where
  "validDigest v = isOk (decodeCanonical v DigestBytes)"

definition checkedNext :: "u64 \<Rightarrow> u64 option" where
  "checkedNext v = (if v = NOT 0 then None else Some (v + 1))"

section \<open>Lemmas\<close>

lemma isOk_simps [simp]: "isOk (Inr x)" "\<not> isOk (Inl e)"
  by (simp_all add: isOk_def)

lemma isOk_iff: "isOk r \<longleftrightarrow> (\<exists>x. r = Inr x)"
  by (cases r) auto

lemma decodeCanonical_iff:
  "decodeCanonical v n = Inr bs \<longleftrightarrow> v = EncodeToString bs \<and> length bs = n"
proof
  assume "decodeCanonical v n = Inr bs"
  then show "v = EncodeToString bs \<and> length bs = n"
    by (auto simp: decodeCanonical_def split: if_splits option.splits)
next
  assume "v = EncodeToString bs \<and> length bs = n"
  then show "decodeCanonical v n = Inr bs"
    using EncodeToString_no_newline [of _ bs] by (auto simp: decodeCanonical_def list_ex_iff)
qed

lemma decodeCanonical_Encode [simp]:
  "decodeCanonical (EncodeToString bs) n =
     (if length bs = n then Inr bs
      else Inl (NotCanonical ''sync value is not canonical base64url of the expected length''))"
  using EncodeToString_no_newline [of _ bs] by (auto simp: decodeCanonical_def list_ex_iff)

lemma decodeCanonical_Nil [simp]:
  "0 < n \<Longrightarrow> decodeCanonical [] n =
     Inl (NotCanonical ''sync value is not canonical base64url of the expected length'')"
  by (simp add: decodeCanonical_def DecodeString_def)

lemma decodeCanonicalRange_iff:
  "decodeCanonicalRange v lo hi = Inr bs \<longleftrightarrow>
     v = EncodeToString bs \<and> lo \<le> length bs \<and> length bs \<le> hi"
proof
  assume "decodeCanonicalRange v lo hi = Inr bs"
  then show "v = EncodeToString bs \<and> lo \<le> length bs \<and> length bs \<le> hi"
    by (auto simp: decodeCanonicalRange_def split: if_splits option.splits)
next
  assume "v = EncodeToString bs \<and> lo \<le> length bs \<and> length bs \<le> hi"
  then show "decodeCanonicalRange v lo hi = Inr bs"
    using EncodeToString_no_newline [of _ bs] by (auto simp: decodeCanonicalRange_def list_ex_iff)
qed

lemma decodeCanonicalOneOf_iff:
  "decodeCanonicalOneOf v ns = Inr bs \<longleftrightarrow> v = EncodeToString bs \<and> length bs \<in> set ns"
proof (induction ns)
  case (Cons n ns)
  show ?case
  proof (cases "decodeCanonical v n")
    case (Inl e)
    then have "\<not> (v = EncodeToString bs \<and> length bs = n)"
      using decodeCanonical_iff [of v n bs] by auto
    with Inl Cons show ?thesis by auto
  next
    case (Inr b)
    then show ?thesis using decodeCanonical_iff [of v n b] by auto
  qed
qed simp

declare decodeCanonicalOneOf.simps [simp del]

lemma isOk_Canonical_iff [simp]:
  "isOk (decodeCanonical v n) \<longleftrightarrow> (\<exists>bs. v = EncodeToString bs \<and> length bs = n)"
  "isOk (decodeCanonicalRange v lo hi) \<longleftrightarrow> (\<exists>bs. v = EncodeToString bs \<and> lo \<le> length bs \<and> length bs \<le> hi)"
  "isOk (decodeCanonicalOneOf v ns) \<longleftrightarrow> (\<exists>bs. v = EncodeToString bs \<and> length bs \<in> set ns)"
  by (auto simp: isOk_iff decodeCanonical_iff decodeCanonicalRange_iff decodeCanonicalOneOf_iff)

lemma validDigest_iff: "validDigest v \<longleftrightarrow> (\<exists>bs. v = EncodeToString bs \<and> length bs = 32)"
  by (auto simp: validDigest_def isOk_iff decodeCanonical_iff DigestBytes_def)

lemma validDigest_digest [simp]: "validDigest (digest c)"
  by (auto simp: validDigest_iff digest_def)

lemma digest_not_Nil [simp]: "digest c \<noteq> []" "[] \<noteq> digest c"
  by (simp_all add: digest_def eq_commute [of "[]"])

lemma checkedNext_Some [simp]: "checkedNext v = Some n \<longleftrightarrow> v \<noteq> -1 \<and> n = v + 1"
  by (auto simp: checkedNext_def)

lemma checkedNext_None [simp]: "checkedNext v = None \<longleftrightarrow> v = -1"
  by (auto simp: checkedNext_def)

lemma opaqueID_not_Nil: "opaqueID v \<Longrightarrow> v \<noteq> []"
  by (auto simp: opaqueID_def)

lemma opaqueID_char: "opaqueID v \<Longrightarrow> c \<in> set v \<Longrightarrow> c \<in> set url_alphabet"
  by (auto simp: opaqueID_def opaque_char_def list_all_iff)

lemma length_writeUint64_loop: "length (writeUint64_loop n out v) = length out"
  by (induction n arbitrary: out v) auto

lemma length_writeUint64 [simp]: "length (writeUint64 v) = 8"
  by (simp add: writeUint64_def length_writeUint64_loop)

lemma writeUint64_bytes:
  "writeUint64 v = map (\<lambda>i. ucast (drop_bit (8 * i) v)) [7, 6, 5, 4, 3, 2, 1, 0]"
  by (simp add: writeUint64_def numeral_eq_Suc drop_bit_drop_bit)

lemma writeUint64_inject [simp]: "writeUint64 v = writeUint64 w \<longleftrightarrow> v = w"
proof
  assume eq: "writeUint64 v = writeUint64 w"
  have byte: "ucast (drop_bit (8 * i) v) = (ucast (drop_bit (8 * i) w) :: byte)" if "i < 8" for i
  proof -
    have "i \<in> set [7, 6, 5, 4, 3, 2, 1, 0]" using that by auto
    with eq show ?thesis unfolding writeUint64_bytes map_eq_conv by blast
  qed
  show "v = w"
  proof (rule bit_word_eqI)
    fix n assume "n < LENGTH(64)"
    then have n: "n div 8 < 8" "8 * (n div 8) + n mod 8 = n" by auto
    have m: "n mod 8 < LENGTH(8)" by simp
    have "bit (ucast (drop_bit (8 * (n div 8)) v) :: byte) (n mod 8) = bit v n"
      and "bit (ucast (drop_bit (8 * (n div 8)) w) :: byte) (n mod 8) = bit w n"
      using n(2) m by (simp_all only: bit_ucast_iff bit_drop_bit_eq o_def add.commute simp_thms)
    with byte [OF n(1)] show "bit v n \<longleftrightarrow> bit w n" by simp
  qed
qed simp

subsection \<open>The canonical form determines its parts\<close>

definition frame :: "bytes \<Rightarrow> bytes" where
  "frame part = writeUint64 (of_nat (length part)) @ part"

definition encode_parts :: "bytes list \<Rightarrow> bytes" where
  "encode_parts ps = concat (map frame ps)"

text \<open>Every Go slice has fewer than \<open>2 ^ 64\<close> elements.\<close>

definition fits :: "bytes list \<Rightarrow> bool" where
  "fits ps \<longleftrightarrow> (\<forall>p \<in> set ps. length p < 2 ^ 64)"

lemma fits_simps [simp]: "fits []" "fits (p # ps) \<longleftrightarrow> length p < 2 ^ 64 \<and> fits ps"
  by (simp_all add: fits_def)

lemma frame_append_inject:
  assumes "frame p @ r = frame q @ t" "length p < 2 ^ 64" "length q < 2 ^ 64"
  shows "p = q \<and> r = t"
proof -
  have "writeUint64 (of_nat (length p)) = writeUint64 (of_nat (length q))"
    and rest: "p @ r = q @ t"
    using assms(1) append_eq_append_conv [of "writeUint64 (of_nat (length p))" "writeUint64 (of_nat (length q))"]
    by (auto simp: frame_def)
  then have "length p = length q"
    using assms(2,3) by (simp add: u64_of_nat_eq_iff)
  with rest show ?thesis by simp
qed

lemma encode_parts_inject:
  "fits ps \<Longrightarrow> fits qs \<Longrightarrow> encode_parts ps = encode_parts qs \<longleftrightarrow> ps = qs"
proof (induction ps arbitrary: qs)
  case Nil
  then show ?case by (cases qs) (auto simp: encode_parts_def frame_def dest: arg_cong [of _ _ length])
next
  case (Cons p ps)
  show ?case
  proof (cases qs)
    case Nil
    then show ?thesis by (auto simp: encode_parts_def frame_def dest: arg_cong [of _ _ length])
  next
    case (Cons q qs')
    have "encode_parts (p # ps) = encode_parts (q # qs') \<longleftrightarrow> p = q \<and> encode_parts ps = encode_parts qs'"
      using Cons Cons.prems frame_append_inject [of p "encode_parts ps" q "encode_parts qs'"]
      by (auto simp: encode_parts_def)
    with Cons Cons.prems Cons.IH [of qs'] show ?thesis by simp
  qed
qed

named_theorems canonical_simps

lemma newCanonical_parts [canonical_simps]: "newCanonical label = encode_parts [bytes_of label]"
  by (simp add: newCanonical_def addText_def add_def encode_parts_def frame_def)

lemma add_parts [canonical_simps]: "add (encode_parts ps) part = encode_parts (ps @ [part])"
  by (simp add: add_def encode_parts_def frame_def)

lemma addText_parts [canonical_simps]: "addText (encode_parts ps) v = encode_parts (ps @ [bytes_of v])"
  by (simp add: addText_def add_parts)

lemma number_parts [canonical_simps]:
  "number (encode_parts ps) v = encode_parts (ps @ [bytes_of (FormatUint v)])"
  by (simp add: number_def addText_parts)

lemma digest_collision:
  "digest c = digest d \<Longrightarrow> c = d \<or> (c \<noteq> d \<and> Sum256 c = Sum256 d)"
  by (auto simp: digest_def)

subsection \<open>Signed and hashed message forms\<close>

text \<open>
  The contract of a message type whose signing payload or digest input is built with the
  canonical builder: a label, and the parts that follow it.  The clients of the contract are
  the lemmas below: the payload determines the parts, and payloads under different labels
  differ.
\<close>

locale message_form =
  fixes label :: string and parts :: "'a \<Rightarrow> bytes list" and payload :: "'a \<Rightarrow> bytes"
  assumes payload_parts: "payload x = encode_parts (bytes_of label # parts x)"
    and label_short: "length label < 2 ^ 64"
begin

lemma payload_binds:
  "fits (parts x) \<Longrightarrow> fits (parts y) \<Longrightarrow> payload x = payload y \<longleftrightarrow> parts x = parts y"
  using label_short by (simp add: payload_parts encode_parts_inject)

lemma payload_head: "payload x = frame (bytes_of label) @ encode_parts (parts x)"
  by (simp add: payload_parts encode_parts_def)

end

lemma frames_differ:
  "l \<noteq> l' \<Longrightarrow> length l < 2 ^ 64 \<Longrightarrow> length l' < 2 ^ 64 \<Longrightarrow>
   frame (bytes_of l) @ r \<noteq> frame (bytes_of l') @ t"
  using frame_append_inject [of "bytes_of l" r "bytes_of l'" t] by auto

end
