(* ===== verification/Device_List.thy ===== *)
theory Device_List
  imports Canonical
begin

text \<open>
  The file devicelist.go of internal/syncproto: the signed, append-only list of the devices of
  a vault.  An entry creates the vault, adds a device, removes one, replaces a package key or
  rotates the vault key; \<open>Extend\<close> verifies one entry against the list it extends.  The lemmas
  give the well-formedness invariant of a verified list, the immutability of its history, and
  what the head digest commits to.
\<close>

section \<open>Ed25519\<close>

text \<open>
  The functions of package crypto/ed25519 are a parameter of the model.  What the code relies
  on is that a signature made with a private key has 64 bytes and verifies under the public
  key that belongs to it (\<open>signs_for\<close>).
\<close>

record ed25519 =
  edVerify :: "bytes \<Rightarrow> bytes \<Rightarrow> bytes \<Rightarrow> bool"
  edSign :: "bytes \<Rightarrow> bytes \<Rightarrow> bytes"

definition signs_for :: "ed25519 \<Rightarrow> bytes \<Rightarrow> bytes \<Rightarrow> bool" where
  "signs_for ed private public \<longleftrightarrow>
     (\<forall>m. length (edSign ed private m) = Ed25519SignatureBytes \<and> edVerify ed public m (edSign ed private m))"

section \<open>Entries\<close>

definition EntryCreate :: string where "EntryCreate = ''create''"
definition EntryAdd :: string where "EntryAdd = ''add''"
definition EntryRemove :: string where "EntryRemove = ''remove''"
definition EntryKey :: string where "EntryKey = ''key''"
definition EntryRotate :: string where "EntryRotate = ''rotate''"

lemmas kind_defs = EntryCreate_def EntryAdd_def EntryRemove_def EntryKey_def EntryRotate_def

lemma kinds_distinct [simp]:
  "EntryCreate \<noteq> EntryAdd" "EntryCreate \<noteq> EntryRemove" "EntryCreate \<noteq> EntryKey" "EntryCreate \<noteq> EntryRotate"
  "EntryAdd \<noteq> EntryCreate" "EntryAdd \<noteq> EntryRemove" "EntryAdd \<noteq> EntryKey" "EntryAdd \<noteq> EntryRotate"
  "EntryRemove \<noteq> EntryCreate" "EntryRemove \<noteq> EntryAdd" "EntryRemove \<noteq> EntryKey" "EntryRemove \<noteq> EntryRotate"
  "EntryKey \<noteq> EntryCreate" "EntryKey \<noteq> EntryAdd" "EntryKey \<noteq> EntryRemove" "EntryKey \<noteq> EntryRotate"
  "EntryRotate \<noteq> EntryCreate" "EntryRotate \<noteq> EntryAdd" "EntryRotate \<noteq> EntryRemove" "EntryRotate \<noteq> EntryKey"
  by (simp_all add: kind_defs)

record DeviceListEntry =
  eVaultID :: string
  eIndex :: u64
  ePreviousDigest :: string
  eKind :: string
  eSignerDeviceID :: string
  eSubjectDeviceID :: string
  eSubjectSigningKey :: string
  eSubjectPackageKey :: string
  eSealedLabel :: string
  eEpochAfter :: u64
  eSnapshotFloor :: u64
  eSignature :: string

definition entryFields :: "DeviceListEntry \<Rightarrow> string \<Rightarrow> canonical" where
  "entryFields entry label =
     (let c = newCanonical label;
          c = addText c (eVaultID entry);
          c = number c (eIndex entry);
          c = addText c (ePreviousDigest entry);
          c = addText c (eKind entry);
          c = addText c (eSignerDeviceID entry);
          c = addText c (eSubjectDeviceID entry);
          c = addText c (eSubjectSigningKey entry);
          c = addText c (eSubjectPackageKey entry);
          c = addText c (eSealedLabel entry);
          c = number c (eEpochAfter entry);
          c = number c (eSnapshotFloor entry)
      in c)"

definition entrySigningPayload :: "DeviceListEntry \<Rightarrow> bytes" where
  "entrySigningPayload entry = entryFields entry LabelDeviceList"

definition entryDigestInput :: "DeviceListEntry \<Rightarrow> canonical" where
  "entryDigestInput entry = addText (entryFields entry LabelDeviceListDigest) (eSignature entry)"

definition entryDigest :: "DeviceListEntry \<Rightarrow> string" where
  "entryDigest entry = digest (entryDigestInput entry)"

text \<open>The \<open>switch entry.Kind\<close> of \<open>Validate\<close>.\<close>

definition entryValidateKind :: "DeviceListEntry \<Rightarrow> proto_error + unit" where
  "entryValidateKind entry =
     (if eKind entry = EntryCreate \<or> eKind entry = EntryAdd then
        (if \<not> isOk (decodeCanonical (eSubjectSigningKey entry) Ed25519PublicKeyBytes)
         then Inl (ErrDeviceListInvalid ''signing key'')
         else if \<not> isOk (decodeCanonicalOneOf (eSubjectPackageKey entry)
                           [X25519PublicKeyBytes, XWingPublicKeyBytes])
         then Inl (ErrDeviceListInvalid ''package key'')
         else if \<not> isOk (decodeCanonicalRange (eSealedLabel entry) MinSealedLabelBytes MaxSealedLabelBytes)
         then Inl (ErrDeviceListInvalid ''label'')
         else Inr ())
      else if eKind entry = EntryRemove then
        (if eSubjectSigningKey entry \<noteq> [] \<or> eSubjectPackageKey entry \<noteq> [] \<or> eSealedLabel entry \<noteq> []
         then Inl (ErrDeviceListInvalid ''a removal carries no key or label'')
         else Inr ())
      else if eKind entry = EntryKey then
        (if eSignerDeviceID entry \<noteq> eSubjectDeviceID entry \<or> eSubjectSigningKey entry \<noteq> []
            \<or> eSealedLabel entry \<noteq> []
         then Inl (ErrDeviceListInvalid
           ''a key replacement is signed by its own device and carries only the new package key'')
         else if \<not> isOk (decodeCanonical (eSubjectPackageKey entry) XWingPublicKeyBytes)
         then Inl (ErrDeviceListInvalid ''package key'')
         else Inr ())
      else if eKind entry = EntryRotate then
        (if eSignerDeviceID entry \<noteq> eSubjectDeviceID entry \<or> eSubjectSigningKey entry \<noteq> []
            \<or> eSubjectPackageKey entry \<noteq> [] \<or> eSealedLabel entry \<noteq> []
         then Inl (ErrDeviceListInvalid ''a rotation is signed by its own device and carries no key or label'')
         else Inr ())
      else Inl (ErrDeviceListInvalid ''kind''))"

definition entryValidate :: "DeviceListEntry \<Rightarrow> proto_error + unit" where
  "entryValidate entry =
     (if \<not> opaqueID (eVaultID entry) \<or> \<not> opaqueID (eSignerDeviceID entry) \<or> \<not> opaqueID (eSubjectDeviceID entry)
      then Inl (ErrDeviceListInvalid ''identifiers'')
      else if eIndex entry = 0 \<or> eEpochAfter entry = 0
      then Inl (ErrDeviceListInvalid ''index or epoch'')
      else if (eIndex entry = 1) \<noteq> (ePreviousDigest entry = [])
      then Inl (ErrDeviceListInvalid ''previous digest'')
      else if ePreviousDigest entry \<noteq> [] \<and> \<not> validDigest (ePreviousDigest entry)
      then Inl (ErrDeviceListInvalid ''previous digest'')
      else case entryValidateKind entry of
          Inl e \<Rightarrow> Inl e
        | Inr _ \<Rightarrow>
            if eKind entry \<noteq> EntryAdd \<and> eSnapshotFloor entry \<noteq> 0
            then Inl (ErrDeviceListInvalid ''snapshot floor'')
            else if \<not> isOk (decodeCanonical (eSignature entry) Ed25519SignatureBytes)
            then Inl (ErrDeviceListInvalid ''signature'')
            else Inr ())"

definition verifyEntrySignature :: "ed25519 \<Rightarrow> DeviceListEntry \<Rightarrow> string \<Rightarrow> proto_error + unit" where
  "verifyEntrySignature ed entry encodedKey =
     (case decodeCanonical encodedKey Ed25519PublicKeyBytes of
        Inl _ \<Rightarrow> Inl (ErrDeviceListBroken ''signer key'')
      | Inr key \<Rightarrow>
          (case decodeCanonical (eSignature entry) Ed25519SignatureBytes of
             Inl _ \<Rightarrow> Inl (ErrDeviceListBroken ''signature'')
           | Inr signature \<Rightarrow>
               if \<not> edVerify ed key (entrySigningPayload entry) signature
               then Inl (ErrDeviceListBroken ''signature'') else Inr ()))"

definition SignDeviceListEntry :: "ed25519 \<Rightarrow> bytes \<Rightarrow> DeviceListEntry \<Rightarrow> DeviceListEntry" where
  "SignDeviceListEntry ed key entry =
     entry\<lparr>eSignature := EncodeToString (edSign ed key (entrySigningPayload entry))\<rparr>"

section \<open>The list\<close>

record packageKeyChange =
  changeIndex :: u64
  changePrevious :: string

record DeviceListMember =
  mDeviceID :: string
  mSigningKey :: string
  mPackageKey :: string
  mSealedLabel :: string
  mAddedIndex :: u64
  mRemovedIndex :: u64
  mReplaced :: "packageKeyChange list"

definition memberAt :: "DeviceListMember \<Rightarrow> u64 \<Rightarrow> bool" where
  "memberAt member index \<longleftrightarrow>
     mAddedIndex member \<le> index \<and> (mRemovedIndex member = 0 \<or> index < mRemovedIndex member)"

record DeviceList =
  lVaultID :: string
  lMembers :: "(string, DeviceListMember) gomap"
  lDigests :: "string list"
  lEpochs :: "u64 list"

definition Head :: "DeviceList \<Rightarrow> u64" where
  "Head l = of_nat (length (lDigests l))"

definition HeadDigest :: "DeviceList \<Rightarrow> string" where
  "HeadDigest l = (if lDigests l = [] then [] else lDigests l ! (length (lDigests l) - 1))"

definition Epoch :: "DeviceList \<Rightarrow> u64" where
  "Epoch l = (if lEpochs l = [] then 0 else lEpochs l ! (length (lEpochs l) - 1))"

definition DigestAt :: "DeviceList \<Rightarrow> u64 \<Rightarrow> string option" where
  "DigestAt l index =
     (if index = 0 \<or> of_nat (length (lDigests l)) < index then None
      else Some (lDigests l ! unat (index - 1)))"

definition EpochAt :: "DeviceList \<Rightarrow> u64 \<Rightarrow> u64 option" where
  "EpochAt l index =
     (if index = 0 \<or> of_nat (length (lEpochs l)) < index then None
      else Some (lEpochs l ! unat (index - 1)))"

definition Member :: "DeviceList \<Rightarrow> string \<Rightarrow> DeviceListMember option" where
  "Member l deviceID = map_of (lMembers l) deviceID"

text \<open>The loop over \<open>member.replaced\<close>: the first change after \<open>index\<close> gives the key.\<close>

fun packageKeyAt :: "packageKeyChange list \<Rightarrow> u64 \<Rightarrow> string \<Rightarrow> string" where
  "packageKeyAt [] index current = current"
| "packageKeyAt (change # changes) index current =
     (if index < changeIndex change then changePrevious change else packageKeyAt changes index current)"

definition MemberAt :: "DeviceList \<Rightarrow> string \<Rightarrow> u64 \<Rightarrow> DeviceListMember option" where
  "MemberAt l deviceID index =
     (case map_of (lMembers l) deviceID of
        None \<Rightarrow> None
      | Some member \<Rightarrow>
          if \<not> memberAt member index then None
          else Some (member\<lparr>mPackageKey := packageKeyAt (mReplaced member) index (mPackageKey member)\<rparr>))"

definition Current :: "DeviceList \<Rightarrow> DeviceListMember list" where
  "Current l = filter (\<lambda>member. mRemovedIndex member = 0) (map snd (lMembers l))"

definition NewDeviceList :: DeviceList where
  "NewDeviceList = \<lparr>lVaultID = [], lMembers = [], lDigests = [], lEpochs = []\<rparr>"

definition appendEntry :: "DeviceList \<Rightarrow> DeviceListEntry \<Rightarrow> u64 \<Rightarrow> DeviceList" where
  "appendEntry l entry epoch =
     l\<lparr>lDigests := lDigests l @ [entryDigest entry], lEpochs := lEpochs l @ [epoch]\<rparr>"

definition memberFromEntry :: "DeviceListEntry \<Rightarrow> DeviceListMember" where
  "memberFromEntry entry =
     \<lparr>mDeviceID = eSubjectDeviceID entry, mSigningKey = eSubjectSigningKey entry,
      mPackageKey = eSubjectPackageKey entry, mSealedLabel = eSealedLabel entry,
      mAddedIndex = eIndex entry, mRemovedIndex = 0, mReplaced = []\<rparr>"

definition putMember :: "DeviceList \<Rightarrow> string \<Rightarrow> DeviceListMember \<Rightarrow> DeviceList" where
  "putMember l deviceID member = l\<lparr>lMembers := AList.update deviceID member (lMembers l)\<rparr>"

definition extendCreate :: "ed25519 \<Rightarrow> DeviceList \<Rightarrow> DeviceListEntry \<Rightarrow> proto_error + DeviceList" where
  "extendCreate ed l entry =
     (if eKind entry \<noteq> EntryCreate \<or> eSignerDeviceID entry \<noteq> eSubjectDeviceID entry
         \<or> eEpochAfter entry \<noteq> 1 \<or> eSnapshotFloor entry \<noteq> 0
      then Inl (ErrDeviceListBroken ''the first entry must be a self signed create at epoch 1'')
      else case verifyEntrySignature ed entry (eSubjectSigningKey entry) of
          Inl e \<Rightarrow> Inl e
        | Inr _ \<Rightarrow>
            Inr (appendEntry
              (putMember (l\<lparr>lVaultID := eVaultID entry\<rparr>) (eSubjectDeviceID entry) (memberFromEntry entry))
              entry 1))"

definition extendAdd :: "DeviceList \<Rightarrow> DeviceListEntry \<Rightarrow> proto_error + DeviceList" where
  "extendAdd l entry =
     (if map_of (lMembers l) (eSubjectDeviceID entry) \<noteq> None
      then Inl (ErrDeviceListBroken ''device id was already used'')
      else if eEpochAfter entry \<noteq> Epoch l
      then Inl (ErrDeviceListBroken ''an add does not change the epoch'')
      else if MaxDevicesPerVault \<le> length (Current l)
      then Inl (ErrDeviceListBroken ''too many devices'')
      else Inr (appendEntry (putMember l (eSubjectDeviceID entry) (memberFromEntry entry))
             entry (eEpochAfter entry)))"

definition extendRemove :: "DeviceList \<Rightarrow> DeviceListEntry \<Rightarrow> proto_error + DeviceList" where
  "extendRemove l entry =
     (case map_of (lMembers l) (eSubjectDeviceID entry) of
        None \<Rightarrow> Inl (ErrDeviceListBroken ''subject is not a member'')
      | Some subject \<Rightarrow>
          if mRemovedIndex subject \<noteq> 0 then Inl (ErrDeviceListBroken ''subject is not a member'')
          else if checkedNext (Epoch l) \<noteq> Some (eEpochAfter entry)
          then Inl (ErrDeviceListBroken ''a removal raises the epoch by one'')
          else Inr (appendEntry
                 (putMember l (eSubjectDeviceID entry) (subject\<lparr>mRemovedIndex := eIndex entry\<rparr>))
                 entry (eEpochAfter entry)))"

definition extendKey :: "DeviceList \<Rightarrow> DeviceListEntry \<Rightarrow> DeviceListMember \<Rightarrow> proto_error + DeviceList" where
  "extendKey l entry signer =
     (if eEpochAfter entry \<noteq> Epoch l
      then Inl (ErrDeviceListBroken ''a key replacement does not change the epoch'')
      else if \<not> isOk (decodeCanonical (mPackageKey signer) X25519PublicKeyBytes)
      then Inl (ErrDeviceListBroken ''only a device with the older package key can replace it'')
      else let signer' = signer\<lparr>mReplaced := mReplaced signer @
                   [\<lparr>changeIndex = eIndex entry, changePrevious = mPackageKey signer\<rparr>],
                 mPackageKey := eSubjectPackageKey entry\<rparr>
           in Inr (appendEntry (putMember l (mDeviceID signer') signer') entry (eEpochAfter entry)))"

definition extendRotate :: "DeviceList \<Rightarrow> DeviceListEntry \<Rightarrow> proto_error + DeviceList" where
  "extendRotate l entry =
     (if checkedNext (Epoch l) \<noteq> Some (eEpochAfter entry)
      then Inl (ErrDeviceListBroken ''a rotation raises the epoch by one'')
      else Inr (appendEntry l entry (eEpochAfter entry)))"

definition Extend :: "ed25519 \<Rightarrow> DeviceList \<Rightarrow> DeviceListEntry \<Rightarrow> proto_error + DeviceList" where
  "Extend ed l entry =
     (case entryValidate entry of
        Inl e \<Rightarrow> Inl e
      | Inr _ \<Rightarrow>
          if checkedNext (Head l) \<noteq> Some (eIndex entry)
          then Inl (ErrDeviceListBroken (''index '' @ FormatUint (eIndex entry) @ '' does not follow ''
                 @ FormatUint (Head l)))
          else if eIndex entry = 1 then extendCreate ed l entry
          else if eVaultID entry \<noteq> lVaultID l then Inl (ErrDeviceListBroken ''vault'')
          else if ePreviousDigest entry \<noteq> HeadDigest l then Inl (ErrDeviceListBroken ''previous digest'')
          else (case map_of (lMembers l) (eSignerDeviceID entry) of
              None \<Rightarrow> Inl (ErrDeviceListBroken ''signer is not a member'')
            | Some signer \<Rightarrow>
                if mRemovedIndex signer \<noteq> 0 then Inl (ErrDeviceListBroken ''signer is not a member'')
                else (case verifyEntrySignature ed entry (mSigningKey signer) of
                    Inl e \<Rightarrow> Inl e
                  | Inr _ \<Rightarrow>
                      if eKind entry = EntryCreate
                      then Inl (ErrDeviceListBroken ''only the first entry creates'')
                      else if eKind entry = EntryAdd then extendAdd l entry
                      else if eKind entry = EntryRemove then extendRemove l entry
                      else if eKind entry = EntryKey then extendKey l entry signer
                      else if eKind entry = EntryRotate then extendRotate l entry
                      else Inl (ErrDeviceListBroken ''kind''))))"

text \<open>The loop of \<open>VerifyDeviceList\<close>, which \<open>loadList\<close> of the service runs page by page.\<close>

fun extendAll :: "ed25519 \<Rightarrow> DeviceList \<Rightarrow> DeviceListEntry list \<Rightarrow> proto_error + DeviceList" where
  "extendAll ed l [] = Inr l"
| "extendAll ed l (entry # entries) =
     (case Extend ed l entry of Inl e \<Rightarrow> Inl e | Inr l' \<Rightarrow> extendAll ed l' entries)"

definition VerifyDeviceList :: "ed25519 \<Rightarrow> DeviceListEntry list \<Rightarrow> proto_error + DeviceList" where
  "VerifyDeviceList ed entries = extendAll ed NewDeviceList entries"

section \<open>Validated entries\<close>

text \<open>The parts of the canonical form of an entry.\<close>

definition entryParts :: "DeviceListEntry \<Rightarrow> bytes list" where
  "entryParts e =
     [bytes_of (eVaultID e), bytes_of (FormatUint (eIndex e)), bytes_of (ePreviousDigest e),
      bytes_of (eKind e), bytes_of (eSignerDeviceID e), bytes_of (eSubjectDeviceID e),
      bytes_of (eSubjectSigningKey e), bytes_of (eSubjectPackageKey e), bytes_of (eSealedLabel e),
      bytes_of (FormatUint (eEpochAfter e)), bytes_of (FormatUint (eSnapshotFloor e))]"

lemma entryFields_parts: "entryFields e label = encode_parts (bytes_of label # entryParts e)"
  by (simp add: entryFields_def entryParts_def canonical_simps)

lemma entryDigestInput_parts:
  "entryDigestInput e = encode_parts (bytes_of LabelDeviceListDigest # entryParts e @ [bytes_of (eSignature e)])"
  by (simp add: entryDigestInput_def entryFields_parts canonical_simps)

lemma entryParts_inject:
  "entryParts e = entryParts f \<and> eSignature e = eSignature f \<longleftrightarrow> e = f"
  by (auto simp: entryParts_def intro: DeviceListEntry.equality)

text \<open>What \<open>Validate\<close> guarantees, by kind of entry.\<close>

lemma entryValidateD:
  assumes "entryValidate e = Inr u"
  shows "opaqueID (eVaultID e)" "opaqueID (eSignerDeviceID e)" "opaqueID (eSubjectDeviceID e)"
    "eIndex e \<noteq> 0" "eEpochAfter e \<noteq> 0" "eIndex e = 1 \<longleftrightarrow> ePreviousDigest e = []"
    "ePreviousDigest e \<noteq> [] \<Longrightarrow> validDigest (ePreviousDigest e)"
    "\<exists>bs. eSignature e = EncodeToString bs \<and> length bs = 64"
    "entryValidateKind e = Inr ()"
  using assms
  by (auto simp: entryValidate_def size_consts split: if_splits sum.splits)

lemma entryValidateKindD:
  assumes "entryValidateKind e = Inr u"
  shows "eKind e \<in> {EntryCreate, EntryAdd, EntryRemove, EntryKey, EntryRotate}"
    "eKind e = EntryCreate \<or> eKind e = EntryAdd \<Longrightarrow>
       (\<exists>bs. eSubjectSigningKey e = EncodeToString bs \<and> length bs = 32) \<and>
       (\<exists>bs. eSubjectPackageKey e = EncodeToString bs \<and> length bs \<in> {32, 1216}) \<and>
       (\<exists>bs. eSealedLabel e = EncodeToString bs \<and> 40 \<le> length bs \<and> length bs \<le> 256)"
    "eKind e = EntryKey \<Longrightarrow> eSignerDeviceID e = eSubjectDeviceID e \<and>
       (\<exists>bs. eSubjectPackageKey e = EncodeToString bs \<and> length bs = 1216)"
    "eKind e = EntryRotate \<Longrightarrow> eSignerDeviceID e = eSubjectDeviceID e"
  using assms
  by (auto simp: entryValidateKind_def size_consts kind_defs split: if_splits)

lemma length_Encode_bound: "length bs \<le> n \<Longrightarrow> length (EncodeToString bs) \<le> 2 * n"
  using length_EncodeToString_le [of bs] by linarith

lemma opaqueID_length: "opaqueID v \<Longrightarrow> length v \<le> 128"
  by (simp add: opaqueID_def)

lemma validDigest_length: "validDigest v \<Longrightarrow> length v \<le> 64"
  using length_Encode_bound [of _ 32] by (auto simp: validDigest_iff)

text \<open>Every field of a validated entry is short, so its canonical form determines it.\<close>

lemma entryValidate_lengths:
  assumes "entryValidate e = Inr u"
  shows "length (eSubjectSigningKey e) \<le> 2432" "length (eSubjectPackageKey e) \<le> 2432"
    "length (eSealedLabel e) \<le> 2432" "length (eKind e) \<le> 2432" "length (eSignature e) \<le> 2432"
    "length (ePreviousDigest e) \<le> 2432"
proof -
  have enc: "length (EncodeToString bs) \<le> 2432" if "length bs \<le> 1216" for bs
    using length_Encode_bound [OF that] by simp
  have k: "entryValidateKind e = Inr ()" by (rule entryValidateD(9) [OF assms])
  show "length (eSubjectSigningKey e) \<le> 2432" "length (eSubjectPackageKey e) \<le> 2432"
    "length (eSealedLabel e) \<le> 2432" "length (eKind e) \<le> 2432"
    using k by (auto simp: entryValidateKind_def size_consts kind_defs enc split: if_splits)
  show "length (eSignature e) \<le> 2432"
    using entryValidateD(8) [OF assms] by (auto simp: enc)
  show "length (ePreviousDigest e) \<le> 2432"
    using entryValidateD(7) [OF assms] validDigest_length [of "ePreviousDigest e"]
    by (cases "ePreviousDigest e = []") auto
qed

lemma entryValidate_fits:
  assumes "entryValidate e = Inr u"
  shows "fits (entryParts e @ [bytes_of (eSignature e)])"
proof -
  have "length (FormatUint n) < 2 ^ 64" for n
    using length_FormatUint_le [of n] by simp
  moreover have "length v < 2 ^ 64" if "length v \<le> 2432" for v :: string
    using that by simp
  ultimately show ?thesis
    using entryValidate_lengths [OF assms] entryValidateD(1-3) [OF assms]
    by (auto simp: entryParts_def dest!: opaqueID_length)
qed

lemma entryDigestInput_inject:
  assumes "entryValidate e = Inr u" "entryValidate f = Inr u'"
  shows "entryDigestInput e = entryDigestInput f \<longleftrightarrow> e = f"
  using entryValidate_fits [OF assms(1)] entryValidate_fits [OF assms(2)]
  by (auto simp: entryDigestInput_parts encode_parts_inject LabelDeviceListDigest_def
      entryParts_inject [symmetric])

interpretation entry_form: message_form LabelDeviceList entryParts entrySigningPayload
  by unfold_locales (simp_all add: entrySigningPayload_def entryFields_parts LabelDeviceList_def)

interpretation entry_digest_form: message_form LabelDeviceListDigest
  "\<lambda>e. entryParts e @ [bytes_of (eSignature e)]" entryDigestInput
  by unfold_locales (simp_all add: entryDigestInput_parts LabelDeviceListDigest_def)

section \<open>The cases of Extend\<close>

definition follows :: "ed25519 \<Rightarrow> DeviceList \<Rightarrow> DeviceListEntry \<Rightarrow> DeviceListMember \<Rightarrow> bool" where
  "follows ed l e signer \<longleftrightarrow>
     entryValidate e = Inr () \<and> Head l \<noteq> -1 \<and> eIndex e = Head l + 1 \<and> eIndex e \<noteq> 1 \<and>
     eVaultID e = lVaultID l \<and> ePreviousDigest e = HeadDigest l \<and>
     map_of (lMembers l) (eSignerDeviceID e) = Some signer \<and> mRemovedIndex signer = 0 \<and>
     verifyEntrySignature ed e (mSigningKey signer) = Inr ()"

lemma ExtendE [consumes 1, case_names create add remove key rotate]:
  assumes "Extend ed l e = Inr l'"
  obtains
    (create) "entryValidate e = Inr ()" "Head l = 0" "eIndex e = 1" "eKind e = EntryCreate"
      "eSignerDeviceID e = eSubjectDeviceID e" "eEpochAfter e = 1"
      "verifyEntrySignature ed e (eSubjectSigningKey e) = Inr ()"
      "l' = appendEntry (putMember (l\<lparr>lVaultID := eVaultID e\<rparr>) (eSubjectDeviceID e) (memberFromEntry e)) e 1"
  | (add) signer where "follows ed l e signer" "eKind e = EntryAdd"
      "map_of (lMembers l) (eSubjectDeviceID e) = None" "eEpochAfter e = Epoch l"
      "length (Current l) < MaxDevicesPerVault"
      "l' = appendEntry (putMember l (eSubjectDeviceID e) (memberFromEntry e)) e (eEpochAfter e)"
  | (remove) signer subject where "follows ed l e signer" "eKind e = EntryRemove"
      "map_of (lMembers l) (eSubjectDeviceID e) = Some subject" "mRemovedIndex subject = 0"
      "Epoch l \<noteq> -1" "eEpochAfter e = Epoch l + 1"
      "l' = appendEntry (putMember l (eSubjectDeviceID e) (subject\<lparr>mRemovedIndex := eIndex e\<rparr>)) e (eEpochAfter e)"
  | (key) signer where "follows ed l e signer" "eKind e = EntryKey" "eEpochAfter e = Epoch l"
      "isOk (decodeCanonical (mPackageKey signer) X25519PublicKeyBytes)"
      "l' = appendEntry (putMember l (mDeviceID signer)
         (signer\<lparr>mReplaced := mReplaced signer @ [\<lparr>changeIndex = eIndex e, changePrevious = mPackageKey signer\<rparr>],
                 mPackageKey := eSubjectPackageKey e\<rparr>)) e (eEpochAfter e)"
  | (rotate) signer where "follows ed l e signer" "eKind e = EntryRotate"
      "Epoch l \<noteq> -1" "eEpochAfter e = Epoch l + 1" "l' = appendEntry l e (eEpochAfter e)"
proof -
  from assms obtain u where v: "entryValidate e = Inr u"
    and i: "Head l \<noteq> -1" "eIndex e = Head l + 1"
    by (auto simp: Extend_def split: sum.splits if_splits)
  show ?thesis
  proof (cases "eIndex e = 1")
    case True
    with i have "Head l = 0" by simp
    with True assms v i show ?thesis
      by (intro create) (auto simp: Extend_def extendCreate_def split: if_splits sum.splits)
  next
    case False
    with assms v i obtain signer where f: "follows ed l e signer"
      by (auto simp: Extend_def follows_def split: if_splits sum.splits option.splits)
    have ext: "Extend ed l e =
      (if eKind e = EntryCreate then Inl (ErrDeviceListBroken ''only the first entry creates'')
       else if eKind e = EntryAdd then extendAdd l e
       else if eKind e = EntryRemove then extendRemove l e
       else if eKind e = EntryKey then extendKey l e signer
       else if eKind e = EntryRotate then extendRotate l e
       else Inl (ErrDeviceListBroken ''kind''))"
      using f False i by (simp add: Extend_def follows_def)
    consider "eKind e = EntryAdd" "extendAdd l e = Inr l'" | "eKind e = EntryRemove" "extendRemove l e = Inr l'"
      | "eKind e = EntryKey" "extendKey l e signer = Inr l'" | "eKind e = EntryRotate" "extendRotate l e = Inr l'"
      using assms ext by (auto split: if_splits)
    then show ?thesis
    proof cases
      case 1
      with f show ?thesis by (intro add) (auto simp: extendAdd_def split: if_splits)
    next
      case 2
      with f show ?thesis by (auto simp: extendRemove_def split: if_splits option.splits intro: remove)
    next
      case 3
      with f show ?thesis by (intro key) (auto simp: extendKey_def Let_def split: if_splits)
    next
      case 4
      with f show ?thesis by (intro rotate) (auto simp: extendRotate_def split: if_splits)
    qed
  qed
qed

section \<open>The invariant of a verified list\<close>

definition member_wf :: "u64 \<Rightarrow> string \<Rightarrow> DeviceListMember \<Rightarrow> bool" where
  "member_wf head deviceID m \<longleftrightarrow>
     mDeviceID m = deviceID \<and> opaqueID deviceID \<and>
     isOk (decodeCanonical (mSigningKey m) Ed25519PublicKeyBytes) \<and>
     0 < mAddedIndex m \<and> mAddedIndex m \<le> head \<and>
     (mRemovedIndex m = 0 \<or> mAddedIndex m < mRemovedIndex m \<and> mRemovedIndex m \<le> head) \<and>
     (\<forall>c \<in> set (mReplaced m). mAddedIndex m < changeIndex c \<and> changeIndex c \<le> head)"

definition epochs_wf :: "u64 list \<Rightarrow> bool" where
  "epochs_wf es \<longleftrightarrow>
     (es \<noteq> [] \<longrightarrow> es ! 0 = 1) \<and>
     (\<forall>i. Suc i < length es \<longrightarrow> es ! Suc i = es ! i \<or> es ! i \<noteq> -1 \<and> es ! Suc i = es ! i + 1)"

definition list_wf :: "DeviceList \<Rightarrow> bool" where
  "list_wf l \<longleftrightarrow>
     gomap_ok (lMembers l) \<and> length (lEpochs l) = length (lDigests l) \<and> length (lDigests l) < 2 ^ 64 \<and>
     (\<forall>d m. map_of (lMembers l) d = Some m \<longrightarrow> member_wf (Head l) d m) \<and>
     length (Current l) \<le> MaxDevicesPerVault \<and> epochs_wf (lEpochs l) \<and>
     (\<forall>d \<in> set (lDigests l). validDigest d) \<and> (lDigests l \<noteq> [] \<longrightarrow> opaqueID (lVaultID l)) \<and>
     (lDigests l = [] \<longrightarrow> lMembers l = [])"

lemma appendEntry_simps [simp]:
  "lVaultID (appendEntry l e ep) = lVaultID l" "lMembers (appendEntry l e ep) = lMembers l"
  "lDigests (appendEntry l e ep) = lDigests l @ [entryDigest e]" "lEpochs (appendEntry l e ep) = lEpochs l @ [ep]"
  by (simp_all add: appendEntry_def)

lemma putMember_simps [simp]:
  "lVaultID (putMember l d m) = lVaultID l" "lMembers (putMember l d m) = AList.update d m (lMembers l)"
  "lDigests (putMember l d m) = lDigests l" "lEpochs (putMember l d m) = lEpochs l"
  by (simp_all add: putMember_def)

lemma heads_append [simp]:
  "Head (appendEntry l e ep) = Head l + 1" "HeadDigest (appendEntry l e ep) = entryDigest e"
  "Epoch (appendEntry l e ep) = ep" "Head (putMember l d m) = Head l" "Head (l\<lparr>lVaultID := v\<rparr>) = Head l"
  by (simp_all add: Head_def HeadDigest_def Epoch_def add.commute)

lemma Current_appendEntry [simp]: "Current (appendEntry l e ep) = Current l"
  by (simp add: Current_def)

lemma Current_putMember_vault [simp]: "Current (putMember (l\<lparr>lVaultID := v\<rparr>) d m) = Current (putMember l d m)"
  by (simp add: Current_def)

lemma length_Current:
  "gomap_ok (lMembers l) \<Longrightarrow>
   length (Current l) = card {d. \<exists>m. map_of (lMembers l) d = Some m \<and> mRemovedIndex m = 0}"
  unfolding Current_def by (rule gomap_count)

lemma NewDeviceList_wf: "list_wf NewDeviceList"
  by (simp add: list_wf_def NewDeviceList_def epochs_wf_def Current_def)

lemma unat_Head: "list_wf l \<Longrightarrow> unat (Head l) = length (lDigests l)"
  by (simp add: list_wf_def Head_def unat_of_nat)

lemma Head_lt_next: "Head l \<noteq> -1 \<Longrightarrow> Head l < Head l + 1"
  using unat_u64_Suc [of "Head l"] by (simp add: word_less_nat_alt)

lemma member_wf_mono: "member_wf h d m \<Longrightarrow> h \<le> h' \<Longrightarrow> member_wf h' d m"
  by (auto simp: member_wf_def dest: order_trans)

lemma epochs_wf_snoc:
  assumes "epochs_wf es" "es = [] \<Longrightarrow> ep = 1"
    and "es \<noteq> [] \<Longrightarrow> ep = last es \<or> last es \<noteq> -1 \<and> ep = last es + 1"
  shows "epochs_wf (es @ [ep])"
proof (cases "es = []")
  case False
  then have "i = length es - 1 \<and> es ! i = last es" if "Suc i = length es" for i
    using that by (metis diff_Suc_1 last_conv_nth)
  with assms False show ?thesis
    unfolding epochs_wf_def by (auto simp: nth_append less_Suc_eq)
qed (use assms in \<open>simp add: epochs_wf_def\<close>)

lemma Epoch_last: "lEpochs l \<noteq> [] \<Longrightarrow> Epoch l = last (lEpochs l)"
  by (simp add: Epoch_def last_conv_nth)

text \<open>
  The members after an accepted entry: the old ones, but for the subject (create, add, remove)
  or the signer (key), whose record is well formed for the new head.
\<close>

lemma list_wf_append:
  assumes wf: "list_wf l" and h: "Head l \<noteq> -1"
    and m: "member_wf (Head l + 1) d m"
    and cur: "length (Current (putMember l d m)) \<le> MaxDevicesPerVault"
    and ep: "epochs_wf (lEpochs l @ [ep])"
    and l': "l' = appendEntry (putMember (l\<lparr>lVaultID := v\<rparr>) d m) e ep" and v: "opaqueID v"
  shows "list_wf l'"
proof -
  have len: "length (lDigests l) + 1 < 2 ^ 64"
    using wf h unat_Head [OF wf] unat_u64_lt [of "Head l"] unat_u64_max
    by (auto simp: word_unat_eq_iff)
  have "member_wf (Head l + 1) d' m'" if "map_of (lMembers l) d' = Some m'" for d' m'
    using wf that Head_lt_next [OF h] unfolding list_wf_def by (meson member_wf_mono less_imp_le)
  with wf m cur ep v len show ?thesis
    unfolding l' list_wf_def
    by (auto simp: go_simps entryDigest_def split: if_splits)
qed

lemma list_wf_same_members:
  assumes "list_wf l" "Head l \<noteq> -1" "epochs_wf (lEpochs l @ [ep])" "lDigests l \<noteq> []"
  shows "list_wf (appendEntry l e ep)"
proof -
  have len: "length (lDigests l) + 1 < 2 ^ 64"
    using assms(1,2) unat_Head [OF assms(1)] unat_u64_lt [of "Head l"] unat_u64_max
    by (auto simp: word_unat_eq_iff)
  have "member_wf (Head l + 1) d' m'" if "map_of (lMembers l) d' = Some m'" for d' m'
    using assms(1) that Head_lt_next [OF assms(2)] unfolding list_wf_def by (meson member_wf_mono less_imp_le)
  with assms len show ?thesis
    unfolding list_wf_def by (auto simp: entryDigest_def)
qed

lemma Current_putMember:
  assumes "gomap_ok (lMembers l)"
  shows "length (Current (putMember l d m)) \<le>
     length (Current l) + (if mRemovedIndex m = 0 \<and> d \<notin> {d. \<exists>m. map_of (lMembers l) d = Some m \<and> mRemovedIndex m = 0} then 1 else 0)"
proof -
  let ?S = "{d. \<exists>m. map_of (lMembers l) d = Some m \<and> mRemovedIndex m = 0}"
  have "{d'. \<exists>m'. map_of (lMembers (putMember l d m)) d' = Some m' \<and> mRemovedIndex m' = 0} \<subseteq>
      (if mRemovedIndex m = 0 then insert d ?S else ?S)"
    by (auto simp: go_simps split: if_splits)
  then have "length (Current (putMember l d m)) \<le> card (if mRemovedIndex m = 0 then insert d ?S else ?S)"
    using assms by (auto simp: length_Current intro!: card_mono)
  also have "\<dots> \<le> card ?S + (if mRemovedIndex m = 0 \<and> d \<notin> ?S then 1 else 0)"
    by (auto simp: insert_absorb)
  finally show ?thesis using assms by (simp add: length_Current)
qed

lemma followsD:
  assumes "follows ed l e signer" "list_wf l"
  shows "Head l \<noteq> -1" "eIndex e = Head l + 1" "entryValidate e = Inr ()" "lDigests l \<noteq> []"
    "lEpochs l \<noteq> []" "opaqueID (lVaultID l)" "member_wf (Head l) (eSignerDeviceID e) signer"
    "eIndex e \<noteq> 0" "eVaultID e = lVaultID l"
proof -
  have "Head l \<noteq> 0" using assms by (auto simp: follows_def)
  then have "lDigests l \<noteq> []" by (auto simp: Head_def)
  with assms show "Head l \<noteq> -1" "eIndex e = Head l + 1" "entryValidate e = Inr ()" "lDigests l \<noteq> []"
    "lEpochs l \<noteq> []" "opaqueID (lVaultID l)" "member_wf (Head l) (eSignerDeviceID e) signer"
    "eVaultID e = lVaultID l"
    by (auto simp: follows_def list_wf_def)
  show "eIndex e \<noteq> 0"
    using assms(1) entryValidateD(4) [of e "()"] by (auto simp: follows_def)
qed

lemma Extend_wf:
  assumes "Extend ed l e = Inr l'" "list_wf l"
  shows "list_wf l'"
  using assms(1)
proof (cases rule: ExtendE)
  case create
  have em: "lDigests l = []"
    using create(2) unat_Head [OF assms(2)] by simp
  with assms(2) have "lMembers l = []" "lEpochs l = []" by (auto simp: list_wf_def)
  with create em assms(2) show ?thesis
    using entryValidateD(1,3,9) [OF create(1)] entryValidateKindD(2) [of e "()"]
    by (intro list_wf_append [OF assms(2) _ _ _ _ create(8)])
      (auto simp: member_wf_def memberFromEntry_def Current_def epochs_wf_def MaxDevicesPerVault_def size_consts)
next
  case (add signer)
  note f = followsD [OF add(1) assms(2)]
  have "length (Current (putMember l (eSubjectDeviceID e) (memberFromEntry e))) \<le> MaxDevicesPerVault"
    using Current_putMember [of l "eSubjectDeviceID e" "memberFromEntry e"] add(5) assms(2)
    by (auto simp: list_wf_def split: if_splits)
  moreover have "epochs_wf (lEpochs l @ [eEpochAfter e])"
    using assms(2) f(5) add(4) by (auto simp: list_wf_def Epoch_last intro: epochs_wf_snoc)
  moreover have "member_wf (Head l + 1) (eSubjectDeviceID e) (memberFromEntry e)"
    using entryValidateD(3,9) [OF f(3)] entryValidateKindD(2) [of e "()"] add(2) f(2,8)
    by (auto simp: member_wf_def memberFromEntry_def size_consts word_gt_0)
  ultimately show ?thesis
    using f(1,6) add(6) by (intro list_wf_append [OF assms(2), where v = "lVaultID l"]) auto
next
  case (remove signer subject)
  note f = followsD [OF remove(1) assms(2)]
  let ?m = "subject\<lparr>mRemovedIndex := eIndex e\<rparr>"
  have s: "member_wf (Head l) (eSubjectDeviceID e) subject"
    using remove(3) assms(2) by (auto simp: list_wf_def)
  have "length (Current (putMember l (eSubjectDeviceID e) ?m)) \<le> MaxDevicesPerVault"
    using Current_putMember [of l "eSubjectDeviceID e" ?m] assms(2) f(8)
    by (auto simp: list_wf_def)
  moreover have "epochs_wf (lEpochs l @ [eEpochAfter e])"
    using assms(2) f(5) remove(5,6) by (auto simp: list_wf_def Epoch_last intro: epochs_wf_snoc)
  moreover have "member_wf (Head l + 1) (eSubjectDeviceID e) ?m"
    using s Head_lt_next [OF f(1)] f(2) unfolding member_wf_def by (auto dest: order_trans)
  ultimately show ?thesis
    using f(1,6) remove(7) by (intro list_wf_append [OF assms(2), where v = "lVaultID l"]) auto
next
  case (key signer)
  note f = followsD [OF key(1) assms(2)]
  let ?m = "signer\<lparr>mReplaced := mReplaced signer @ [\<lparr>changeIndex = eIndex e, changePrevious = mPackageKey signer\<rparr>],
                 mPackageKey := eSubjectPackageKey e\<rparr>"
  have id: "mDeviceID signer = eSignerDeviceID e" using f(7) by (simp add: member_wf_def)
  have "length (Current (putMember l (mDeviceID signer) ?m)) \<le> MaxDevicesPerVault"
    using Current_putMember [of l "mDeviceID signer" ?m] assms(2) key(1) id
    by (auto simp: list_wf_def follows_def split: if_splits)
  moreover have "epochs_wf (lEpochs l @ [eEpochAfter e])"
    using assms(2) f(5) key(3) by (auto simp: list_wf_def Epoch_last intro: epochs_wf_snoc)
  moreover have "member_wf (Head l + 1) (mDeviceID signer) ?m"
    using f(7) Head_lt_next [OF f(1)] f(2) id unfolding member_wf_def by (auto dest: order_trans)
  ultimately show ?thesis
    using f(1,6) key(5) by (intro list_wf_append [OF assms(2), where v = "lVaultID l"]) auto
next
  case (rotate signer)
  note f = followsD [OF rotate(1) assms(2)]
  have "epochs_wf (lEpochs l @ [eEpochAfter e])"
    using assms(2) f(5) rotate(3,4) by (auto simp: list_wf_def Epoch_last intro: epochs_wf_snoc)
  then show ?thesis
    using f rotate(5) list_wf_same_members [OF assms(2)] by simp
qed

section \<open>Runs of Extend\<close>

lemma extendAll_append:
  "extendAll ed l (xs @ ys) = (case extendAll ed l xs of Inl e \<Rightarrow> Inl e | Inr l' \<Rightarrow> extendAll ed l' ys)"
  by (induction xs arbitrary: l) (auto split: sum.splits)

lemma extendAll_snoc:
  "extendAll ed l (xs @ [x]) = Inr l' \<longleftrightarrow> (\<exists>l1. extendAll ed l xs = Inr l1 \<and> Extend ed l1 x = Inr l')"
  by (auto simp: extendAll_append split: sum.splits)

lemma extendAll_wf: "extendAll ed l es = Inr l' \<Longrightarrow> list_wf l \<Longrightarrow> list_wf l'"
  by (induction es arbitrary: l) (auto split: sum.splits dest: Extend_wf)

lemma VerifyDeviceList_snoc:
  "VerifyDeviceList ed (xs @ [x]) = Inr l' \<longleftrightarrow> (\<exists>l1. VerifyDeviceList ed xs = Inr l1 \<and> Extend ed l1 x = Inr l')"
  by (simp add: VerifyDeviceList_def extendAll_snoc)

lemma VerifyDeviceList_Nil [simp]: "VerifyDeviceList ed [] = Inr NewDeviceList"
  by (simp add: VerifyDeviceList_def)

lemma VerifyDeviceList_wf: "VerifyDeviceList ed es = Inr l \<Longrightarrow> list_wf l"
  unfolding VerifyDeviceList_def by (rule extendAll_wf [OF _ NewDeviceList_wf])

text \<open>Induction over the entries of a verified list, last entry last.\<close>

lemma verified_induct [consumes 1, case_names empty extend]:
  assumes "VerifyDeviceList ed es = Inr l"
    and "P [] NewDeviceList"
    and "\<And>es l e l'. VerifyDeviceList ed es = Inr l \<Longrightarrow> list_wf l \<Longrightarrow> P es l \<Longrightarrow> Extend ed l e = Inr l' \<Longrightarrow> P (es @ [e]) l'"
  shows "P es l"
  using assms(1)
proof (induction es arbitrary: l rule: rev_induct)
  case (snoc e es)
  then show ?case using assms(3) VerifyDeviceList_wf by (auto simp: VerifyDeviceList_snoc)
qed (use assms(2) in simp)

lemma Extend_appends:
  assumes "Extend ed l e = Inr l'" "list_wf l"
  shows "lDigests l' = lDigests l @ [entryDigest e]" "lEpochs l' = lEpochs l @ [eEpochAfter e]"
    "eVaultID e = lVaultID l'" "lDigests l \<noteq> [] \<Longrightarrow> lVaultID l' = lVaultID l"
    "eIndex e = Head l + 1" "Head l \<noteq> -1" "ePreviousDigest e = HeadDigest l" "entryValidate e = Inr ()"
proof -
  have *: "lDigests l' = lDigests l @ [entryDigest e] \<and> lEpochs l' = lEpochs l @ [eEpochAfter e] \<and>
    eVaultID e = lVaultID l' \<and> (lDigests l \<noteq> [] \<longrightarrow> lVaultID l' = lVaultID l) \<and>
    eIndex e = Head l + 1 \<and> Head l \<noteq> -1 \<and> ePreviousDigest e = HeadDigest l \<and> entryValidate e = Inr ()"
    using assms(1)
  proof (cases rule: ExtendE)
    case create
    then have "lDigests l = []" using unat_Head [OF assms(2)] by simp
    with create entryValidateD(6) [OF create(1)] show ?thesis by (auto simp: HeadDigest_def)
  qed (auto simp: follows_def)
  show "lDigests l' = lDigests l @ [entryDigest e]" "lEpochs l' = lEpochs l @ [eEpochAfter e]"
    "eVaultID e = lVaultID l'" "lDigests l \<noteq> [] \<Longrightarrow> lVaultID l' = lVaultID l"
    "eIndex e = Head l + 1" "Head l \<noteq> -1" "ePreviousDigest e = HeadDigest l" "entryValidate e = Inr ()"
    using * by auto
qed

lemma verified_columns:
  assumes "VerifyDeviceList ed es = Inr l"
  shows "lDigests l = map entryDigest es \<and> lEpochs l = map eEpochAfter es \<and>
     (\<forall>e \<in> set es. eVaultID e = lVaultID l \<and> entryValidate e = Inr ())"
  using assms
proof (induction rule: verified_induct)
  case (extend es l e l')
  note x = Extend_appends [OF extend.hyps(3,2)]
  show ?case
  proof (cases "es = []")
    case False
    with extend.IH have "lDigests l \<noteq> []" by auto
    with x extend.IH show ?thesis by auto
  qed (use x extend.IH in auto)
qed (simp add: NewDeviceList_def)

lemma verified_length: "VerifyDeviceList ed es = Inr l \<Longrightarrow> length es < 2 ^ 64 \<and> Head l = of_nat (length es)"
  using VerifyDeviceList_wf [of ed es l] verified_columns [of ed es l]
  by (auto simp: list_wf_def Head_def dest: arg_cong [of _ _ length])

lemma verified_index:
  assumes "VerifyDeviceList ed es = Inr l" "i < length es"
  shows "eIndex (es ! i) = of_nat (Suc i) \<and>
     ePreviousDigest (es ! i) = (if i = 0 then [] else entryDigest (es ! (i - 1)))"
  using assms
proof (induction arbitrary: i rule: verified_induct)
  case (extend es l e l')
  note x = Extend_appends [OF extend.hyps(3,2)]
  have d: "lDigests l = map entryDigest es" and h: "Head l = of_nat (length es)"
    using verified_columns [OF extend.hyps(1)] verified_length [OF extend.hyps(1)] by auto
  show ?case
  proof (cases "i < length es")
    case True
    with extend.IH show ?thesis by (simp add: nth_append less_imp_diff_less)
  next
    case False
    with extend.prems have i: "i = length es" by simp
    with x(5,7) h d show ?thesis by (auto simp: nth_append HeadDigest_def)
  qed
qed simp

section \<open>Epochs, identifiers and history\<close>

definition raisesEpoch :: "DeviceListEntry \<Rightarrow> bool" where
  "raisesEpoch e \<longleftrightarrow> eKind e = EntryRemove \<or> eKind e = EntryRotate"

definition joins :: "DeviceListEntry \<Rightarrow> bool" where
  "joins e \<longleftrightarrow> eKind e = EntryCreate \<or> eKind e = EntryAdd"

lemma verified_epoch:
  assumes "VerifyDeviceList ed es = Inr l"
  shows "unat (Epoch l) = (if es = [] then 0 else Suc (length (filter raisesEpoch es)))"
  using assms
proof (induction rule: verified_induct)
  case (extend es l e l')
  have ne: "es \<noteq> []" if "lDigests l \<noteq> []" using that verified_columns [OF extend.hyps(1)] by auto
  from extend.hyps(3) show ?case
  proof (cases rule: ExtendE)
    case create
    then have "lDigests l = []" using unat_Head [OF extend.hyps(2)] by simp
    then have "es = []" using verified_columns [OF extend.hyps(1)] by auto
    with create show ?thesis by (simp add: raisesEpoch_def)
  next
    case (add signer)
    with extend.IH ne followsD(4) [OF add(1) extend.hyps(2)] show ?thesis by (simp add: raisesEpoch_def)
  next
    case (remove signer subject)
    with extend.IH ne followsD(4) [OF remove(1) extend.hyps(2)] show ?thesis
      by (simp add: raisesEpoch_def unat_u64_Suc)
  next
    case (key signer)
    with extend.IH ne followsD(4) [OF key(1) extend.hyps(2)] show ?thesis by (simp add: raisesEpoch_def)
  next
    case (rotate signer)
    with extend.IH ne followsD(4) [OF rotate(1) extend.hyps(2)] show ?thesis
      by (simp add: raisesEpoch_def unat_u64_Suc)
  qed
qed (simp add: NewDeviceList_def Epoch_def)

lemma verified_subjects:
  assumes "VerifyDeviceList ed es = Inr l"
  shows "distinct (map eSubjectDeviceID (filter joins es)) \<and>
     dom (map_of (lMembers l)) = set (map eSubjectDeviceID (filter joins es))"
  using assms
proof (induction rule: verified_induct)
  case (extend es l e l')
  from extend.hyps(3) show ?case
  proof (cases rule: ExtendE)
    case create
    then have "lDigests l = []" using unat_Head [OF extend.hyps(2)] by simp
    then have "es = []" "lMembers l = []"
      using verified_columns [OF extend.hyps(1)] extend.hyps(2) by (auto simp: list_wf_def)
    with create show ?thesis by (auto simp: joins_def split: if_splits)
  next
    case (add signer)
    then have "eSubjectDeviceID e \<notin> dom (map_of (lMembers l))" "joins e" by (auto simp: joins_def)
    with add(6) extend.IH show ?thesis by (simp add: dom_update)
  next
    case (remove signer subject)
    then have "eSubjectDeviceID e \<in> dom (map_of (lMembers l))" "\<not> joins e" by (auto simp: joins_def)
    with remove(7) extend.IH show ?thesis by (simp add: dom_update insert_absorb)
  next
    case (key signer)
    have "mDeviceID signer = eSignerDeviceID e" "map_of (lMembers l) (eSignerDeviceID e) = Some signer"
      using followsD(7) [OF key(1) extend.hyps(2)] key(1) by (auto simp: member_wf_def follows_def)
    then have "mDeviceID signer \<in> dom (map_of (lMembers l))" "\<not> joins e"
      using key(2) by (auto simp: joins_def)
    with key(5) extend.IH show ?thesis by (simp add: dom_update insert_absorb)
  next
    case (rotate signer)
    with extend.IH show ?thesis by (simp add: joins_def)
  qed
qed (simp add: NewDeviceList_def)

text \<open>What a member record says of the past: everything but the two fields later entries write.\<close>

definition member_identity :: "DeviceListMember \<Rightarrow> string \<times> string \<times> string \<times> string \<times> u64" where
  "member_identity m = (mDeviceID m, mSigningKey m, mPackageKey m, mSealedLabel m, mAddedIndex m)"

lemma packageKeyAt_append:
  "packageKeyAt (cs @ [c]) index k =
     packageKeyAt cs index (if index < changeIndex c then changePrevious c else k)"
  by (induction cs) auto

lemma Extend_MemberAt:
  assumes "Extend ed l e = Inr l'" "list_wf l" "i \<le> Head l"
  shows "map_option member_identity (MemberAt l' d i) = map_option member_identity (MemberAt l d i)"
  using assms(1)
proof (cases rule: ExtendE)
  case create
  then have "lDigests l = []" using unat_Head [OF assms(2)] by simp
  then have "lMembers l = []" using assms(2) by (simp add: list_wf_def)
  with create assms(3) show ?thesis by (simp add: MemberAt_def memberAt_def memberFromEntry_def)
next
  case (add signer)
  then have "i < eIndex e"
    using assms(3) followsD(1,2) [OF add(1) assms(2)] Head_lt_next [of l] by (auto intro: le_less_trans)
  with add show ?thesis by (auto simp: MemberAt_def memberAt_def memberFromEntry_def go_simps)
next
  case (remove signer subject)
  then have "i < eIndex e"
    using assms(3) followsD(1,2) [OF remove(1) assms(2)] Head_lt_next [of l] by (auto intro: le_less_trans)
  with remove show ?thesis
    by (auto simp: MemberAt_def memberAt_def go_simps member_identity_def)
next
  case (key signer)
  then have i: "i < eIndex e"
    using assms(3) followsD(1,2) [OF key(1) assms(2)] Head_lt_next [of l] by (auto intro: le_less_trans)
  have "map_of (lMembers l) (mDeviceID signer) = Some signer"
    using followsD(7) [OF key(1) assms(2)] key(1) by (auto simp: member_wf_def follows_def)
  with key i show ?thesis
    by (auto simp: MemberAt_def memberAt_def go_simps member_identity_def packageKeyAt_append)
next
  case (rotate signer)
  then show ?thesis by (simp add: MemberAt_def)
qed

lemma Extend_history:
  assumes "Extend ed l e = Inr l'" "list_wf l" "i \<le> Head l"
  shows "DigestAt l' i = DigestAt l i" "EpochAt l' i = EpochAt l i"
proof -
  note x = Extend_appends [OF assms(1,2)]
  have len: "length (lEpochs l) = length (lDigests l)" "length (lDigests l) < 2 ^ 64"
    using assms(2) by (auto simp: list_wf_def)
  have le: "unat i \<le> length (lDigests l)"
    using assms(3) unat_Head [OF assms(2)] by (simp add: word_le_nat_alt)
  have lt: "unat (i - 1) < length (lDigests l)" if "i \<noteq> 0"
    using le unat_u64_pred [OF that] by linarith
  have "\<not> Head l < i" "\<not> Head l' < i"
    using assms(3) Head_lt_next [OF x(6)] x(1) by (auto simp: Head_def add.commute)
  with x len lt show "DigestAt l' i = DigestAt l i" "EpochAt l' i = EpochAt l i"
    by (auto simp: DigestAt_def EpochAt_def Head_def nth_append)
qed

lemma Extend_Head_mono: "Extend ed l e = Inr l' \<Longrightarrow> list_wf l \<Longrightarrow> Head l < Head l'"
  using Extend_appends(1,6) [of ed l e l'] Head_lt_next [of l] by (simp add: Head_def add.commute)

text \<open>The whole history below a verified head is the same in every list that extends it.\<close>

lemma extendAll_history:
  assumes "extendAll ed l es = Inr l'" "list_wf l" "i \<le> Head l"
  shows "DigestAt l' i = DigestAt l i \<and> EpochAt l' i = EpochAt l i \<and>
     map_option member_identity (MemberAt l' d i) = map_option member_identity (MemberAt l d i)"
  using assms
proof (induction es arbitrary: l)
  case (Cons e es)
  then obtain l1 where l1: "Extend ed l e = Inr l1" "extendAll ed l1 es = Inr l'"
    by (auto split: sum.splits)
  with Cons.prems have "list_wf l1" "i \<le> Head l1"
    by (auto intro: Extend_wf order_trans less_imp_le dest: Extend_Head_mono)
  with Cons.IH [OF l1(2)] Extend_history [OF l1(1) Cons.prems(2,3)]
    Extend_MemberAt [OF l1(1) Cons.prems(2,3)] show ?case by simp
qed simp

lemma extendAll_up:
  assumes "extendAll ed l es = Inr l'" "list_wf l"
  shows "Head l \<le> Head l' \<and> (lDigests l \<noteq> [] \<longrightarrow> lVaultID l' = lVaultID l)"
  using assms
proof (induction es arbitrary: l)
  case (Cons e es)
  then obtain l1 where l1: "Extend ed l e = Inr l1" "extendAll ed l1 es = Inr l'"
    by (auto split: sum.splits)
  note x = Extend_appends [OF l1(1) Cons.prems(2)]
  from Cons.IH [OF l1(2) Extend_wf [OF l1(1) Cons.prems(2)]] x Extend_Head_mono [OF l1(1) Cons.prems(2)]
  show ?case by auto
qed simp

section \<open>What the head digest commits to\<close>

lemma head_digest_commits:
  assumes "VerifyDeviceList ed es = Inr l" "VerifyDeviceList ed' es' = Inr l'" "HeadDigest l = HeadDigest l'"
  shows "es = es' \<or> (\<exists>e \<in> set es. \<exists>e' \<in> set es'.
     entryDigestInput e \<noteq> entryDigestInput e' \<and> Sum256 (entryDigestInput e) = Sum256 (entryDigestInput e'))"
  using assms
proof (induction es arbitrary: l es' l' rule: rev_induct)
  case Nil
  then have "HeadDigest l' = []" by (auto simp: NewDeviceList_def HeadDigest_def)
  with verified_columns [OF Nil.prems(2)] show ?case
    by (cases es' rule: rev_cases) (auto simp: HeadDigest_def entryDigest_def nth_append)
next
  case (snoc e es)
  then obtain l1 where l1: "VerifyDeviceList ed es = Inr l1" "Extend ed l1 e = Inr l"
    by (auto simp: VerifyDeviceList_snoc)
  note x = Extend_appends [OF l1(2) VerifyDeviceList_wf [OF l1(1)]]
  have hl: "HeadDigest l = entryDigest e" using x(1) by (simp add: HeadDigest_def)
  show ?case
  proof (cases es' rule: rev_cases)
    case Nil
    with snoc.prems(2,3) hl show ?thesis by (auto simp: NewDeviceList_def HeadDigest_def entryDigest_def)
  next
    case (snoc es1 e1)
    then obtain l2 where l2: "VerifyDeviceList ed' es1 = Inr l2" "Extend ed' l2 e1 = Inr l'"
      using snoc.prems(2) by (auto simp: VerifyDeviceList_snoc)
    note y = Extend_appends [OF l2(2) VerifyDeviceList_wf [OF l2(1)]]
    have "HeadDigest l' = entryDigest e1" using y(1) by (simp add: HeadDigest_def)
    with hl snoc.prems(3) have eq: "Sum256 (entryDigestInput e) = Sum256 (entryDigestInput e1)"
      by (simp add: entryDigest_def digest_def)
    show ?thesis
    proof (cases "entryDigestInput e = entryDigestInput e1")
      case True
      then have "e = e1" using entryDigestInput_inject [OF x(8) y(8)] by simp
      with x(7) y(7) snoc.IH [OF l1(1) l2(1)] show ?thesis by (auto simp: snoc)
    next
      case False
      with eq show ?thesis by (auto simp: snoc)
    qed
  qed
qed

section \<open>Who signed an entry\<close>

lemma verified_signers:
  assumes "VerifyDeviceList ed es = Inr l" "0 < i" "i < length es"
  shows "\<exists>m. MemberAt l (eSignerDeviceID (es ! i)) (of_nat i) = Some m \<and>
     verifyEntrySignature ed (es ! i) (mSigningKey m) = Inr ()"
  using assms
proof (induction arbitrary: i rule: verified_induct)
  case (extend es l e l')
  note x = Extend_appends [OF extend.hyps(3,2)]
  have h: "Head l = of_nat (length es)" "length es < 2 ^ 64"
    using verified_length [OF extend.hyps(1)] by auto
  have "\<exists>m. MemberAt l (eSignerDeviceID ((es @ [e]) ! i)) (of_nat i) = Some m \<and>
     verifyEntrySignature ed ((es @ [e]) ! i) (mSigningKey m) = Inr ()"
  proof (cases "i < length es")
    case True
    with extend.IH extend.prems show ?thesis by (simp add: nth_append)
  next
    case False
    with extend.prems have i: "i = length es" by simp
    with extend.prems h have "eIndex e \<noteq> 1" using x(5,6) u64_of_nat_eq_iff [of "length es" 0] by auto
    with extend.hyps(3) obtain signer where f: "follows ed l e signer"
      by (cases rule: ExtendE) auto
    note w = followsD(7) [OF f extend.hyps(2)]
    with f i h show ?thesis by (auto simp: MemberAt_def memberAt_def follows_def member_wf_def nth_append)
  qed
  then obtain m where m: "MemberAt l (eSignerDeviceID ((es @ [e]) ! i)) (of_nat i) = Some m"
    "verifyEntrySignature ed ((es @ [e]) ! i) (mSigningKey m) = Inr ()" by blast
  have "(of_nat i :: u64) \<le> Head l"
    using extend.prems h by (simp add: u64_of_nat_le_iff)
  from Extend_MemberAt [OF extend.hyps(3,2) this, of "eSignerDeviceID ((es @ [e]) ! i)"] m show ?case
    by (auto simp: member_identity_def)
qed simp

lemma SignDeviceListEntry_verifies:
  assumes "signs_for ed private public" "length public = Ed25519PublicKeyBytes"
  shows "verifyEntrySignature ed (SignDeviceListEntry ed private e) (EncodeToString public) = Inr ()"
proof -
  have "entrySigningPayload (SignDeviceListEntry ed private e) = entrySigningPayload e"
    by (simp add: entrySigningPayload_def entryFields_parts entryParts_def SignDeviceListEntry_def)
  with assms show ?thesis
    by (simp add: verifyEntrySignature_def signs_for_def SignDeviceListEntry_def)
qed

end
