(* ===== verification/Header.thy ===== *)
theory Header
  imports Device_List "HOL-Library.Sublist"
begin

text \<open>
  The file header.go of internal/syncproto: the signed header of one revision of a vault, its
  validation, its verification against the device list and the previous header, and the chain
  of headers.
\<close>

record Header =
  hVersion :: u64
  hVaultID :: string
  hDeviceID :: string
  hRevision :: u64
  hVaultEpoch :: u64
  hDeviceListIndex :: u64
  hDeviceListDigest :: string
  hPreviousDigest :: string
  hCiphertextDigest :: string
  hCiphertextLength :: u64
  hNonce :: string
  hSignature :: string

definition headerFields :: "Header \<Rightarrow> string \<Rightarrow> canonical" where
  "headerFields header label =
     (let c = newCanonical label;
          c = number c (hVersion header);
          c = addText c (hVaultID header);
          c = addText c (hDeviceID header);
          c = number c (hRevision header);
          c = number c (hVaultEpoch header);
          c = number c (hDeviceListIndex header);
          c = addText c (hDeviceListDigest header);
          c = addText c (hPreviousDigest header);
          c = addText c (hCiphertextDigest header);
          c = number c (hCiphertextLength header);
          c = addText c (hNonce header)
      in c)"

definition headerSigningPayload :: "Header \<Rightarrow> bytes" where
  "headerSigningPayload header = headerFields header LabelHeader"

definition headerDigestInput :: "Header \<Rightarrow> canonical" where
  "headerDigestInput header = addText (headerFields header LabelHeaderDigest) (hSignature header)"

definition headerDigest :: "Header \<Rightarrow> string" where
  "headerDigest header = digest (headerDigestInput header)"

definition headerValidate :: "Header \<Rightarrow> proto_error + unit" where
  "headerValidate header =
     (if hVersion header \<noteq> VersionV3 then Inl (ErrHeaderInvalid ''version'')
      else if \<not> opaqueID (hVaultID header) \<or> \<not> opaqueID (hDeviceID header)
      then Inl (ErrHeaderInvalid ''identifiers'')
      else if hRevision header = 0 \<or> hVaultEpoch header = 0 \<or> hDeviceListIndex header = 0
      then Inl (ErrHeaderInvalid ''revision, epoch or device list index'')
      else if (hRevision header = 1) \<noteq> (hPreviousDigest header = [])
      then Inl (ErrHeaderInvalid ''previous digest'')
      else if hPreviousDigest header \<noteq> [] \<and> \<not> validDigest (hPreviousDigest header)
      then Inl (ErrHeaderInvalid ''previous digest'')
      else if \<not> validDigest (hDeviceListDigest header) \<or> \<not> validDigest (hCiphertextDigest header)
      then Inl (ErrHeaderInvalid ''digest'')
      else if hCiphertextLength header < 16 \<or> of_nat MaxCiphertextBytes < hCiphertextLength header
      then Inl (ErrHeaderInvalid ''ciphertext length'')
      else if \<not> isOk (decodeCanonical (hNonce header) XChaChaNonceBytes)
      then Inl (ErrHeaderInvalid ''nonce'')
      else if \<not> isOk (decodeCanonical (hSignature header) Ed25519SignatureBytes)
      then Inl (ErrHeaderInvalid ''signature'')
      else Inr ())"

definition VerifyCiphertext :: "Header \<Rightarrow> bytes \<Rightarrow> proto_error + unit" where
  "VerifyCiphertext header ciphertext =
     (if of_nat (length ciphertext) \<noteq> hCiphertextLength header
      then Inl (ErrHistoryBroken ''ciphertext length'')
      else case decodeCanonical (hCiphertextDigest header) DigestBytes of
          Inl _ \<Rightarrow> Inl (ErrHistoryBroken ''ciphertext digest'')
        | Inr expected \<Rightarrow>
            if Sum256 ciphertext \<noteq> expected then Inl (ErrHistoryBroken ''ciphertext digest'')
            else Inr ())"

definition verifyLink :: "Header \<Rightarrow> Header \<Rightarrow> proto_error + unit" where
  "verifyLink previous header =
     (if checkedNext (hRevision previous) \<noteq> Some (hRevision header)
      then Inl (ErrHistoryBroken ''revision does not follow'')
      else if hPreviousDigest header \<noteq> headerDigest previous
      then Inl (ErrHistoryBroken ''previous digest'')
      else if hDeviceListIndex header < hDeviceListIndex previous \<or> hVaultEpoch header < hVaultEpoch previous
      then Inl (ErrHistoryBroken ''device list or epoch went backwards'')
      else Inr ())"

definition verifyPrevious :: "Header option \<Rightarrow> Header \<Rightarrow> proto_error + unit" where
  "verifyPrevious previous header =
     (case previous of None \<Rightarrow> Inr () | Some p \<Rightarrow> verifyLink p header)"

text \<open>A missing digest or epoch reads as the zero value of its type, as in Go.\<close>

definition VerifyHeader :: "ed25519 \<Rightarrow> DeviceList \<Rightarrow> Header option \<Rightarrow> Header \<Rightarrow> proto_error + unit" where
  "VerifyHeader ed l previous header =
     (case headerValidate header of
        Inl e \<Rightarrow> Inl e
      | Inr _ \<Rightarrow>
          if hVaultID header \<noteq> lVaultID l then Inl (ErrHistoryBroken ''vault'')
          else if Head l < hDeviceListIndex header
          then Inl (ErrHistoryBroken ''header names a device list entry this device has not verified'')
          else if (case DigestAt l (hDeviceListIndex header) of None \<Rightarrow> [] | Some d \<Rightarrow> d) \<noteq> hDeviceListDigest header
          then Inl (ErrHistoryBroken ''device list digest'')
          else if (case EpochAt l (hDeviceListIndex header) of None \<Rightarrow> 0 | Some ep \<Rightarrow> ep) \<noteq> hVaultEpoch header
          then Inl (ErrHistoryBroken ''epoch'')
          else (case verifyPrevious previous header of
              Inl e \<Rightarrow> Inl e
            | Inr _ \<Rightarrow>
                (case MemberAt l (hDeviceID header) (hDeviceListIndex header) of
                   None \<Rightarrow> Inl (ErrHistoryBroken ''signer was not a member'')
                 | Some signer \<Rightarrow>
                     (case decodeCanonical (mSigningKey signer) Ed25519PublicKeyBytes of
                        Inl _ \<Rightarrow> Inl (ErrHistoryBroken ''signer key'')
                      | Inr key \<Rightarrow>
                          (case decodeCanonical (hSignature header) Ed25519SignatureBytes of
                             Inl _ \<Rightarrow> Inl (ErrHistoryBroken ''signature'')
                           | Inr signature \<Rightarrow>
                               if \<not> edVerify ed key (headerSigningPayload header) signature
                               then Inl (ErrHistoryBroken ''signature'') else Inr ())))))"

fun VerifyHeaderChain :: "ed25519 \<Rightarrow> DeviceList \<Rightarrow> Header option \<Rightarrow> Header list \<Rightarrow> proto_error + unit" where
  "VerifyHeaderChain ed l previous [] = Inr ()"
| "VerifyHeaderChain ed l previous (header # headers) =
     (case VerifyHeader ed l previous header of
        Inl e \<Rightarrow> Inl e
      | Inr _ \<Rightarrow> VerifyHeaderChain ed l (Some header) headers)"

definition SignHeader :: "ed25519 \<Rightarrow> bytes \<Rightarrow> Header \<Rightarrow> Header" where
  "SignHeader ed key header =
     header\<lparr>hSignature := EncodeToString (edSign ed key (headerSigningPayload header))\<rparr>"

definition SnapshotAADV3 :: "Header \<Rightarrow> bytes" where
  "SnapshotAADV3 header =
     (let c = newCanonical LabelAAD;
          c = number c (hVersion header);
          c = addText c (hVaultID header);
          c = addText c (hDeviceID header);
          c = number c (hRevision header);
          c = number c (hVaultEpoch header);
          c = number c (hDeviceListIndex header);
          c = addText c (hDeviceListDigest header);
          c = addText c (hPreviousDigest header)
      in c)"

section \<open>Message forms\<close>

definition headerParts :: "Header \<Rightarrow> bytes list" where
  "headerParts h =
     [bytes_of (FormatUint (hVersion h)), bytes_of (hVaultID h), bytes_of (hDeviceID h),
      bytes_of (FormatUint (hRevision h)), bytes_of (FormatUint (hVaultEpoch h)),
      bytes_of (FormatUint (hDeviceListIndex h)), bytes_of (hDeviceListDigest h),
      bytes_of (hPreviousDigest h), bytes_of (hCiphertextDigest h),
      bytes_of (FormatUint (hCiphertextLength h)), bytes_of (hNonce h)]"

lemma headerFields_parts: "headerFields h label = encode_parts (bytes_of label # headerParts h)"
  by (simp add: headerFields_def headerParts_def canonical_simps)

lemma headerDigestInput_parts:
  "headerDigestInput h = encode_parts (bytes_of LabelHeaderDigest # headerParts h @ [bytes_of (hSignature h)])"
  by (simp add: headerDigestInput_def headerFields_parts canonical_simps)

lemma headerParts_inject: "headerParts g = headerParts h \<and> hSignature g = hSignature h \<longleftrightarrow> g = h"
  by (auto simp: headerParts_def intro: Header.equality)

interpretation header_form: message_form LabelHeader headerParts headerSigningPayload
  by unfold_locales (simp_all add: headerSigningPayload_def headerFields_parts LabelHeader_def)

interpretation header_digest_form: message_form LabelHeaderDigest
  "\<lambda>h. headerParts h @ [bytes_of (hSignature h)]" headerDigestInput
  by unfold_locales (simp_all add: headerDigestInput_parts LabelHeaderDigest_def)

interpretation aad_form: message_form LabelAAD "\<lambda>h. take 8 (headerParts h)" SnapshotAADV3
  by unfold_locales (simp_all add: SnapshotAADV3_def headerParts_def canonical_simps LabelAAD_def)

section \<open>Validated and verified headers\<close>

lemma headerValidateD:
  assumes "headerValidate h = Inr u"
  shows "hVersion h = VersionV3" "opaqueID (hVaultID h)" "opaqueID (hDeviceID h)" "hRevision h \<noteq> 0"
    "hVaultEpoch h \<noteq> 0" "hDeviceListIndex h \<noteq> 0" "hRevision h = 1 \<longleftrightarrow> hPreviousDigest h = []"
    "hPreviousDigest h \<noteq> [] \<Longrightarrow> validDigest (hPreviousDigest h)" "validDigest (hDeviceListDigest h)"
    "validDigest (hCiphertextDigest h)" "16 \<le> hCiphertextLength h"
    "hCiphertextLength h \<le> of_nat MaxCiphertextBytes"
    "\<exists>bs. hNonce h = EncodeToString bs \<and> length bs = 24"
    "\<exists>bs. hSignature h = EncodeToString bs \<and> length bs = 64"
  using assms by (auto simp: headerValidate_def size_consts not_less split: if_splits)

lemma headerValidate_fits:
  assumes "headerValidate h = Inr u"
  shows "fits (headerParts h @ [bytes_of (hSignature h)])"
proof -
  have enc: "length (EncodeToString bs) \<le> 2432" if "length bs \<le> 1216" for bs
    using length_Encode_bound [OF that] by simp
  have "length (FormatUint n) < 2 ^ 64" for n
    using length_FormatUint_le [of n] by simp
  moreover have "length (hPreviousDigest h) \<le> 64"
    using headerValidateD(8) [OF assms] validDigest_length by (cases "hPreviousDigest h = []") auto
  moreover have "length (hNonce h) \<le> 2432" "length (hSignature h) \<le> 2432"
    using headerValidateD(13,14) [OF assms] by (auto simp: enc)
  ultimately show ?thesis
    using headerValidateD(2,3,9,10) [OF assms]
    by (auto simp: headerParts_def dest!: opaqueID_length validDigest_length)
qed

lemma headerDigestInput_inject:
  "headerValidate g = Inr u \<Longrightarrow> headerValidate h = Inr v \<Longrightarrow> headerDigestInput g = headerDigestInput h \<longleftrightarrow> g = h"
  using header_digest_form.payload_binds [OF headerValidate_fits headerValidate_fits, of g u h v]
  by (auto simp: headerParts_inject [symmetric])

lemma VerifyHeaderD:
  assumes "VerifyHeader ed l previous h = Inr u"
  shows "headerValidate h = Inr ()" "hVaultID h = lVaultID l" "hDeviceListIndex h \<le> Head l"
    "(case DigestAt l (hDeviceListIndex h) of None \<Rightarrow> [] | Some d \<Rightarrow> d) = hDeviceListDigest h"
    "(case EpochAt l (hDeviceListIndex h) of None \<Rightarrow> 0 | Some ep \<Rightarrow> ep) = hVaultEpoch h"
    "verifyPrevious previous h = Inr ()"
    "\<exists>signer key signature. MemberAt l (hDeviceID h) (hDeviceListIndex h) = Some signer \<and>
       mSigningKey signer = EncodeToString key \<and> length key = 32 \<and>
       hSignature h = EncodeToString signature \<and> length signature = 64 \<and>
       edVerify ed key (headerSigningPayload h) signature"
  using assms
  by (auto simp: VerifyHeader_def decodeCanonical_iff size_consts not_less split: sum.splits if_splits option.splits)

text \<open>The verdict on a header is a function of the facts below its device list index.\<close>

lemma VerifyHeader_stable:
  assumes "VerifyHeader ed l previous h = Inr u" "list_wf l" "extendAll ed' l es = Inr l'"
  shows "VerifyHeader ed l' previous h = Inr ()"
proof -
  note v = VerifyHeaderD [OF assms(1)]
  have ne: "lDigests l \<noteq> []"
    using v(3) headerValidateD(6) [OF v(1)] by (auto simp: Head_def)
  have up: "Head l \<le> Head l' \<and> lVaultID l' = lVaultID l"
    using extendAll_up [OF assms(3,2)] ne by simp
  note hist = extendAll_history [OF assms(3,2) v(3), of "hDeviceID h"]
  obtain signer key signature where s: "MemberAt l (hDeviceID h) (hDeviceListIndex h) = Some signer"
    "mSigningKey signer = EncodeToString key" "length key = 32" "hSignature h = EncodeToString signature"
    "length signature = 64" "edVerify ed key (headerSigningPayload h) signature" using v(7) by blast
  then obtain signer' where "MemberAt l' (hDeviceID h) (hDeviceListIndex h) = Some signer'"
    "mSigningKey signer' = EncodeToString key"
    using hist by (auto simp: member_identity_def)
  with v s hist up show ?thesis
    by (auto simp: VerifyHeader_def size_consts not_less [symmetric])
qed

section \<open>Chains\<close>

lemma verifyLinkD:
  assumes "verifyLink p h = Inr u"
  shows "hRevision p \<noteq> -1" "hRevision h = hRevision p + 1" "hPreviousDigest h = headerDigest p"
    "hDeviceListIndex p \<le> hDeviceListIndex h" "hVaultEpoch p \<le> hVaultEpoch h"
  using assms by (auto simp: verifyLink_def split: if_splits)

lemma VerifyHeaderChain_append:
  "VerifyHeaderChain ed l p (xs @ ys) = Inr () \<longleftrightarrow>
     VerifyHeaderChain ed l p xs = Inr () \<and>
     VerifyHeaderChain ed l (if xs = [] then p else Some (last xs)) ys = Inr ()"
  by (induction xs arbitrary: p) (auto split: sum.splits)

lemma VerifyHeaderChain_all:
  "VerifyHeaderChain ed l p hs = Inr () \<Longrightarrow> h \<in> set hs \<Longrightarrow> \<exists>q. VerifyHeader ed l q h = Inr ()"
  by (induction hs arbitrary: p) (auto split: sum.splits)

lemma VerifyHeaderChain_links:
  assumes "VerifyHeaderChain ed l p hs = Inr ()" "Suc i < length hs"
  shows "verifyLink (hs ! i) (hs ! Suc i) = Inr ()"
  using assms
proof (induction hs arbitrary: p i)
  case (Cons h hs)
  then have c: "VerifyHeaderChain ed l (Some h) hs = Inr ()" by (auto split: sum.splits)
  show ?case
  proof (cases i)
    case 0
    with Cons.prems(2) obtain g gs where "hs = g # gs" by (cases hs) auto
    with c 0 show ?thesis by (auto simp: verifyPrevious_def split: sum.splits dest!: VerifyHeaderD(6))
  next
    case (Suc j)
    with Cons.IH [OF c, of j] Cons.prems(2) show ?thesis by simp
  qed
qed simp

lemma VerifyHeaderChain_snoc:
  "VerifyHeaderChain ed l p (xs @ [x]) = Inr () \<longleftrightarrow>
     VerifyHeaderChain ed l p xs = Inr () \<and>
     VerifyHeader ed l (if xs = [] then p else Some (last xs)) x = Inr ()"
  by (auto simp: VerifyHeaderChain_append split: sum.splits)

text \<open>The digest of the last header commits to the chain as far back as both chains go.\<close>

lemma header_chain_commits:
  assumes "VerifyHeaderChain ed l p gs = Inr ()" "VerifyHeaderChain ed' l' q hs = Inr ()"
    and "gs \<noteq> []" "hs \<noteq> []" "headerDigest (last gs) = headerDigest (last hs)"
  shows "suffix gs hs \<or> suffix hs gs \<or> (\<exists>g \<in> set gs. \<exists>h \<in> set hs.
     headerDigestInput g \<noteq> headerDigestInput h \<and> Sum256 (headerDigestInput g) = Sum256 (headerDigestInput h))"
  using assms
proof (induction gs arbitrary: hs rule: rev_induct)
  case (snoc g gs)
  then obtain h hs1 where hs: "hs = hs1 @ [h]" by (cases hs rule: rev_cases) auto
  have g: "VerifyHeader ed l (if gs = [] then p else Some (last gs)) g = Inr ()"
    and h: "VerifyHeader ed' l' (if hs1 = [] then q else Some (last hs1)) h = Inr ()"
    and cg: "VerifyHeaderChain ed l p gs = Inr ()" and ch: "VerifyHeaderChain ed' l' q hs1 = Inr ()"
    using snoc.prems(1,2) by (auto simp: hs VerifyHeaderChain_snoc)
  have eq: "Sum256 (headerDigestInput g) = Sum256 (headerDigestInput h)"
    using snoc.prems(5) by (simp add: hs headerDigest_def digest_def)
  show ?case
  proof (cases "headerDigestInput g = headerDigestInput h")
    case False
    with eq show ?thesis by (auto simp: hs)
  next
    case True
    then have gh: "g = h"
      using headerDigestInput_inject [OF VerifyHeaderD(1) [OF g] VerifyHeaderD(1) [OF h]] by simp
    show ?thesis
    proof (cases "gs = [] \<or> hs1 = []")
      case True
      with gh show ?thesis by (auto simp: hs suffix_def)
    next
      case False
      then have "headerDigest (last gs) = headerDigest (last hs1)"
        using VerifyHeaderD(6) [OF g] VerifyHeaderD(6) [OF h] gh
        by (auto simp: verifyPrevious_def dest!: verifyLinkD(3))
      with snoc.IH [OF cg ch] False gh show ?thesis by (auto simp: hs)
    qed
  qed
qed simp

lemma SignHeader_verifies:
  assumes "signs_for ed private public" "length public = 32"
    and "headerValidate (SignHeader ed private h) = Inr ()"
    and "hVaultID h = lVaultID l" "hDeviceListIndex h \<le> Head l"
    and "DigestAt l (hDeviceListIndex h) = Some (hDeviceListDigest h)"
    and "EpochAt l (hDeviceListIndex h) = Some (hVaultEpoch h)"
    and "MemberAt l (hDeviceID h) (hDeviceListIndex h) = Some signer"
    and "mSigningKey signer = EncodeToString public"
    and "verifyPrevious previous (SignHeader ed private h) = Inr ()"
  shows "VerifyHeader ed l previous (SignHeader ed private h) = Inr ()"
proof -
  have p: "headerSigningPayload (SignHeader ed private h) = headerSigningPayload h"
    by (simp add: headerSigningPayload_def headerFields_parts headerParts_def SignHeader_def)
  have f: "hVaultID (SignHeader ed private h) = hVaultID h" "hDeviceID (SignHeader ed private h) = hDeviceID h"
    "hDeviceListIndex (SignHeader ed private h) = hDeviceListIndex h"
    "hDeviceListDigest (SignHeader ed private h) = hDeviceListDigest h"
    "hVaultEpoch (SignHeader ed private h) = hVaultEpoch h"
    "hSignature (SignHeader ed private h) = EncodeToString (edSign ed private (headerSigningPayload h))"
    by (simp_all add: SignHeader_def)
  have s: "length (edSign ed private m) = 64" "edVerify ed public m (edSign ed private m)" for m
    using assms(1) by (auto simp: signs_for_def size_consts)
  show ?thesis
    using assms(2-) by (simp add: VerifyHeader_def p f s size_consts not_less)
qed

end
