(* ===== verification/Request.thy ===== *)
theory Request
  imports Header
begin

text \<open>
  The file request.go of internal/syncproto: the signature over an HTTP request with its
  freshness window, the receipt the service signs for an accepted revision, and the key
  package one device sends another.
\<close>

section \<open>Request signatures\<close>

record RequestSignature =
  rsMethod :: string
  rsTarget :: string
  rsBody :: bytes
  rsToken :: string
  rsTimestamp :: u64
  rsNonce :: string

definition requestSigningPayload :: "RequestSignature \<Rightarrow> bytes" where
  "requestSigningPayload request =
     (let body = Sum256 (rsBody request);
          token = Sum256 (bytes_of (rsToken request));
          c = newCanonical LabelRequest;
          c = addText c (rsMethod request);
          c = addText c (rsTarget request);
          c = add c body;
          c = add c token;
          c = number c (rsTimestamp request);
          c = addText c (rsNonce request)
      in c)"

definition withinSkew :: "u64 \<Rightarrow> u64 \<Rightarrow> bool" where
  "withinSkew timestamp now =
     (if now < timestamp then timestamp - now \<le> RequestTimestampSkew
      else now - timestamp \<le> RequestTimestampSkew)"

definition requestVerify :: "ed25519 \<Rightarrow> RequestSignature \<Rightarrow> string \<Rightarrow> string \<Rightarrow> u64 \<Rightarrow> proto_error + unit" where
  "requestVerify ed request encodedKey encodedSignature now =
     (if \<not> isOk (decodeCanonical (rsNonce request) RequestNonceBytes) then Inl ErrRequestSignature
      else if \<not> withinSkew (rsTimestamp request) now then Inl ErrRequestSignature
      else case decodeCanonical encodedKey Ed25519PublicKeyBytes of
          Inl _ \<Rightarrow> Inl ErrRequestSignature
        | Inr key \<Rightarrow>
            (case decodeCanonical encodedSignature Ed25519SignatureBytes of
               Inl _ \<Rightarrow> Inl ErrRequestSignature
             | Inr signature \<Rightarrow>
                 if \<not> edVerify ed key (requestSigningPayload request) signature
                 then Inl ErrRequestSignature else Inr ()))"

section \<open>Receipts\<close>

record ReceiptV3 =
  rcVaultID :: string
  rcRevision :: u64
  rcHeaderDigest :: string
  rcVaultEpoch :: u64
  rcAcceptedAt :: u64

definition receiptSigningPayload :: "ReceiptV3 \<Rightarrow> bytes" where
  "receiptSigningPayload receipt =
     (let c = newCanonical LabelReceipt;
          c = addText c (rcVaultID receipt);
          c = number c (rcRevision receipt);
          c = addText c (rcHeaderDigest receipt);
          c = number c (rcVaultEpoch receipt);
          c = number c (rcAcceptedAt receipt)
      in c)"

definition receiptSign :: "ed25519 \<Rightarrow> bytes \<Rightarrow> ReceiptV3 \<Rightarrow> bytes" where
  "receiptSign ed key receipt = edSign ed key (receiptSigningPayload receipt)"

definition receiptVerify :: "ed25519 \<Rightarrow> bytes \<Rightarrow> ReceiptV3 \<Rightarrow> bytes \<Rightarrow> bool" where
  "receiptVerify ed key receipt signature \<longleftrightarrow>
     length signature = Ed25519SignatureBytes \<and> edVerify ed key (receiptSigningPayload receipt) signature"

section \<open>Key packages\<close>

definition LabelKeyPackage :: string where "LabelKeyPackage = ''sesame-sync-v3-keypackage''"

record KeyPackageV3 =
  pVaultID :: string
  pSenderDeviceID :: string
  pRecipientDeviceID :: string
  pVaultEpoch :: u64
  pEntryDigest :: string
  pCiphertext :: string
  pSignature :: string

definition packageSigningPayload :: "KeyPackageV3 \<Rightarrow> bytes" where
  "packageSigningPayload pkg =
     (let c = newCanonical LabelKeyPackage;
          c = addText c (pVaultID pkg);
          c = addText c (pSenderDeviceID pkg);
          c = addText c (pRecipientDeviceID pkg);
          c = number c (pVaultEpoch pkg);
          c = addText c (pEntryDigest pkg);
          c = addText c (pCiphertext pkg)
      in c)"

definition packageValidate :: "KeyPackageV3 \<Rightarrow> proto_error + unit" where
  "packageValidate pkg =
     (if \<not> opaqueID (pVaultID pkg) \<or> \<not> opaqueID (pSenderDeviceID pkg) \<or> \<not> opaqueID (pRecipientDeviceID pkg)
      then Inl (ErrKeyPackage ''sync key package is invalid'')
      else if pVaultEpoch pkg = 0 \<or> \<not> validDigest (pEntryDigest pkg)
      then Inl (ErrKeyPackage ''sync key package is invalid'')
      else if \<not> isOk (decodeCanonicalRange (pCiphertext pkg) 16 MaxEncryptedKeyPackageBytes)
      then Inl (ErrKeyPackage ''sync key package is invalid'')
      else if \<not> isOk (decodeCanonical (pSignature pkg) Ed25519SignatureBytes)
      then Inl (ErrKeyPackage ''sync key package is invalid'')
      else Inr ())"

definition packageVerify :: "ed25519 \<Rightarrow> KeyPackageV3 \<Rightarrow> string \<Rightarrow> proto_error + unit" where
  "packageVerify ed pkg encodedKey =
     (case packageValidate pkg of
        Inl e \<Rightarrow> Inl e
      | Inr _ \<Rightarrow>
          (case decodeCanonical encodedKey Ed25519PublicKeyBytes of
             Inl _ \<Rightarrow> Inl (ErrKeyPackage ''sync key package is invalid'')
           | Inr key \<Rightarrow>
               (case decodeCanonical (pSignature pkg) Ed25519SignatureBytes of
                  Inl _ \<Rightarrow> Inl (ErrKeyPackage ''sync key package signature is invalid'')
                | Inr signature \<Rightarrow>
                    if \<not> edVerify ed key (packageSigningPayload pkg) signature
                    then Inl (ErrKeyPackage ''sync key package signature is invalid'') else Inr ())))"

definition packageDigestInput :: "KeyPackageV3 \<Rightarrow> canonical" where
  "packageDigestInput pkg =
     (let c = newCanonical (LabelKeyPackage @ ''-digest'');
          c = addText c (pVaultID pkg);
          c = addText c (pSenderDeviceID pkg);
          c = addText c (pRecipientDeviceID pkg);
          c = number c (pVaultEpoch pkg);
          c = addText c (pEntryDigest pkg);
          c = addText c (pCiphertext pkg);
          c = addText c (pSignature pkg)
      in c)"

definition packageDigest :: "KeyPackageV3 \<Rightarrow> string" where
  "packageDigest pkg = digest (packageDigestInput pkg)"

section \<open>Lemmas\<close>

definition requestParts :: "RequestSignature \<Rightarrow> bytes list" where
  "requestParts r =
     [bytes_of (rsMethod r), bytes_of (rsTarget r), Sum256 (rsBody r), Sum256 (bytes_of (rsToken r)),
      bytes_of (FormatUint (rsTimestamp r)), bytes_of (rsNonce r)]"

definition receiptParts :: "ReceiptV3 \<Rightarrow> bytes list" where
  "receiptParts r =
     [bytes_of (rcVaultID r), bytes_of (FormatUint (rcRevision r)), bytes_of (rcHeaderDigest r),
      bytes_of (FormatUint (rcVaultEpoch r)), bytes_of (FormatUint (rcAcceptedAt r))]"

definition packageParts :: "KeyPackageV3 \<Rightarrow> bytes list" where
  "packageParts p =
     [bytes_of (pVaultID p), bytes_of (pSenderDeviceID p), bytes_of (pRecipientDeviceID p),
      bytes_of (FormatUint (pVaultEpoch p)), bytes_of (pEntryDigest p), bytes_of (pCiphertext p)]"

interpretation request_form: message_form LabelRequest requestParts requestSigningPayload
  by unfold_locales (simp_all add: requestSigningPayload_def requestParts_def canonical_simps LabelRequest_def)

interpretation receipt_form: message_form LabelReceipt receiptParts receiptSigningPayload
  by unfold_locales (simp_all add: receiptSigningPayload_def receiptParts_def canonical_simps LabelReceipt_def)

interpretation package_form: message_form LabelKeyPackage packageParts packageSigningPayload
  by unfold_locales (simp_all add: packageSigningPayload_def packageParts_def canonical_simps LabelKeyPackage_def)

interpretation package_digest_form: message_form "LabelKeyPackage @ ''-digest''"
  "\<lambda>p. packageParts p @ [bytes_of (pSignature p)]" packageDigestInput
  by unfold_locales (simp_all add: packageDigestInput_def packageParts_def canonical_simps LabelKeyPackage_def)

text \<open>The skew test is the distance of the two times, without wrap-around.\<close>

lemma unat_u64_diff: "b \<le> a \<Longrightarrow> unat (a - b :: u64) = unat a - unat b"
  by (simp add: unat_sub)

lemma withinSkew_iff:
  "withinSkew t now \<longleftrightarrow> unat t \<le> unat now + 300 \<and> unat now \<le> unat t + 300"
proof (cases "now < t")
  case True
  then have "unat (t - now) = unat t - unat now" "unat now < unat t"
    by (simp_all add: unat_u64_diff less_imp_le word_less_nat_alt [symmetric])
  with True show ?thesis
    by (auto simp: withinSkew_def RequestTimestampSkew_def word_le_nat_alt)
next
  case False
  then have "unat (now - t) = unat now - unat t" "unat t \<le> unat now"
    by (simp_all add: unat_u64_diff word_le_nat_alt not_less)
  with False show ?thesis
    by (auto simp: withinSkew_def RequestTimestampSkew_def word_le_nat_alt)
qed

lemma requestVerifyD:
  assumes "requestVerify ed r k s now = Inr u"
  shows "withinSkew (rsTimestamp r) now" "\<exists>n. rsNonce r = EncodeToString n \<and> length n = 16"
    "\<exists>key signature. k = EncodeToString key \<and> length key = 32 \<and> s = EncodeToString signature \<and>
       length signature = 64 \<and> edVerify ed key (requestSigningPayload r) signature"
  using assms
  by (auto simp: requestVerify_def decodeCanonical_iff size_consts split: if_splits sum.splits)

lemma packageVerifyD:
  assumes "packageVerify ed p k = Inr u"
  shows "opaqueID (pVaultID p)" "opaqueID (pSenderDeviceID p)" "opaqueID (pRecipientDeviceID p)"
    "pVaultEpoch p \<noteq> 0"
    "\<exists>key signature. k = EncodeToString key \<and> length key = 32 \<and> pSignature p = EncodeToString signature \<and>
       length signature = 64 \<and> edVerify ed key (packageSigningPayload p) signature"
  using assms
  by (auto simp: packageVerify_def packageValidate_def decodeCanonical_iff size_consts split: if_splits sum.splits)

lemma receipt_round_trip:
  "signs_for ed private public \<Longrightarrow> receiptVerify ed public r (receiptSign ed private r)"
  by (simp add: receiptVerify_def receiptSign_def signs_for_def)

end
