(* ===== verification/Checkpoint.thy ===== *)
theory Checkpoint
  imports Request
begin

text \<open>
  The file checkpoint.go of internal/syncproto: a device's signed statement of the device list
  head and the header head it has seen.
\<close>

definition LabelCheckpoint :: string where "LabelCheckpoint = ''sesame-sync-v3-checkpoint''"

record Checkpoint =
  cVersion :: u64
  cVaultID :: string
  cDeviceID :: string
  cDeviceListIndex :: u64
  cDeviceListDigest :: string
  cHeaderRevision :: u64
  cHeaderDigest :: string
  cObservedAt :: u64
  cSignature :: string

definition checkpointSigningPayload :: "Checkpoint \<Rightarrow> bytes" where
  "checkpointSigningPayload checkpoint =
     (let c = newCanonical LabelCheckpoint;
          c = number c (cVersion checkpoint);
          c = addText c (cVaultID checkpoint);
          c = addText c (cDeviceID checkpoint);
          c = number c (cDeviceListIndex checkpoint);
          c = addText c (cDeviceListDigest checkpoint);
          c = number c (cHeaderRevision checkpoint);
          c = addText c (cHeaderDigest checkpoint);
          c = number c (cObservedAt checkpoint)
      in c)"

definition checkpointValidate :: "Checkpoint \<Rightarrow> proto_error + unit" where
  "checkpointValidate checkpoint =
     (if cVersion checkpoint \<noteq> VersionV3 then Inl (ErrCheckpointInvalid ''version'')
      else if \<not> opaqueID (cVaultID checkpoint) \<or> \<not> opaqueID (cDeviceID checkpoint)
      then Inl (ErrCheckpointInvalid ''identifiers'')
      else if cDeviceListIndex checkpoint = 0 \<or> \<not> validDigest (cDeviceListDigest checkpoint)
      then Inl (ErrCheckpointInvalid ''device list head'')
      else if (cHeaderRevision checkpoint = 0) \<noteq> (cHeaderDigest checkpoint = [])
      then Inl (ErrCheckpointInvalid ''header head'')
      else if cHeaderDigest checkpoint \<noteq> [] \<and> \<not> validDigest (cHeaderDigest checkpoint)
      then Inl (ErrCheckpointInvalid ''header head'')
      else if cObservedAt checkpoint = 0 then Inl (ErrCheckpointInvalid ''time'')
      else if \<not> isOk (decodeCanonical (cSignature checkpoint) Ed25519SignatureBytes)
      then Inl (ErrCheckpointInvalid ''signature'')
      else Inr ())"

definition checkpointVerify :: "ed25519 \<Rightarrow> Checkpoint \<Rightarrow> string \<Rightarrow> proto_error + unit" where
  "checkpointVerify ed checkpoint encodedKey =
     (case checkpointValidate checkpoint of
        Inl e \<Rightarrow> Inl e
      | Inr _ \<Rightarrow>
          (case decodeCanonical encodedKey Ed25519PublicKeyBytes of
             Inl _ \<Rightarrow> Inl (ErrCheckpointInvalid ''signer key'')
           | Inr key \<Rightarrow>
               (case decodeCanonical (cSignature checkpoint) Ed25519SignatureBytes of
                  Inl _ \<Rightarrow> Inl (ErrCheckpointInvalid ''signature'')
                | Inr signature \<Rightarrow>
                    if \<not> edVerify ed key (checkpointSigningPayload checkpoint) signature
                    then Inl (ErrCheckpointInvalid ''signature'') else Inr ())))"

definition VerifyAgainst :: "ed25519 \<Rightarrow> Checkpoint \<Rightarrow> DeviceList \<Rightarrow> proto_error + unit" where
  "VerifyAgainst ed checkpoint l =
     (case checkpointValidate checkpoint of
        Inl e \<Rightarrow> Inl e
      | Inr _ \<Rightarrow>
          if cVaultID checkpoint \<noteq> lVaultID l then Inl (ErrCheckpointInvalid ''vault'')
          else if Head l < cDeviceListIndex checkpoint
          then Inl (ErrHistoryBroken ''names a device list entry this device has not verified'')
          else if (case DigestAt l (cDeviceListIndex checkpoint) of None \<Rightarrow> [] | Some d \<Rightarrow> d)
                    \<noteq> cDeviceListDigest checkpoint
          then Inl (ErrHistoryBroken ''device list digest'')
          else (case MemberAt l (cDeviceID checkpoint) (cDeviceListIndex checkpoint) of
              None \<Rightarrow> Inl (ErrCheckpointInvalid ''signer was not a member'')
            | Some signer \<Rightarrow> checkpointVerify ed checkpoint (mSigningKey signer)))"

definition SignCheckpoint :: "ed25519 \<Rightarrow> bytes \<Rightarrow> Checkpoint \<Rightarrow> Checkpoint" where
  "SignCheckpoint ed key checkpoint =
     checkpoint\<lparr>cSignature := EncodeToString (edSign ed key (checkpointSigningPayload checkpoint))\<rparr>"

definition WithinRequestSkew :: "u64 \<Rightarrow> u64 \<Rightarrow> bool" where
  "WithinRequestSkew timestamp now = withinSkew timestamp now"

section \<open>Lemmas\<close>

definition checkpointParts :: "Checkpoint \<Rightarrow> bytes list" where
  "checkpointParts c =
     [bytes_of (FormatUint (cVersion c)), bytes_of (cVaultID c), bytes_of (cDeviceID c),
      bytes_of (FormatUint (cDeviceListIndex c)), bytes_of (cDeviceListDigest c),
      bytes_of (FormatUint (cHeaderRevision c)), bytes_of (cHeaderDigest c), bytes_of (FormatUint (cObservedAt c))]"

interpretation checkpoint_form: message_form LabelCheckpoint checkpointParts checkpointSigningPayload
  by unfold_locales (simp_all add: checkpointSigningPayload_def checkpointParts_def canonical_simps LabelCheckpoint_def)

lemma checkpointVerifyD:
  assumes "checkpointVerify ed c k = Inr u"
  shows "opaqueID (cVaultID c)" "opaqueID (cDeviceID c)" "cDeviceListIndex c \<noteq> 0" "cObservedAt c \<noteq> 0"
    "\<exists>key signature. k = EncodeToString key \<and> length key = 32 \<and> cSignature c = EncodeToString signature \<and>
       length signature = 64 \<and> edVerify ed key (checkpointSigningPayload c) signature"
  using assms
  by (auto simp: checkpointVerify_def checkpointValidate_def decodeCanonical_iff size_consts split: if_splits sum.splits)

lemma VerifyAgainst_stable:
  assumes "VerifyAgainst ed c l = Inr u" "list_wf l" "extendAll ed' l es = Inr l'"
  shows "VerifyAgainst ed c l' = Inr ()"
proof -
  have i: "cDeviceListIndex c \<le> Head l" "cDeviceListIndex c \<noteq> 0"
    using assms(1) by (auto simp: VerifyAgainst_def checkpointValidate_def not_less split: sum.splits if_splits)
  then have "lDigests l \<noteq> []" by (auto simp: Head_def)
  then have up: "Head l \<le> Head l'" "lVaultID l' = lVaultID l"
    using extendAll_up [OF assms(3,2)] by auto
  note hist = extendAll_history [OF assms(3,2) i(1), of "cDeviceID c"]
  with assms(1) up i show ?thesis
    by (auto simp: VerifyAgainst_def member_identity_def split: sum.splits if_splits option.splits)
qed

end
