(* ===== verification/Sync_Types.thy ===== *)
theory Sync_Types
  imports Checkpoint
begin

text \<open>
  The file types.go of internal/syncsvc: the errors, the stored records, and the interface
  \<open>Tx\<close> through which the service reads and writes a store.  A store with state type \<open>'s\<close> is a
  record of functions, as a Go interface value is a table of methods.  Reads are functions of
  the state; writes return the new state or an error.  The locale \<open>sync_tx\<close> is the contract of
  the interface: what each operation does to the view of the store, and the invariant the
  store keeps.
\<close>

section \<open>Errors and constants\<close>

text \<open>
  The sentinel errors; \<open>ErrInvalidProto\<close> and \<open>ErrInvalidText\<close> are the values that wrap
  \<open>ErrInvalid\<close> with a protocol error or a text, \<open>ErrStoredList\<close> the wrapped error of \<open>loadList\<close>,
  \<open>ErrStorage\<close> an error of the storage engine.  \<open>Diverges\<close> marks a loop that has not returned
  within its fuel; it is proved never to be returned.
\<close>

datatype svc_error =
    ErrNotFound
  | ErrConflict
  | ErrForbidden
  | ErrInvalid
  | ErrInvalidProto proto_error
  | ErrInvalidText string
  | ErrSignature
  | ErrReplay
  | ErrQuota
  | ErrNoVault
  | ErrVaultExists
  | ErrNotActivated
  | ErrStoredList proto_error
  | ErrStorage string
  | Diverges

definition DevicePending :: string where "DevicePending = ''pending''"
definition DeviceApproved :: string where "DeviceApproved = ''approved''"
definition DeviceRevoked :: string where "DeviceRevoked = ''revoked''"
definition PairingOffered :: string where "PairingOffered = ''offered''"
definition PairingAnswered :: string where "PairingAnswered = ''answered''"
definition PairingConfirmed :: string where "PairingConfirmed = ''confirmed''"
definition MaxPairingMessageBytes :: nat where "MaxPairingMessageBytes = 512"
definition second :: int where "second = 1000000000"
definition PairingLifetime :: int where "PairingLifetime = 10 * 60 * second"
definition MaxPendingPairings :: nat where "MaxPendingPairings = 3"
definition MaxHeadersPerPage :: int where "MaxHeadersPerPage = 500"
definition MaxEntriesPerPage :: int where "MaxEntriesPerPage = 500"

lemma device_states_distinct [simp]:
  "DevicePending \<noteq> DeviceApproved" "DevicePending \<noteq> DeviceRevoked" "DeviceApproved \<noteq> DevicePending"
  "DeviceApproved \<noteq> DeviceRevoked" "DeviceRevoked \<noteq> DevicePending" "DeviceRevoked \<noteq> DeviceApproved"
  by (simp_all add: DevicePending_def DeviceApproved_def DeviceRevoked_def)

lemma pairing_states_distinct [simp]:
  "PairingOffered \<noteq> PairingAnswered" "PairingOffered \<noteq> PairingConfirmed" "PairingAnswered \<noteq> PairingOffered"
  "PairingAnswered \<noteq> PairingConfirmed" "PairingConfirmed \<noteq> PairingOffered" "PairingConfirmed \<noteq> PairingAnswered"
  by (simp_all add: PairingOffered_def PairingAnswered_def PairingConfirmed_def)

section \<open>Records\<close>

record Caller =
  caOwnerKey :: string
  caTokenDeviceID :: string
  caToken :: string

record Vault =
  vID :: string
  vOwnerKey :: string
  vCurrentRevision :: u64
  vHeadIndex :: u64
  vEpoch :: u64
  vCreatedAt :: gotime
  vUpdatedAt :: gotime

record Device =
  dVaultID :: string
  dDeviceID :: string
  dTokenDeviceID :: string
  dSigningKey :: string
  dPackageKey :: string
  dState :: string
  dAddedIndex :: u64
  dActivatedEpoch :: u64
  dCreatedAt :: gotime

record Pairing =
  gVaultID :: string
  gDeviceID :: string
  gTokenDeviceID :: string
  gSigningKey :: string
  gPackageKey :: string
  gOffer :: bytes
  gAnswer :: bytes
  gConfirm :: bytes
  gState :: string
  gExpiresAt :: gotime
  gCreatedAt :: gotime

record KeyPackage =
  kPackage :: KeyPackageV3
  kCreatedAt :: gotime

record StoredHeader =
  shHeader :: Header
  shDigest :: string
  shReceipt :: string
  shAcceptedAt :: gotime

record StoredCheckpoint =
  scCheckpoint :: Checkpoint
  scAcceptedAt :: gotime

record Actor =
  aVault :: Vault
  aDevice :: Device
  aPairing :: "Pairing option"

record SignedRequest =
  rqMethod :: string
  rqTarget :: string
  rqBody :: bytes
  rqTimestamp :: u64
  rqNonce :: string
  rqSignature :: string

section \<open>The storage interface\<close>

record 's Tx =
  txVaultByOwner :: "string \<Rightarrow> 's \<Rightarrow> svc_error + Vault"
  txVaultByID :: "string \<Rightarrow> 's \<Rightarrow> svc_error + Vault"
  txInsertVault :: "Vault \<Rightarrow> 's \<Rightarrow> svc_error + 's"
  txUpdateVault :: "Vault \<Rightarrow> 's \<Rightarrow> svc_error + 's"
  txDeleteVault :: "string \<Rightarrow> 's \<Rightarrow> svc_error + 's"
  txDevices :: "string \<Rightarrow> 's \<Rightarrow> svc_error + Device list"
  txDevice :: "string \<Rightarrow> string \<Rightarrow> 's \<Rightarrow> svc_error + Device"
  txDeviceByToken :: "string \<Rightarrow> string \<Rightarrow> 's \<Rightarrow> svc_error + Device"
  txPutDevice :: "Device \<Rightarrow> 's \<Rightarrow> svc_error + 's"
  txDeviceListEntries :: "string \<Rightarrow> u64 \<Rightarrow> int \<Rightarrow> 's \<Rightarrow> svc_error + DeviceListEntry list"
  txAppendDeviceListEntry :: "DeviceListEntry \<Rightarrow> 's \<Rightarrow> svc_error + 's"
  txPutKeyPackage :: "KeyPackage \<Rightarrow> 's \<Rightarrow> svc_error + 's"
  txKeyPackage :: "string \<Rightarrow> string \<Rightarrow> 's \<Rightarrow> svc_error + KeyPackage"
  txDeleteKeyPackages :: "string \<Rightarrow> 's \<Rightarrow> svc_error + 's"
  txInsertHeader :: "StoredHeader \<Rightarrow> 's \<Rightarrow> svc_error + 's"
  txHeaders :: "string \<Rightarrow> u64 \<Rightarrow> int \<Rightarrow> 's \<Rightarrow> svc_error + StoredHeader list"
  txHeader :: "string \<Rightarrow> u64 \<Rightarrow> 's \<Rightarrow> svc_error + StoredHeader"
  txLatestHeader :: "string \<Rightarrow> 's \<Rightarrow> svc_error + StoredHeader"
  txPruneHeaders :: "string \<Rightarrow> u64 \<Rightarrow> 's \<Rightarrow> svc_error + 's"
  txPutCiphertext :: "string \<Rightarrow> u64 \<Rightarrow> bytes \<Rightarrow> 's \<Rightarrow> svc_error + 's"
  txCiphertext :: "string \<Rightarrow> u64 \<Rightarrow> 's \<Rightarrow> svc_error + bytes"
  txCiphertextBytes :: "string \<Rightarrow> 's \<Rightarrow> svc_error + int"
  txOldestCiphertext :: "string \<Rightarrow> 's \<Rightarrow> svc_error + u64 \<times> int"
  txDeleteCiphertext :: "string \<Rightarrow> u64 \<Rightarrow> 's \<Rightarrow> svc_error + 's"
  txDeleteCiphertextsBefore :: "string \<Rightarrow> u64 \<Rightarrow> 's \<Rightarrow> svc_error + 's"
  txPutCheckpoint :: "StoredCheckpoint \<Rightarrow> 's \<Rightarrow> svc_error + 's"
  txCheckpoint :: "string \<Rightarrow> string \<Rightarrow> 's \<Rightarrow> svc_error + StoredCheckpoint"
  txCheckpoints :: "string \<Rightarrow> 's \<Rightarrow> svc_error + StoredCheckpoint list"
  txDeleteCheckpoint :: "string \<Rightarrow> string \<Rightarrow> 's \<Rightarrow> svc_error + 's"
  txPutPairing :: "Pairing \<Rightarrow> 's \<Rightarrow> svc_error + 's"
  txPairing :: "string \<Rightarrow> string \<Rightarrow> 's \<Rightarrow> svc_error + Pairing"
  txPairingByToken :: "string \<Rightarrow> string \<Rightarrow> 's \<Rightarrow> svc_error + Pairing"
  txPairings :: "string \<Rightarrow> 's \<Rightarrow> svc_error + Pairing list"
  txDeletePairing :: "string \<Rightarrow> string \<Rightarrow> 's \<Rightarrow> svc_error + 's"
  txRecordNonce :: "string \<Rightarrow> string \<Rightarrow> gotime \<Rightarrow> gotime \<Rightarrow> 's \<Rightarrow> svc_error + bool \<times> 's"
  txPurgeExpired :: "gotime \<Rightarrow> 's \<Rightarrow> svc_error + 's"

text \<open>
  The interface \<open>Storage\<close>: \<open>Update\<close> runs the function in a transaction that is kept when the
  function returns no error and discarded when it returns one, \<open>View\<close> runs it to read.  The
  error type is a parameter, because the closures the service passes also carry out of the
  transaction what they have assigned to variables of the caller.
\<close>

definition storeUpdate :: "('s, 'e, 'a) txm \<Rightarrow> ('s, 'e, 'a) txm" where
  "storeUpdate fn s = (case fn s of (Inl e, _) \<Rightarrow> (Inl e, s) | (Inr x, s') \<Rightarrow> (Inr x, s'))"

definition storeView :: "('s, 'e, 'a) txm \<Rightarrow> ('s, 'e, 'a) txm" where
  "storeView fn s = (fst (fn s), s)"

end
