(* ===== verification/Tx_Contract.thy ===== *)
theory Tx_Contract
  imports Sync_Types
begin

text \<open>
  The contract of the storage interface \<open>Tx\<close> (types.go), one locale per group of methods.  A
  store is described by its \<open>view\<close>, the tables it holds as functions, and by an invariant \<open>inv\<close>
  that every method keeps.  The read laws say what a successful read or an \<open>ErrNotFound\<close> means;
  the write laws give the view after a successful write.  Nothing is promised of a write that
  fails, because the transaction is then rolled back.  Identifiers that name a row are opaque
  identifiers, which the service has validated before it writes.
\<close>

record sview =
  wVault :: "string \<Rightarrow> Vault option"
  wDevice :: "string \<Rightarrow> string \<Rightarrow> Device option"
  wEntries :: "string \<Rightarrow> DeviceListEntry list"
  wPackage :: "string \<Rightarrow> string \<Rightarrow> KeyPackage option"
  wHeader :: "string \<Rightarrow> u64 \<Rightarrow> StoredHeader option"
  wCipher :: "string \<Rightarrow> u64 \<Rightarrow> bytes option"
  wPairing :: "string \<Rightarrow> string \<Rightarrow> Pairing option"
  wCheckpoint :: "string \<Rightarrow> string \<Rightarrow> StoredCheckpoint option"
  wNonce :: "string \<Rightarrow> string \<Rightarrow> gotime option"

text \<open>The bytes of the ciphertexts a vault stores.\<close>

definition cipher_bytes :: "(u64 \<Rightarrow> bytes option) \<Rightarrow> int" where
  "cipher_bytes m = (\<Sum>r \<in> dom m. int (length (the (m r))))"

text \<open>A page of a table that is listed in increasing order of its keys.\<close>

definition page :: "('a \<Rightarrow> u64) \<Rightarrow> 'a set \<Rightarrow> int \<Rightarrow> 'a list \<Rightarrow> bool" where
  "page key rows limit out \<longleftrightarrow>
     (\<exists>xs. set xs = rows \<and> sorted_wrt (\<lambda>a b. key a < key b) xs \<and> out = take (nat limit) xs)"

section \<open>Vaults\<close>

locale tx_vaults =
  fixes T :: "'s Tx" and view :: "'s \<Rightarrow> sview" and inv :: "'s \<Rightarrow> bool"
  assumes vault_key: "inv s \<Longrightarrow> wVault (view s) v = Some x \<Longrightarrow> vID x = v \<and> opaqueID v"
    and vault_owner: "inv s \<Longrightarrow> wVault (view s) v = Some x \<Longrightarrow> wVault (view s) v' = Some x' \<Longrightarrow>
      vOwnerKey x = vOwnerKey x' \<Longrightarrow> v = v'"
    and VaultByOwner_ok: "inv s \<Longrightarrow> txVaultByOwner T own s = Inr x \<Longrightarrow>
      wVault (view s) (vID x) = Some x \<and> vOwnerKey x = own"
    and VaultByOwner_missing: "inv s \<Longrightarrow> txVaultByOwner T own s = Inl ErrNotFound \<Longrightarrow>
      wVault (view s) v = Some x \<Longrightarrow> vOwnerKey x \<noteq> own"
    and InsertVault_ok: "inv s \<Longrightarrow> opaqueID (vID x) \<Longrightarrow> txInsertVault T x s = Inr s' \<Longrightarrow>
      wVault (view s) (vID x) = None \<and> inv s' \<and>
      view s' = (view s)\<lparr>wVault := (wVault (view s))(vID x \<mapsto> x)\<rparr>"
    and UpdateVault_ok: "inv s \<Longrightarrow> wVault (view s) (vID x) = Some y \<Longrightarrow> vOwnerKey y = vOwnerKey x \<Longrightarrow>
      txUpdateVault T x s = Inr s' \<Longrightarrow> inv s' \<and>
      view s' = (view s)\<lparr>wVault := (wVault (view s))(vID x \<mapsto> x)\<rparr>"
    and DeleteVault_ok: "inv s \<Longrightarrow> opaqueID v \<Longrightarrow> txDeleteVault T v s = Inr s' \<Longrightarrow> inv s' \<and>
      view s' = (view s)\<lparr>wVault := (wVault (view s))(v := None),
        wDevice := (wDevice (view s))(v := (\<lambda>_. None)), wEntries := (wEntries (view s))(v := []),
        wPackage := (wPackage (view s))(v := (\<lambda>_. None)), wHeader := (wHeader (view s))(v := (\<lambda>_. None)),
        wCipher := (wCipher (view s))(v := (\<lambda>_. None)), wPairing := (wPairing (view s))(v := (\<lambda>_. None)),
        wCheckpoint := (wCheckpoint (view s))(v := (\<lambda>_. None))\<rparr>"

section \<open>Devices and the device list\<close>

locale tx_devices =
  fixes T :: "'s Tx" and view :: "'s \<Rightarrow> sview" and inv :: "'s \<Rightarrow> bool"
  assumes device_key: "inv s \<Longrightarrow> wDevice (view s) v i = Some d \<Longrightarrow>
      dVaultID d = v \<and> dDeviceID d = i \<and> opaqueID v \<and> opaqueID i"
    and device_token: "inv s \<Longrightarrow> wDevice (view s) v i = Some d \<Longrightarrow> wDevice (view s) v j = Some e \<Longrightarrow>
      dTokenDeviceID d = dTokenDeviceID e \<Longrightarrow> dState d \<noteq> DeviceRevoked \<Longrightarrow> dState e \<noteq> DeviceRevoked \<Longrightarrow> i = j"
    and Devices_ok: "inv s \<Longrightarrow> opaqueID v \<Longrightarrow> txDevices T v s = Inr ds \<Longrightarrow>
      set ds = {d. \<exists>i. wDevice (view s) v i = Some d} \<and> distinct (map dDeviceID ds)"
    and Device_ok: "inv s \<Longrightarrow> opaqueID v \<Longrightarrow> txDevice T v i s = Inr d \<Longrightarrow> wDevice (view s) v i = Some d"
    and Device_missing: "inv s \<Longrightarrow> opaqueID v \<Longrightarrow> txDevice T v i s = Inl ErrNotFound \<Longrightarrow>
      wDevice (view s) v i = None"
    and DeviceByToken_ok: "inv s \<Longrightarrow> opaqueID v \<Longrightarrow> txDeviceByToken T v tok s = Inr d \<Longrightarrow>
      wDevice (view s) v (dDeviceID d) = Some d \<and> dTokenDeviceID d = tok \<and>
      (dState d = DeviceRevoked \<longrightarrow>
        (\<forall>i e. wDevice (view s) v i = Some e \<and> dTokenDeviceID e = tok \<longrightarrow> dState e = DeviceRevoked))"
    and DeviceByToken_missing: "inv s \<Longrightarrow> opaqueID v \<Longrightarrow> txDeviceByToken T v tok s = Inl ErrNotFound \<Longrightarrow>
      wDevice (view s) v i = Some d \<Longrightarrow> dTokenDeviceID d \<noteq> tok"
    and PutDevice_ok: "inv s \<Longrightarrow> opaqueID (dVaultID d) \<Longrightarrow> opaqueID (dDeviceID d) \<Longrightarrow>
      txPutDevice T d s = Inr s' \<Longrightarrow> inv s' \<and>
      view s' = (view s)\<lparr>wDevice := (wDevice (view s))(dVaultID d :=
        (wDevice (view s) (dVaultID d))(dDeviceID d \<mapsto> d))\<rparr>"
    and DeviceListEntries_ok: "inv s \<Longrightarrow> txDeviceListEntries T v after limit s = Inr es \<Longrightarrow>
      es = take (nat limit) (filter (\<lambda>e. after < eIndex e) (wEntries (view s) v))"
    and AppendDeviceListEntry_ok: "inv s \<Longrightarrow> txAppendDeviceListEntry T entry s = Inr s' \<Longrightarrow> inv s' \<and>
      view s' = (view s)\<lparr>wEntries := (wEntries (view s))(eVaultID entry := wEntries (view s) (eVaultID entry) @ [entry])\<rparr>"

section \<open>Key packages\<close>

locale tx_packages =
  fixes T :: "'s Tx" and view :: "'s \<Rightarrow> sview" and inv :: "'s \<Rightarrow> bool"
  assumes package_key: "inv s \<Longrightarrow> wPackage (view s) v i = Some p \<Longrightarrow>
      pVaultID (kPackage p) = v \<and> pRecipientDeviceID (kPackage p) = i"
    and PutKeyPackage_ok: "inv s \<Longrightarrow> opaqueID (pVaultID (kPackage p)) \<Longrightarrow>
      opaqueID (pRecipientDeviceID (kPackage p)) \<Longrightarrow> txPutKeyPackage T p s = Inr s' \<Longrightarrow> inv s' \<and>
      view s' = (view s)\<lparr>wPackage := (wPackage (view s))(pVaultID (kPackage p) :=
        (wPackage (view s) (pVaultID (kPackage p)))(pRecipientDeviceID (kPackage p) \<mapsto> p))\<rparr>"
    and KeyPackage_ok: "inv s \<Longrightarrow> opaqueID v \<Longrightarrow> txKeyPackage T v i s = Inr p \<Longrightarrow> wPackage (view s) v i = Some p"
    and KeyPackage_missing: "inv s \<Longrightarrow> opaqueID v \<Longrightarrow> txKeyPackage T v i s = Inl ErrNotFound \<Longrightarrow>
      wPackage (view s) v i = None"
    and DeleteKeyPackages_ok: "inv s \<Longrightarrow> opaqueID v \<Longrightarrow> txDeleteKeyPackages T v s = Inr s' \<Longrightarrow> inv s' \<and>
      view s' = (view s)\<lparr>wPackage := (wPackage (view s))(v := (\<lambda>_. None))\<rparr>"

section \<open>Headers\<close>

locale tx_headers =
  fixes T :: "'s Tx" and view :: "'s \<Rightarrow> sview" and inv :: "'s \<Rightarrow> bool"
  assumes header_key: "inv s \<Longrightarrow> wHeader (view s) v r = Some h \<Longrightarrow>
      hVaultID (shHeader h) = v \<and> hRevision (shHeader h) = r"
    and InsertHeader_ok: "inv s \<Longrightarrow> txInsertHeader T h s = Inr s' \<Longrightarrow>
      wHeader (view s) (hVaultID (shHeader h)) (hRevision (shHeader h)) = None \<and> inv s' \<and>
      view s' = (view s)\<lparr>wHeader := (wHeader (view s))(hVaultID (shHeader h) :=
        (wHeader (view s) (hVaultID (shHeader h)))(hRevision (shHeader h) \<mapsto> h))\<rparr>"
    and Headers_ok: "inv s \<Longrightarrow> txHeaders T v after limit s = Inr hs \<Longrightarrow>
      page (\<lambda>h. hRevision (shHeader h)) {h. \<exists>r. after < r \<and> wHeader (view s) v r = Some h} limit hs"
    and Header_ok: "inv s \<Longrightarrow> txHeader T v r s = Inr h \<Longrightarrow> wHeader (view s) v r = Some h"
    and Header_missing: "inv s \<Longrightarrow> txHeader T v r s = Inl ErrNotFound \<Longrightarrow> wHeader (view s) v r = None"
    and LatestHeader_ok: "inv s \<Longrightarrow> txLatestHeader T v s = Inr h \<Longrightarrow>
      wHeader (view s) v (hRevision (shHeader h)) = Some h \<and>
      (\<forall>r g. wHeader (view s) v r = Some g \<longrightarrow> r \<le> hRevision (shHeader h))"
    and LatestHeader_missing: "inv s \<Longrightarrow> txLatestHeader T v s = Inl ErrNotFound \<Longrightarrow> wHeader (view s) v r = None"
    and PruneHeaders_ok: "inv s \<Longrightarrow> txPruneHeaders T v k s = Inr s' \<Longrightarrow> inv s' \<and>
      view s' = (view s)\<lparr>wHeader := (wHeader (view s))(v := (\<lambda>r. if r < k then None else wHeader (view s) v r))\<rparr>"

section \<open>Ciphertexts\<close>

locale tx_ciphertexts =
  fixes T :: "'s Tx" and view :: "'s \<Rightarrow> sview" and inv :: "'s \<Rightarrow> bool"
  assumes cipher_finite: "inv s \<Longrightarrow> finite (dom (wCipher (view s) v))"
    and PutCiphertext_ok: "inv s \<Longrightarrow> txPutCiphertext T v r c s = Inr s' \<Longrightarrow> inv s' \<and>
      view s' = (view s)\<lparr>wCipher := (wCipher (view s))(v := (wCipher (view s) v)(r \<mapsto> c))\<rparr>"
    and Ciphertext_ok: "inv s \<Longrightarrow> txCiphertext T v r s = Inr c \<Longrightarrow> wCipher (view s) v r = Some c"
    and Ciphertext_missing: "inv s \<Longrightarrow> txCiphertext T v r s = Inl ErrNotFound \<Longrightarrow> wCipher (view s) v r = None"
    and CiphertextBytes_ok: "inv s \<Longrightarrow> txCiphertextBytes T v s = Inr n \<Longrightarrow> n = cipher_bytes (wCipher (view s) v)"
    and OldestCiphertext_ok: "inv s \<Longrightarrow> txOldestCiphertext T v s = Inr (r, n) \<Longrightarrow>
      (\<exists>c. wCipher (view s) v r = Some c \<and> n = int (length c)) \<and> (\<forall>q \<in> dom (wCipher (view s) v). r \<le> q)"
    and OldestCiphertext_missing: "inv s \<Longrightarrow> txOldestCiphertext T v s = Inl ErrNotFound \<Longrightarrow>
      wCipher (view s) v r = None"
    and DeleteCiphertext_ok: "inv s \<Longrightarrow> txDeleteCiphertext T v r s = Inr s' \<Longrightarrow> inv s' \<and>
      view s' = (view s)\<lparr>wCipher := (wCipher (view s))(v := (wCipher (view s) v)(r := None))\<rparr>"
    and DeleteCiphertextsBefore_ok: "inv s \<Longrightarrow> txDeleteCiphertextsBefore T v k s = Inr s' \<Longrightarrow> inv s' \<and>
      view s' = (view s)\<lparr>wCipher := (wCipher (view s))(v := (\<lambda>r. if r < k then None else wCipher (view s) v r))\<rparr>"

section \<open>Checkpoints\<close>

locale tx_checkpoints =
  fixes T :: "'s Tx" and view :: "'s \<Rightarrow> sview" and inv :: "'s \<Rightarrow> bool"
  assumes checkpoint_key: "inv s \<Longrightarrow> wCheckpoint (view s) v i = Some c \<Longrightarrow>
      cVaultID (scCheckpoint c) = v \<and> cDeviceID (scCheckpoint c) = i"
    and PutCheckpoint_ok: "inv s \<Longrightarrow> opaqueID (cVaultID (scCheckpoint c)) \<Longrightarrow>
      opaqueID (cDeviceID (scCheckpoint c)) \<Longrightarrow> txPutCheckpoint T c s = Inr s' \<Longrightarrow> inv s' \<and>
      view s' = (view s)\<lparr>wCheckpoint := (wCheckpoint (view s))(cVaultID (scCheckpoint c) :=
        (wCheckpoint (view s) (cVaultID (scCheckpoint c)))(cDeviceID (scCheckpoint c) \<mapsto> c))\<rparr>"
    and Checkpoint_ok: "inv s \<Longrightarrow> opaqueID v \<Longrightarrow> txCheckpoint T v i s = Inr c \<Longrightarrow> wCheckpoint (view s) v i = Some c"
    and Checkpoint_missing: "inv s \<Longrightarrow> opaqueID v \<Longrightarrow> txCheckpoint T v i s = Inl ErrNotFound \<Longrightarrow>
      wCheckpoint (view s) v i = None"
    and Checkpoints_ok: "inv s \<Longrightarrow> opaqueID v \<Longrightarrow> txCheckpoints T v s = Inr cs \<Longrightarrow>
      set cs = {c. \<exists>i. wCheckpoint (view s) v i = Some c}"
    and DeleteCheckpoint_ok: "inv s \<Longrightarrow> opaqueID v \<Longrightarrow> txDeleteCheckpoint T v i s = Inr s' \<Longrightarrow> inv s' \<and>
      view s' = (view s)\<lparr>wCheckpoint := (wCheckpoint (view s))(v := (wCheckpoint (view s) v)(i := None))\<rparr>"

section \<open>Pairings and nonces\<close>

locale tx_pairings =
  fixes T :: "'s Tx" and view :: "'s \<Rightarrow> sview" and inv :: "'s \<Rightarrow> bool"
  assumes pairing_key: "inv s \<Longrightarrow> wPairing (view s) v i = Some g \<Longrightarrow>
      gVaultID g = v \<and> gDeviceID g = i \<and> opaqueID v \<and> opaqueID i"
    and PutPairing_ok: "inv s \<Longrightarrow> opaqueID (gVaultID g) \<Longrightarrow> opaqueID (gDeviceID g) \<Longrightarrow>
      txPutPairing T g s = Inr s' \<Longrightarrow> inv s' \<and>
      view s' = (view s)\<lparr>wPairing := (wPairing (view s))(gVaultID g :=
        (wPairing (view s) (gVaultID g))(gDeviceID g \<mapsto> g))\<rparr>"
    and Pairing_ok: "inv s \<Longrightarrow> opaqueID v \<Longrightarrow> txPairing T v i s = Inr g \<Longrightarrow> wPairing (view s) v i = Some g"
    and Pairing_missing: "inv s \<Longrightarrow> opaqueID v \<Longrightarrow> txPairing T v i s = Inl ErrNotFound \<Longrightarrow>
      wPairing (view s) v i = None"
    and PairingByToken_ok: "inv s \<Longrightarrow> opaqueID v \<Longrightarrow> txPairingByToken T v tok s = Inr g \<Longrightarrow>
      wPairing (view s) v (gDeviceID g) = Some g \<and> gTokenDeviceID g = tok"
    and PairingByToken_missing: "inv s \<Longrightarrow> opaqueID v \<Longrightarrow> txPairingByToken T v tok s = Inl ErrNotFound \<Longrightarrow>
      wPairing (view s) v i = Some g \<Longrightarrow> gTokenDeviceID g \<noteq> tok"
    and Pairings_ok: "inv s \<Longrightarrow> opaqueID v \<Longrightarrow> txPairings T v s = Inr gs \<Longrightarrow>
      set gs = {g. \<exists>i. wPairing (view s) v i = Some g} \<and> distinct (map gDeviceID gs)"
    and DeletePairing_ok: "inv s \<Longrightarrow> opaqueID v \<Longrightarrow> txDeletePairing T v i s = Inr s' \<Longrightarrow> inv s' \<and>
      view s' = (view s)\<lparr>wPairing := (wPairing (view s))(v := (wPairing (view s) v)(i := None))\<rparr>"
    and PurgeExpired_ok: "inv s \<Longrightarrow> txPurgeExpired T now s = Inr s' \<Longrightarrow> inv s' \<and>
      view s' = (view s)\<lparr>
        wPairing := (\<lambda>v i. case wPairing (view s) v i of
          Some g \<Rightarrow> if \<not> now < gExpiresAt g then None else Some g | None \<Rightarrow> None),
        wNonce := (\<lambda>sc n. case wNonce (view s) sc n of
          Some until \<Rightarrow> if \<not> now < until then None else Some until | None \<Rightarrow> None)\<rparr>"

text \<open>
  A nonce is fresh unless it is recorded with an expiry in the future.  A fresh one is recorded,
  and no nonce that is still live is lost.
\<close>

definition keeps_live :: "gotime \<Rightarrow> sview \<Rightarrow> sview \<Rightarrow> bool" where
  "keeps_live now w w' \<longleftrightarrow>
     (\<forall>sc n u. wNonce w sc n = Some u \<and> now < u \<longrightarrow> wNonce w' sc n = Some u)"

locale tx_nonces =
  fixes T :: "'s Tx" and view :: "'s \<Rightarrow> sview" and inv :: "'s \<Rightarrow> bool"
  assumes RecordNonce_ok: "inv s \<Longrightarrow> txRecordNonce T sc n now expires s = Inr (fresh, s') \<Longrightarrow>
      inv s' \<and> fresh = (case wNonce (view s) sc n of None \<Rightarrow> True | Some u \<Rightarrow> \<not> now < u) \<and>
      (if fresh then wNonce (view s') sc n = Some expires else view s' = view s) \<and>
      keeps_live now (view s) (view s') \<and> view s' = (view s)\<lparr>wNonce := wNonce (view s')\<rparr>"

section \<open>The whole interface\<close>

locale sync_tx =
  tx_vaults T view inv + tx_devices T view inv + tx_packages T view inv + tx_headers T view inv +
  tx_ciphertexts T view inv + tx_checkpoints T view inv + tx_pairings T view inv + tx_nonces T view inv
  for T :: "'s Tx" and view :: "'s \<Rightarrow> sview" and inv :: "'s \<Rightarrow> bool"

end
