(* ===== verification/Mem_Store.thy ===== *)
theory Mem_Store
  imports Tx_Contract "HOL-Library.List_Lexorder" "HOL-Library.Char_ord"
begin

text \<open>
  The file memstore.go of internal/syncsvc/memstore: the store that keeps its tables in Go
  maps and the transaction that works on a copy of them.
\<close>

section \<open>State and transactions\<close>

record mstate =
  msVaults :: "(string, Vault) gomap"
  msDevices :: "(string, Device) gomap"
  msEntries :: "(string, DeviceListEntry list) gomap"
  msPackages :: "(string, KeyPackage) gomap"
  msHeaders :: "(string, (u64, StoredHeader) gomap) gomap"
  msCiphertexts :: "(string, (u64, bytes) gomap) gomap"
  msPairings :: "(string, Pairing) gomap"
  msCheckpoints :: "(string, StoredCheckpoint) gomap"
  msNonces :: "(string, gotime) gomap"

definition newState :: mstate where
  "newState = \<lparr>msVaults = [], msDevices = [], msEntries = [], msPackages = [], msHeaders = [],
     msCiphertexts = [], msPairings = [], msCheckpoints = [], msNonces = []\<rparr>"

text \<open>\<open>clone\<close> rebuilds every map, and the maps inside the two nested ones.\<close>

definition copyMap :: "('v \<Rightarrow> 'w) \<Rightarrow> ('k, 'v) gomap \<Rightarrow> ('k, 'w) gomap" where
  "copyMap copy m = foldl (\<lambda>out (k, v). AList.update k (copy v) out) [] m"

definition clone :: "mstate \<Rightarrow> mstate" where
  "clone s = \<lparr>msVaults = copyMap id (msVaults s), msDevices = copyMap id (msDevices s),
     msEntries = copyMap id (msEntries s), msPackages = copyMap id (msPackages s),
     msHeaders = copyMap (copyMap id) (msHeaders s),
     msCiphertexts = copyMap (copyMap id) (msCiphertexts s),
     msPairings = copyMap id (msPairings s), msCheckpoints = copyMap id (msCheckpoints s),
     msNonces = copyMap id (msNonces s)\<rparr>"

text \<open>
  \<open>Update\<close> runs the function on a clone of the state and keeps the clone only when the function
  returns no error.  \<open>View\<close> runs it on the state itself.
\<close>

definition memUpdate :: "(mstate, 'e, 'a) txm \<Rightarrow> (mstate, 'e, 'a) txm" where
  "memUpdate fn s =
     (case fn (clone s) of (Inl e, _) \<Rightarrow> (Inl e, s) | (Inr x, working) \<Rightarrow> (Inr x, working))"

definition memView :: "(mstate, 'e, 'a) txm \<Rightarrow> (mstate, 'e, 'a) txm" where
  "memView fn s = fn s"

definition key :: "string list \<Rightarrow> string" where
  "key parts = concat (map (\<lambda>part. part @ [CHR 0x00]) parts)"

section \<open>Methods\<close>

definition found :: "'a option \<Rightarrow> svc_error + 'a" where
  "found r = (case r of None \<Rightarrow> Inl ErrNotFound | Some x \<Rightarrow> Inr x)"

definition memVaultByOwner :: "string \<Rightarrow> mstate \<Rightarrow> svc_error + Vault" where
  "memVaultByOwner ownerKey s = found (find (\<lambda>vault. vOwnerKey vault = ownerKey) (map snd (msVaults s)))"

definition memVaultByID :: "string \<Rightarrow> mstate \<Rightarrow> svc_error + Vault" where
  "memVaultByID vaultID s = found (map_of (msVaults s) vaultID)"

definition memInsertVault :: "Vault \<Rightarrow> mstate \<Rightarrow> svc_error + mstate" where
  "memInsertVault vault s =
     (if map_of (msVaults s) (vID vault) \<noteq> None then Inl ErrConflict
      else if isOk (memVaultByOwner (vOwnerKey vault) s) then Inl ErrConflict
      else Inr (s\<lparr>msVaults := AList.update (vID vault) vault (msVaults s)\<rparr>))"

definition memUpdateVault :: "Vault \<Rightarrow> mstate \<Rightarrow> svc_error + mstate" where
  "memUpdateVault vault s =
     (if map_of (msVaults s) (vID vault) = None then Inl ErrNotFound
      else Inr (s\<lparr>msVaults := AList.update (vID vault) vault (msVaults s)\<rparr>))"

definition memDeleteVault :: "string \<Rightarrow> mstate \<Rightarrow> svc_error + mstate" where
  "memDeleteVault vaultID s =
     Inr (s\<lparr>msVaults := AList.delete vaultID (msVaults s),
            msEntries := AList.delete vaultID (msEntries s),
            msHeaders := AList.delete vaultID (msHeaders s),
            msCiphertexts := AList.delete vaultID (msCiphertexts s),
            msDevices := delete_where (\<lambda>device. dVaultID device = vaultID) (msDevices s),
            msPackages := delete_where (\<lambda>pkg. pVaultID (kPackage pkg) = vaultID) (msPackages s),
            msPairings := delete_where (\<lambda>pairing. gVaultID pairing = vaultID) (msPairings s),
            msCheckpoints := delete_where (\<lambda>c. cVaultID (scCheckpoint c) = vaultID) (msCheckpoints s)\<rparr>)"

definition memDevices :: "string \<Rightarrow> mstate \<Rightarrow> svc_error + Device list" where
  "memDevices vaultID s =
     Inr (sort_key dAddedIndex (filter (\<lambda>device. dVaultID device = vaultID) (map snd (msDevices s))))"

definition memDevice :: "string \<Rightarrow> string \<Rightarrow> mstate \<Rightarrow> svc_error + Device" where
  "memDevice vaultID deviceID s = found (map_of (msDevices s) (key [vaultID, deviceID]))"

definition zeroDevice :: Device where
  "zeroDevice = \<lparr>dVaultID = [], dDeviceID = [], dTokenDeviceID = [], dSigningKey = [], dPackageKey = [],
     dState = [], dAddedIndex = 0, dActivatedEpoch = 0, dCreatedAt = 0\<rparr>"

definition preferDevice :: "Device \<Rightarrow> Device \<Rightarrow> Device" where
  "preferDevice best device =
     (if dDeviceID best = [] \<or> (dState best = DeviceRevoked \<and> dState device \<noteq> DeviceRevoked) \<or>
         (dState best = dState device \<and> dAddedIndex best < dAddedIndex device)
      then device else best)"

definition memDeviceByToken :: "string \<Rightarrow> string \<Rightarrow> mstate \<Rightarrow> svc_error + Device" where
  "memDeviceByToken vaultID tokenDeviceID s =
     (let best = foldl (\<lambda>best device.
            if dVaultID device \<noteq> vaultID \<or> dTokenDeviceID device \<noteq> tokenDeviceID then best
            else preferDevice best device) zeroDevice (map snd (msDevices s))
      in if dDeviceID best = [] then Inl ErrNotFound else Inr best)"

definition memPutDevice :: "Device \<Rightarrow> mstate \<Rightarrow> svc_error + mstate" where
  "memPutDevice device s =
     (if dState device \<noteq> DeviceRevoked \<and>
         list_ex (\<lambda>existing. dVaultID existing = dVaultID device \<and>
             dTokenDeviceID existing = dTokenDeviceID device \<and>
             dDeviceID existing \<noteq> dDeviceID device \<and> dState existing \<noteq> DeviceRevoked)
           (map snd (msDevices s))
      then Inl ErrConflict
      else Inr (s\<lparr>msDevices := AList.update (key [dVaultID device, dDeviceID device]) device (msDevices s)\<rparr>))"

definition entriesOf :: "mstate \<Rightarrow> string \<Rightarrow> DeviceListEntry list" where
  "entriesOf s vaultID = (case map_of (msEntries s) vaultID of None \<Rightarrow> [] | Some es \<Rightarrow> es)"

definition memDeviceListEntries :: "string \<Rightarrow> u64 \<Rightarrow> int \<Rightarrow> mstate \<Rightarrow> svc_error + DeviceListEntry list" where
  "memDeviceListEntries vaultID after limit s =
     Inr (foldl (\<lambda>out entry. if after < eIndex entry \<and> int (length out) < limit then out @ [entry] else out)
            [] (entriesOf s vaultID))"

definition memAppendDeviceListEntry :: "DeviceListEntry \<Rightarrow> mstate \<Rightarrow> svc_error + mstate" where
  "memAppendDeviceListEntry entry s =
     (let existing = entriesOf s (eVaultID entry)
      in if of_nat (length existing) + 1 \<noteq> eIndex entry then Inl ErrConflict
         else Inr (s\<lparr>msEntries := AList.update (eVaultID entry) (existing @ [entry]) (msEntries s)\<rparr>))"

definition memPutKeyPackage :: "KeyPackage \<Rightarrow> mstate \<Rightarrow> svc_error + mstate" where
  "memPutKeyPackage pkg s =
     Inr (s\<lparr>msPackages := AList.update (key [pVaultID (kPackage pkg), pRecipientDeviceID (kPackage pkg)]) pkg
              (msPackages s)\<rparr>)"

definition memKeyPackage :: "string \<Rightarrow> string \<Rightarrow> mstate \<Rightarrow> svc_error + KeyPackage" where
  "memKeyPackage vaultID recipientDeviceID s =
     found (map_of (msPackages s) (key [vaultID, recipientDeviceID]))"

definition memDeleteKeyPackages :: "string \<Rightarrow> mstate \<Rightarrow> svc_error + mstate" where
  "memDeleteKeyPackages vaultID s =
     Inr (s\<lparr>msPackages := delete_where (\<lambda>pkg. pVaultID (kPackage pkg) = vaultID) (msPackages s)\<rparr>)"

definition headersOf :: "mstate \<Rightarrow> string \<Rightarrow> (u64, StoredHeader) gomap" where
  "headersOf s vaultID = (case map_of (msHeaders s) vaultID of None \<Rightarrow> [] | Some m \<Rightarrow> m)"

definition memInsertHeader :: "StoredHeader \<Rightarrow> mstate \<Rightarrow> svc_error + mstate" where
  "memInsertHeader header s =
     (let vaultID = hVaultID (shHeader header);
          revision = hRevision (shHeader header);
          byRevision = headersOf s vaultID
      in if map_of byRevision revision \<noteq> None then Inl ErrConflict
         else Inr (s\<lparr>msHeaders := AList.update vaultID (AList.update revision header byRevision) (msHeaders s)\<rparr>))"

definition memHeaders :: "string \<Rightarrow> u64 \<Rightarrow> int \<Rightarrow> mstate \<Rightarrow> svc_error + StoredHeader list" where
  "memHeaders vaultID after limit s =
     (let byRevision = headersOf s vaultID;
          revisions = sort (filter (\<lambda>revision. after < revision) (map fst byRevision))
      in Inr (map (\<lambda>revision. the (map_of byRevision revision)) (take (nat limit) revisions)))"

definition memHeader :: "string \<Rightarrow> u64 \<Rightarrow> mstate \<Rightarrow> svc_error + StoredHeader" where
  "memHeader vaultID revision s = found (map_of (headersOf s vaultID) revision)"

definition laterHeader :: "StoredHeader option \<Rightarrow> StoredHeader \<Rightarrow> StoredHeader option" where
  "laterHeader latest header =
     (case latest of
        None \<Rightarrow> Some header
      | Some l \<Rightarrow> if hRevision (shHeader l) < hRevision (shHeader header) then Some header else Some l)"

definition memLatestHeader :: "string \<Rightarrow> mstate \<Rightarrow> svc_error + StoredHeader" where
  "memLatestHeader vaultID s = found (foldl laterHeader None (map snd (headersOf s vaultID)))"

definition memPruneHeaders :: "string \<Rightarrow> u64 \<Rightarrow> mstate \<Rightarrow> svc_error + mstate" where
  "memPruneHeaders vaultID keepFrom s =
     (case map_of (msHeaders s) vaultID of
        None \<Rightarrow> Inr s
      | Some m \<Rightarrow> Inr (s\<lparr>msHeaders := AList.update vaultID
                   (delete_keys (\<lambda>revision. revision < keepFrom) m) (msHeaders s)\<rparr>))"

definition ciphertextsOf :: "mstate \<Rightarrow> string \<Rightarrow> (u64, bytes) gomap" where
  "ciphertextsOf s vaultID = (case map_of (msCiphertexts s) vaultID of None \<Rightarrow> [] | Some m \<Rightarrow> m)"

definition memPutCiphertext :: "string \<Rightarrow> u64 \<Rightarrow> bytes \<Rightarrow> mstate \<Rightarrow> svc_error + mstate" where
  "memPutCiphertext vaultID revision ciphertext s =
     Inr (s\<lparr>msCiphertexts := AList.update vaultID
              (AList.update revision ciphertext (ciphertextsOf s vaultID)) (msCiphertexts s)\<rparr>)"

definition memCiphertext :: "string \<Rightarrow> u64 \<Rightarrow> mstate \<Rightarrow> svc_error + bytes" where
  "memCiphertext vaultID revision s = found (map_of (ciphertextsOf s vaultID) revision)"

definition memCiphertextBytes :: "string \<Rightarrow> mstate \<Rightarrow> svc_error + int" where
  "memCiphertextBytes vaultID s =
     Inr (foldl (\<lambda>total ciphertext. total + int (length ciphertext)) 0 (map snd (ciphertextsOf s vaultID)))"

definition olderCiphertext :: "(u64 \<times> int) option \<Rightarrow> u64 \<times> bytes \<Rightarrow> (u64 \<times> int) option" where
  "olderCiphertext oldest rc =
     (case oldest of
        None \<Rightarrow> Some (fst rc, int (length (snd rc)))
      | Some (r, n) \<Rightarrow> if fst rc < r then Some (fst rc, int (length (snd rc))) else Some (r, n))"

definition memOldestCiphertext :: "string \<Rightarrow> mstate \<Rightarrow> svc_error + u64 \<times> int" where
  "memOldestCiphertext vaultID s = found (foldl olderCiphertext None (ciphertextsOf s vaultID))"

definition memDeleteCiphertext :: "string \<Rightarrow> u64 \<Rightarrow> mstate \<Rightarrow> svc_error + mstate" where
  "memDeleteCiphertext vaultID revision s =
     (case map_of (msCiphertexts s) vaultID of
        None \<Rightarrow> Inr s
      | Some m \<Rightarrow> Inr (s\<lparr>msCiphertexts := AList.update vaultID (AList.delete revision m) (msCiphertexts s)\<rparr>))"

definition memDeleteCiphertextsBefore :: "string \<Rightarrow> u64 \<Rightarrow> mstate \<Rightarrow> svc_error + mstate" where
  "memDeleteCiphertextsBefore vaultID revision s =
     (case map_of (msCiphertexts s) vaultID of
        None \<Rightarrow> Inr s
      | Some m \<Rightarrow> Inr (s\<lparr>msCiphertexts := AList.update vaultID
                   (delete_keys (\<lambda>existing. existing < revision) m) (msCiphertexts s)\<rparr>))"

definition memPutCheckpoint :: "StoredCheckpoint \<Rightarrow> mstate \<Rightarrow> svc_error + mstate" where
  "memPutCheckpoint checkpoint s =
     Inr (s\<lparr>msCheckpoints := AList.update
              (key [cVaultID (scCheckpoint checkpoint), cDeviceID (scCheckpoint checkpoint)]) checkpoint
              (msCheckpoints s)\<rparr>)"

definition memCheckpoint :: "string \<Rightarrow> string \<Rightarrow> mstate \<Rightarrow> svc_error + StoredCheckpoint" where
  "memCheckpoint vaultID deviceID s = found (map_of (msCheckpoints s) (key [vaultID, deviceID]))"

definition memCheckpoints :: "string \<Rightarrow> mstate \<Rightarrow> svc_error + StoredCheckpoint list" where
  "memCheckpoints vaultID s =
     Inr (sort_key (\<lambda>c. cDeviceID (scCheckpoint c))
            (filter (\<lambda>c. cVaultID (scCheckpoint c) = vaultID) (map snd (msCheckpoints s))))"

definition memDeleteCheckpoint :: "string \<Rightarrow> string \<Rightarrow> mstate \<Rightarrow> svc_error + mstate" where
  "memDeleteCheckpoint vaultID deviceID s =
     Inr (s\<lparr>msCheckpoints := AList.delete (key [vaultID, deviceID]) (msCheckpoints s)\<rparr>)"

definition memPutPairing :: "Pairing \<Rightarrow> mstate \<Rightarrow> svc_error + mstate" where
  "memPutPairing pairing s =
     Inr (s\<lparr>msPairings := AList.update (key [gVaultID pairing, gDeviceID pairing]) pairing (msPairings s)\<rparr>)"

definition memPairing :: "string \<Rightarrow> string \<Rightarrow> mstate \<Rightarrow> svc_error + Pairing" where
  "memPairing vaultID deviceID s = found (map_of (msPairings s) (key [vaultID, deviceID]))"

definition memPairingByToken :: "string \<Rightarrow> string \<Rightarrow> mstate \<Rightarrow> svc_error + Pairing" where
  "memPairingByToken vaultID tokenDeviceID s =
     found (find (\<lambda>pairing. gVaultID pairing = vaultID \<and> gTokenDeviceID pairing = tokenDeviceID)
              (map snd (msPairings s)))"

definition memPairings :: "string \<Rightarrow> mstate \<Rightarrow> svc_error + Pairing list" where
  "memPairings vaultID s =
     Inr (sort_key gCreatedAt (filter (\<lambda>pairing. gVaultID pairing = vaultID) (map snd (msPairings s))))"

definition memDeletePairing :: "string \<Rightarrow> string \<Rightarrow> mstate \<Rightarrow> svc_error + mstate" where
  "memDeletePairing vaultID deviceID s =
     Inr (s\<lparr>msPairings := AList.delete (key [vaultID, deviceID]) (msPairings s)\<rparr>)"

definition memRecordNonce :: "string \<Rightarrow> string \<Rightarrow> gotime \<Rightarrow> gotime \<Rightarrow> mstate \<Rightarrow> svc_error + bool \<times> mstate" where
  "memRecordNonce scope nonce now expiresAt s =
     (let id = key [scope, nonce]
      in case map_of (msNonces s) id of
          Some until \<Rightarrow>
            if now < until then Inr (False, s)
            else Inr (True, s\<lparr>msNonces := AList.update id expiresAt (msNonces s)\<rparr>)
        | None \<Rightarrow> Inr (True, s\<lparr>msNonces := AList.update id expiresAt (msNonces s)\<rparr>))"

definition memPurgeExpired :: "gotime \<Rightarrow> mstate \<Rightarrow> svc_error + mstate" where
  "memPurgeExpired now s =
     Inr (s\<lparr>msNonces := delete_where (\<lambda>until. \<not> now < until) (msNonces s),
            msPairings := delete_where (\<lambda>pairing. \<not> now < gExpiresAt pairing) (msPairings s)\<rparr>)"

definition memTx :: "mstate Tx" where
  "memTx = \<lparr>txVaultByOwner = memVaultByOwner, txVaultByID = memVaultByID, txInsertVault = memInsertVault,
     txUpdateVault = memUpdateVault, txDeleteVault = memDeleteVault, txDevices = memDevices,
     txDevice = memDevice, txDeviceByToken = memDeviceByToken, txPutDevice = memPutDevice,
     txDeviceListEntries = memDeviceListEntries, txAppendDeviceListEntry = memAppendDeviceListEntry,
     txPutKeyPackage = memPutKeyPackage, txKeyPackage = memKeyPackage,
     txDeleteKeyPackages = memDeleteKeyPackages, txInsertHeader = memInsertHeader, txHeaders = memHeaders,
     txHeader = memHeader, txLatestHeader = memLatestHeader, txPruneHeaders = memPruneHeaders,
     txPutCiphertext = memPutCiphertext, txCiphertext = memCiphertext,
     txCiphertextBytes = memCiphertextBytes, txOldestCiphertext = memOldestCiphertext,
     txDeleteCiphertext = memDeleteCiphertext, txDeleteCiphertextsBefore = memDeleteCiphertextsBefore,
     txPutCheckpoint = memPutCheckpoint, txCheckpoint = memCheckpoint, txCheckpoints = memCheckpoints,
     txDeleteCheckpoint = memDeleteCheckpoint, txPutPairing = memPutPairing, txPairing = memPairing,
     txPairingByToken = memPairingByToken, txPairings = memPairings, txDeletePairing = memDeletePairing,
     txRecordNonce = memRecordNonce, txPurgeExpired = memPurgeExpired\<rparr>"

end
