(* ===== verification/Mem_Contract.thy ===== *)
theory Mem_Contract
  imports Mem_Store "HOL-Library.Multiset"
begin

text \<open>
  The in-memory store keeps the contract of the storage interface: its view, its invariant, and
  the interpretation of every contract locale on the methods of memstore.go.
\<close>

section \<open>Keys and tables\<close>

lemma opaque_no_NUL: "opaqueID v \<Longrightarrow> CHR 0x00 \<notin> set v"
  using opaqueID_char [of v "CHR 0x00"] by (auto simp: url_alphabet_def)

lemma key_two: "key [v, i] = v @ CHR 0x00 # i @ [CHR 0x00]"
  by (simp add: key_def)

lemma split_at_NUL: "CHR 0x00 \<notin> set v \<Longrightarrow> takeWhile (\<lambda>c. c \<noteq> CHR 0x00) (v @ CHR 0x00 # r) = v"
  by (subst takeWhile_append2) auto

lemma key_eq_iff [simp]:
  assumes "opaqueID v" "opaqueID v'"
  shows "key [v, i] = key [v', i'] \<longleftrightarrow> v = v' \<and> i = i'"
proof
  assume eq: "key [v, i] = key [v', i']"
  then have "takeWhile (\<lambda>c. c \<noteq> CHR 0x00) (key [v, i]) = takeWhile (\<lambda>c. c \<noteq> CHR 0x00) (key [v', i'])"
    by simp
  then have "v = v'"
    by (simp only: key_two split_at_NUL [OF opaque_no_NUL [OF assms(1)]] split_at_NUL [OF opaque_no_NUL [OF assms(2)]])
  with eq show "v = v' \<and> i = i'" by (simp add: key_two)
qed simp

definition rows_at :: "('a \<Rightarrow> string) \<Rightarrow> ('a \<Rightarrow> string) \<Rightarrow> (string, 'a) gomap \<Rightarrow> string \<Rightarrow> string \<Rightarrow> 'a option" where
  "rows_at vid did m v i =
     (case map_of m (key [v, i]) of Some x \<Rightarrow> if vid x = v \<and> did x = i then Some x else None | None \<Rightarrow> None)"

definition table_ok :: "('a \<Rightarrow> string) \<Rightarrow> ('a \<Rightarrow> string) \<Rightarrow> (string, 'a) gomap \<Rightarrow> bool" where
  "table_ok vid did m \<longleftrightarrow> gomap_ok m \<and>
     (\<forall>k x. map_of m k = Some x \<longrightarrow> k = key [vid x, did x] \<and> opaqueID (vid x) \<and> opaqueID (did x))"

lemma table_okD:
  "table_ok vid did m \<Longrightarrow> map_of m k = Some x \<Longrightarrow> k = key [vid x, did x] \<and> opaqueID (vid x) \<and> opaqueID (did x)"
  by (simp add: table_ok_def)

lemma table_gomap: "table_ok vid did m \<Longrightarrow> gomap_ok m"
  by (simp add: table_ok_def)

lemma table_ok_Nil [simp]: "table_ok vid did []"
  by (simp add: table_ok_def)

lemma table_lookup:
  "table_ok vid did m \<Longrightarrow> opaqueID v \<Longrightarrow> map_of m (key [v, i]) = rows_at vid did m v i"
  using table_okD [of vid did m "key [v, i]"] by (auto simp: rows_at_def split: option.splits)

lemma rows_at_key: "rows_at vid did m v i = Some x \<Longrightarrow> vid x = v \<and> did x = i"
  by (auto simp: rows_at_def split: option.splits if_splits)

lemma rows_at_map_of: "rows_at vid did m v i = Some x \<Longrightarrow> map_of m (key [v, i]) = Some x"
  by (auto simp: rows_at_def split: option.splits if_splits)

lemma rows_at_opaque: "table_ok vid did m \<Longrightarrow> rows_at vid did m v i = Some x \<Longrightarrow> opaqueID v \<and> opaqueID i"
  using rows_at_key [of vid did m v i x] table_okD [OF _ rows_at_map_of, of vid did m vid did v i x] by auto

lemma table_row: "table_ok vid did m \<Longrightarrow> map_of m k = Some x \<Longrightarrow> rows_at vid did m (vid x) (did x) = Some x"
  using table_okD [of vid did m k x] by (auto simp: rows_at_def)

lemma rows_at_update:
  assumes "table_ok vid did m" "opaqueID (vid x)"
  shows "rows_at vid did (AList.update (key [vid x, did x]) x m) =
     (rows_at vid did m)(vid x := (rows_at vid did m (vid x))(did x \<mapsto> x))"
proof (intro ext)
  fix v i
  show "rows_at vid did (AList.update (key [vid x, did x]) x m) v i =
     ((rows_at vid did m)(vid x := (rows_at vid did m (vid x))(did x \<mapsto> x))) v i"
  proof (cases "key [v, i] = key [vid x, did x]")
    case True
    show ?thesis
    proof (cases "v = vid x \<and> i = did x")
      case False
      have "rows_at vid did m v i = None"
        using rows_at_opaque [OF assms(1), of v i] key_eq_iff [of v "vid x" i "did x"] assms(2) True False
        by (cases "rows_at vid did m v i") auto
      then show ?thesis using False True by (auto simp: rows_at_def go_simps)
    qed (auto simp: rows_at_def go_simps)
  next
    case False
    then have "map_of (AList.update (key [vid x, did x]) x m) (key [v, i]) = map_of m (key [v, i])"
      by (simp add: go_simps)
    then have "rows_at vid did (AList.update (key [vid x, did x]) x m) v i = rows_at vid did m v i"
      by (simp add: rows_at_def)
    moreover have "\<not> (v = vid x \<and> i = did x)" using False by auto
    ultimately show ?thesis by auto
  qed
qed

lemma table_ok_update:
  "table_ok vid did m \<Longrightarrow> opaqueID (vid x) \<Longrightarrow> opaqueID (did x) \<Longrightarrow>
   table_ok vid did (AList.update (key [vid x, did x]) x m)"
  by (auto simp: table_ok_def go_simps)

lemma rows_at_delete:
  assumes "table_ok vid did m" "opaqueID v"
  shows "rows_at vid did (AList.delete (key [v, i]) m) =
     (rows_at vid did m)(v := (rows_at vid did m v)(i := None))"
proof (intro ext)
  fix v' i'
  show "rows_at vid did (AList.delete (key [v, i]) m) v' i' =
     ((rows_at vid did m)(v := (rows_at vid did m v)(i := None))) v' i'"
  proof (cases "rows_at vid did m v' i'")
    case None
    then show ?thesis by (auto simp: rows_at_def go_simps)
  next
    case (Some x)
    then have "opaqueID v'" using rows_at_opaque [OF assms(1)] by blast
    then have "key [v', i'] = key [v, i] \<longleftrightarrow> v' = v \<and> i' = i" using assms(2) by simp
    then show ?thesis using Some by (auto simp: rows_at_def go_simps)
  qed
qed

lemma table_ok_delete: "table_ok vid did m \<Longrightarrow> table_ok vid did (AList.delete k m)"
  by (auto simp: table_ok_def go_simps)

lemma rows_at_delete_where:
  "table_ok vid did m \<Longrightarrow> rows_at vid did (delete_where P m) v i =
     (case rows_at vid did m v i of Some x \<Rightarrow> if P x then None else Some x | None \<Rightarrow> None)"
  by (auto simp: rows_at_def go_simps table_gomap split: option.splits)

lemma rows_at_delete_vault:
  "table_ok vid did m \<Longrightarrow>
   rows_at vid did (delete_where (\<lambda>x. vid x = v) m) = (rows_at vid did m)(v := (\<lambda>_. None))"
  by (intro ext) (auto simp: rows_at_delete_where split: option.splits dest: rows_at_key)

lemma table_ok_delete_where: "table_ok vid did m \<Longrightarrow> table_ok vid did (delete_where P m)"
  by (auto simp: table_ok_def go_simps split: option.splits if_splits)

lemma table_rows:
  assumes "table_ok vid did m"
  shows "x \<in> set (filter (\<lambda>x. vid x = v) (map snd m)) \<longleftrightarrow> (\<exists>i. rows_at vid did m v i = Some x)"
proof
  assume "x \<in> set (filter (\<lambda>x. vid x = v) (map snd m))"
  then obtain k where "map_of m k = Some x" "vid x = v"
    using gomap_values [OF table_gomap [OF assms], of x] by auto
  then show "\<exists>i. rows_at vid did m v i = Some x" using table_row [OF assms, of k x] by auto
next
  assume "\<exists>i. rows_at vid did m v i = Some x"
  then show "x \<in> set (filter (\<lambda>x. vid x = v) (map snd m))"
    using gomap_values [OF table_gomap [OF assms], of x] by (auto dest: rows_at_key rows_at_map_of)
qed

lemma table_distinct:
  "table_ok vid did m \<Longrightarrow> distinct (map did (filter (\<lambda>x. vid x = v) (map snd m)))"
proof (induction m)
  case (Cons kx m)
  obtain k x where kx: "kx = (k, x)" by (cases kx)
  have ok: "gomap_ok (kx # m)" using Cons.prems by (rule table_gomap)
  have fresh: "map_of m k = None" using ok by (auto simp: gomap_ok_def kx map_of_eq_None_iff)
  have tail: "table_ok vid did m"
    using Cons.prems fresh ok by (auto simp: table_ok_def gomap_ok_def kx split: if_splits)
  have "did y \<noteq> did x" if "y \<in> set (filter (\<lambda>x. vid x = v) (map snd m))" "vid x = v" for y
  proof
    assume "did y = did x"
    have "y \<in> set (map snd m)" "vid y = v" using that by auto
    then obtain k' where k': "map_of m k' = Some y" "vid y = v"
      using gomap_values [OF table_gomap [OF tail], of y] by blast
    have "k' = k"
      using table_okD [OF tail k'(1)] table_okD [OF Cons.prems, of k x] that k'(2) \<open>did y = did x\<close> kx by auto
    with fresh k' show False by simp
  qed
  then show ?case using Cons.IH [OF tail] by (force simp: kx)
qed simp

lemma table_sorted:
  assumes "table_ok vid did m" "Inr (sort_key f (filter (\<lambda>x. vid x = v) (map snd m))) = (Inr xs :: 'e + 'a list)"
  shows "set xs = {x. \<exists>i. rows_at vid did m v i = Some x} \<and> distinct (map did xs)"
proof -
  have xs: "xs = sort_key f (filter (\<lambda>x. vid x = v) (map snd m))" using assms(2) by simp
  have "set xs = {x. \<exists>i. rows_at vid did m v i = Some x}"
    unfolding xs set_sort set_eq_iff mem_Collect_eq table_rows [OF assms(1)] by simp
  moreover have "mset (map did xs) = mset (map did (filter (\<lambda>x. vid x = v) (map snd m)))"
    unfolding xs mset_map mset_sort by simp
  then have "distinct (map did xs)"
    using table_distinct [OF assms(1), of v] mset_eq_imp_distinct_iff by blast
  ultimately show ?thesis by simp
qed

section \<open>The view and the invariant\<close>

definition mview :: "mstate \<Rightarrow> sview" where
  "mview s = \<lparr>wVault = map_of (msVaults s), wDevice = rows_at dVaultID dDeviceID (msDevices s),
     wEntries = entriesOf s,
     wPackage = rows_at (\<lambda>p. pVaultID (kPackage p)) (\<lambda>p. pRecipientDeviceID (kPackage p)) (msPackages s),
     wHeader = (\<lambda>v. map_of (headersOf s v)), wCipher = (\<lambda>v. map_of (ciphertextsOf s v)),
     wPairing = rows_at gVaultID gDeviceID (msPairings s),
     wCheckpoint = rows_at (\<lambda>c. cVaultID (scCheckpoint c)) (\<lambda>c. cDeviceID (scCheckpoint c)) (msCheckpoints s),
     wNonce = (\<lambda>sc n. map_of (msNonces s) (key [sc, n]))\<rparr>"

lemma mview_sel [simp]:
  "wVault (mview s) = map_of (msVaults s)"
  "wDevice (mview s) = rows_at dVaultID dDeviceID (msDevices s)"
  "wEntries (mview s) = entriesOf s"
  "wPackage (mview s) = rows_at (\<lambda>p. pVaultID (kPackage p)) (\<lambda>p. pRecipientDeviceID (kPackage p)) (msPackages s)"
  "wHeader (mview s) v = map_of (headersOf s v)"
  "wCipher (mview s) v = map_of (ciphertextsOf s v)"
  "wPairing (mview s) = rows_at gVaultID gDeviceID (msPairings s)"
  "wCheckpoint (mview s) = rows_at (\<lambda>c. cVaultID (scCheckpoint c)) (\<lambda>c. cDeviceID (scCheckpoint c)) (msCheckpoints s)"
  "wNonce (mview s) sc n = map_of (msNonces s) (key [sc, n])"
  by (simp_all add: mview_def)

definition vaults_ok :: "(string, Vault) gomap \<Rightarrow> bool" where
  "vaults_ok m \<longleftrightarrow> gomap_ok m \<and> (\<forall>k x. map_of m k = Some x \<longrightarrow> vID x = k \<and> opaqueID k) \<and>
     (\<forall>k x k' x'. map_of m k = Some x \<and> map_of m k' = Some x' \<and> vOwnerKey x = vOwnerKey x' \<longrightarrow> k = k')"

definition tokens_ok :: "(string, Device) gomap \<Rightarrow> bool" where
  "tokens_ok m \<longleftrightarrow> (\<forall>k d k' d'. map_of m k = Some d \<and> map_of m k' = Some d' \<and> dVaultID d = dVaultID d' \<and>
     dTokenDeviceID d = dTokenDeviceID d' \<and> dState d \<noteq> DeviceRevoked \<and> dState d' \<noteq> DeviceRevoked \<longrightarrow>
     dDeviceID d = dDeviceID d')"

definition headers_ok :: "mstate \<Rightarrow> bool" where
  "headers_ok s \<longleftrightarrow> gomap_ok (msHeaders s) \<and> (\<forall>v m. map_of (msHeaders s) v = Some m \<longrightarrow> gomap_ok m) \<and>
     (\<forall>v r h. map_of (headersOf s v) r = Some h \<longrightarrow> hVaultID (shHeader h) = v \<and> hRevision (shHeader h) = r)"

definition ciphers_ok :: "mstate \<Rightarrow> bool" where
  "ciphers_ok s \<longleftrightarrow> gomap_ok (msCiphertexts s) \<and> (\<forall>v m. map_of (msCiphertexts s) v = Some m \<longrightarrow> gomap_ok m)"

definition minv :: "mstate \<Rightarrow> bool" where
  "minv s \<longleftrightarrow> vaults_ok (msVaults s) \<and>
     table_ok dVaultID dDeviceID (msDevices s) \<and> tokens_ok (msDevices s) \<and> gomap_ok (msEntries s) \<and>
     table_ok (\<lambda>p. pVaultID (kPackage p)) (\<lambda>p. pRecipientDeviceID (kPackage p)) (msPackages s) \<and>
     headers_ok s \<and> ciphers_ok s \<and> table_ok gVaultID gDeviceID (msPairings s) \<and>
     table_ok (\<lambda>c. cVaultID (scCheckpoint c)) (\<lambda>c. cDeviceID (scCheckpoint c)) (msCheckpoints s) \<and>
     gomap_ok (msNonces s)"

lemma minv_newState [simp]: "minv newState"
  by (simp add: minv_def newState_def vaults_ok_def tokens_ok_def headers_ok_def headersOf_def ciphers_ok_def)

lemma minvD:
  assumes "minv s"
  shows "vaults_ok (msVaults s)" "table_ok dVaultID dDeviceID (msDevices s)" "tokens_ok (msDevices s)"
    "gomap_ok (msEntries s)"
    "table_ok (\<lambda>p. pVaultID (kPackage p)) (\<lambda>p. pRecipientDeviceID (kPackage p)) (msPackages s)"
    "headers_ok s" "ciphers_ok s" "table_ok gVaultID gDeviceID (msPairings s)"
    "table_ok (\<lambda>c. cVaultID (scCheckpoint c)) (\<lambda>c. cDeviceID (scCheckpoint c)) (msCheckpoints s)"
    "gomap_ok (msNonces s)"
  using assms by (simp_all add: minv_def)

lemma headers_okD:
  "headers_ok s \<Longrightarrow> gomap_ok (headersOf s v)"
  "headers_ok s \<Longrightarrow> map_of (headersOf s v) r = Some h \<Longrightarrow> hVaultID (shHeader h) = v \<and> hRevision (shHeader h) = r"
  by (auto simp: headers_ok_def headersOf_def split: option.splits)

lemma ciphers_okD: "ciphers_ok s \<Longrightarrow> gomap_ok (ciphertextsOf s v)"
  by (auto simp: ciphers_ok_def ciphertextsOf_def split: option.splits)

lemma found_eq [simp]:
  "found r = Inr x \<longleftrightarrow> r = Some x" "found r = Inl e \<longleftrightarrow> r = None \<and> e = ErrNotFound"
  by (auto simp: found_def split: option.splits)

lemma isOk_found [simp]: "isOk (found r) \<longleftrightarrow> r \<noteq> None"
  by (auto simp: found_def isOk_def split: option.splits)

text \<open>What a write of one table changes in the view, and that it keeps the invariant.\<close>

lemma headersOf_frame [simp]:
  "headersOf (s\<lparr>msVaults := a\<rparr>) = headersOf s" "headersOf (s\<lparr>msDevices := b\<rparr>) = headersOf s"
  "headersOf (s\<lparr>msEntries := c\<rparr>) = headersOf s" "headersOf (s\<lparr>msPackages := d\<rparr>) = headersOf s"
  "headersOf (s\<lparr>msCiphertexts := e\<rparr>) = headersOf s" "headersOf (s\<lparr>msPairings := f\<rparr>) = headersOf s"
  "headersOf (s\<lparr>msCheckpoints := g\<rparr>) = headersOf s" "headersOf (s\<lparr>msNonces := h\<rparr>) = headersOf s"
  by (simp_all add: headersOf_def fun_eq_iff)

lemma ciphertextsOf_frame [simp]:
  "ciphertextsOf (s\<lparr>msVaults := a\<rparr>) = ciphertextsOf s" "ciphertextsOf (s\<lparr>msDevices := b\<rparr>) = ciphertextsOf s"
  "ciphertextsOf (s\<lparr>msEntries := c\<rparr>) = ciphertextsOf s" "ciphertextsOf (s\<lparr>msPackages := d\<rparr>) = ciphertextsOf s"
  "ciphertextsOf (s\<lparr>msHeaders := e\<rparr>) = ciphertextsOf s" "ciphertextsOf (s\<lparr>msPairings := f\<rparr>) = ciphertextsOf s"
  "ciphertextsOf (s\<lparr>msCheckpoints := g\<rparr>) = ciphertextsOf s" "ciphertextsOf (s\<lparr>msNonces := h\<rparr>) = ciphertextsOf s"
  by (simp_all add: ciphertextsOf_def fun_eq_iff)

lemma entriesOf_frame [simp]:
  "entriesOf (s\<lparr>msVaults := a\<rparr>) = entriesOf s" "entriesOf (s\<lparr>msDevices := b\<rparr>) = entriesOf s"
  "entriesOf (s\<lparr>msHeaders := c\<rparr>) = entriesOf s" "entriesOf (s\<lparr>msPackages := d\<rparr>) = entriesOf s"
  "entriesOf (s\<lparr>msCiphertexts := e\<rparr>) = entriesOf s" "entriesOf (s\<lparr>msPairings := f\<rparr>) = entriesOf s"
  "entriesOf (s\<lparr>msCheckpoints := g\<rparr>) = entriesOf s" "entriesOf (s\<lparr>msNonces := h\<rparr>) = entriesOf s"
  by (simp_all add: entriesOf_def fun_eq_iff)

lemma tables_frame [simp]:
  "headers_ok (s\<lparr>msVaults := a\<rparr>) = headers_ok s" "headers_ok (s\<lparr>msDevices := b\<rparr>) = headers_ok s"
  "headers_ok (s\<lparr>msEntries := c\<rparr>) = headers_ok s" "headers_ok (s\<lparr>msPackages := d\<rparr>) = headers_ok s"
  "headers_ok (s\<lparr>msCiphertexts := e\<rparr>) = headers_ok s" "headers_ok (s\<lparr>msPairings := f\<rparr>) = headers_ok s"
  "headers_ok (s\<lparr>msCheckpoints := g\<rparr>) = headers_ok s" "headers_ok (s\<lparr>msNonces := h\<rparr>) = headers_ok s"
  "ciphers_ok (s\<lparr>msVaults := a\<rparr>) = ciphers_ok s" "ciphers_ok (s\<lparr>msDevices := b\<rparr>) = ciphers_ok s"
  "ciphers_ok (s\<lparr>msEntries := c\<rparr>) = ciphers_ok s" "ciphers_ok (s\<lparr>msPackages := d\<rparr>) = ciphers_ok s"
  "ciphers_ok (s\<lparr>msHeaders := i\<rparr>) = ciphers_ok s" "ciphers_ok (s\<lparr>msPairings := f\<rparr>) = ciphers_ok s"
  "ciphers_ok (s\<lparr>msCheckpoints := g\<rparr>) = ciphers_ok s" "ciphers_ok (s\<lparr>msNonces := h\<rparr>) = ciphers_ok s"
  by (simp_all add: headers_ok_def ciphers_ok_def)

lemma memTx_sel [simp]:
  "txVaultByOwner memTx = memVaultByOwner" "txVaultByID memTx = memVaultByID" "txInsertVault memTx = memInsertVault"
  "txUpdateVault memTx = memUpdateVault" "txDeleteVault memTx = memDeleteVault" "txDevices memTx = memDevices"
  "txDevice memTx = memDevice" "txDeviceByToken memTx = memDeviceByToken" "txPutDevice memTx = memPutDevice"
  "txDeviceListEntries memTx = memDeviceListEntries" "txAppendDeviceListEntry memTx = memAppendDeviceListEntry"
  "txPutKeyPackage memTx = memPutKeyPackage" "txKeyPackage memTx = memKeyPackage"
  "txDeleteKeyPackages memTx = memDeleteKeyPackages" "txInsertHeader memTx = memInsertHeader"
  "txHeaders memTx = memHeaders" "txHeader memTx = memHeader" "txLatestHeader memTx = memLatestHeader"
  "txPruneHeaders memTx = memPruneHeaders" "txPutCiphertext memTx = memPutCiphertext"
  "txCiphertext memTx = memCiphertext" "txCiphertextBytes memTx = memCiphertextBytes"
  "txOldestCiphertext memTx = memOldestCiphertext" "txDeleteCiphertext memTx = memDeleteCiphertext"
  "txDeleteCiphertextsBefore memTx = memDeleteCiphertextsBefore" "txPutCheckpoint memTx = memPutCheckpoint"
  "txCheckpoint memTx = memCheckpoint" "txCheckpoints memTx = memCheckpoints"
  "txDeleteCheckpoint memTx = memDeleteCheckpoint" "txPutPairing memTx = memPutPairing"
  "txPairing memTx = memPairing" "txPairingByToken memTx = memPairingByToken" "txPairings memTx = memPairings"
  "txDeletePairing memTx = memDeletePairing" "txRecordNonce memTx = memRecordNonce"
  "txPurgeExpired memTx = memPurgeExpired"
  by (simp_all add: memTx_def)

section \<open>The vault methods keep their contract\<close>

lemma find_value:
  "gomap_ok m \<Longrightarrow> find P (map snd m) = Some x \<Longrightarrow> (\<exists>k. map_of m k = Some x) \<and> P x"
  using gomap_values [of m x] by (metis find_Some_iff nth_mem)

lemma find_no_value:
  "gomap_ok m \<Longrightarrow> find P (map snd m) = None \<Longrightarrow> map_of m k = Some x \<Longrightarrow> \<not> P x"
  using gomap_values [of m x] by (metis find_None_iff)

lemma vaults_okD:
  "vaults_ok m \<Longrightarrow> gomap_ok m" "vaults_ok m \<Longrightarrow> map_of m k = Some x \<Longrightarrow> vID x = k \<and> opaqueID k"
  "vaults_ok m \<Longrightarrow> map_of m k = Some x \<Longrightarrow> map_of m k' = Some x' \<Longrightarrow> vOwnerKey x = vOwnerKey x' \<Longrightarrow> k = k'"
  unfolding vaults_ok_def by blast+

lemma vaults_ok_update:
  assumes "vaults_ok m" "opaqueID (vID x)"
    and "\<And>k y. map_of m k = Some y \<Longrightarrow> vOwnerKey y = vOwnerKey x \<Longrightarrow> k = vID x"
  shows "vaults_ok (AList.update (vID x) x m)"
proof -
  let ?m = "(map_of m)(vID x \<mapsto> x)"
  have old: "k = vID x \<and> y = x \<or> k \<noteq> vID x \<and> map_of m k = Some y" if "?m k = Some y" for k y
    using that by (cases "k = vID x") auto
  have "vID y = k \<and> opaqueID k" if "?m k = Some y" for k y
    using old [OF that] vaults_okD(2) [OF assms(1), of k y] assms(2) by blast
  moreover have "k = k'" if "?m k = Some y" "?m k' = Some y'" "vOwnerKey y = vOwnerKey y'" for k y k' y'
    using old [OF that(1)] old [OF that(2)] that(3) assms(3) vaults_okD(3) [OF assms(1), of k y k' y'] by metis
  ultimately show ?thesis
    using vaults_okD(1) [OF assms(1)] unfolding vaults_ok_def map_of_update by (intro conjI gomap_ok_update) blast+
qed

lemma memInsertVault_spec:
  assumes inv: "minv s" and id: "opaqueID (vID x)" and ok: "memInsertVault x s = Inr s'"
  shows "map_of (msVaults s) (vID x) = None" "minv s'"
    "mview s' = (mview s)\<lparr>wVault := (wVault (mview s))(vID x \<mapsto> x)\<rparr>"
proof -
  have s': "s' = s\<lparr>msVaults := AList.update (vID x) x (msVaults s)\<rparr>"
    and none: "map_of (msVaults s) (vID x) = None"
    and fresh: "find (\<lambda>vault. vOwnerKey vault = vOwnerKey x) (map snd (msVaults s)) = None"
    using ok by (auto simp: memInsertVault_def memVaultByOwner_def split: if_splits)
  have "vaults_ok (AList.update (vID x) x (msVaults s))"
    using inv id find_no_value [OF _ fresh]
    by (intro vaults_ok_update) (auto simp: minv_def vaults_ok_def)
  then show "minv s'" using inv by (simp add: s' minv_def)
  show "map_of (msVaults s) (vID x) = None" by (rule none)
  show "mview s' = (mview s)\<lparr>wVault := (wVault (mview s))(vID x \<mapsto> x)\<rparr>"
    by (simp add: s' mview_def go_simps)
qed

lemma memUpdateVault_spec:
  assumes inv: "minv s" and y: "map_of (msVaults s) (vID x) = Some y" "vOwnerKey y = vOwnerKey x"
    and put: "memUpdateVault x s = Inr s'"
  shows "minv s' \<and> mview s' = (mview s)\<lparr>wVault := (map_of (msVaults s))(vID x \<mapsto> x)\<rparr>"
proof -
  note vs = minvD(1) [OF inv]
  have s': "s' = s\<lparr>msVaults := AList.update (vID x) x (msVaults s)\<rparr>"
    using put y by (simp add: memUpdateVault_def)
  have "vaults_ok (AList.update (vID x) x (msVaults s))"
  proof (rule vaults_ok_update [OF vs])
    show "opaqueID (vID x)" using vaults_okD(2) [OF vs y(1)] by simp
    show "k = vID x" if "map_of (msVaults s) k = Some z" "vOwnerKey z = vOwnerKey x" for k z
      using vaults_okD(3) [OF vs that(1) y(1)] that(2) y(2) by simp
  qed
  then show ?thesis using inv by (simp add: s' minv_def mview_def go_simps)
qed

lemma vaults_ok_delete: "vaults_ok m \<Longrightarrow> vaults_ok (AList.delete v m)"
  unfolding vaults_ok_def by (auto simp: go_simps split: if_splits)

lemma tokens_ok_delete_where: "gomap_ok m \<Longrightarrow> tokens_ok m \<Longrightarrow> tokens_ok (delete_where P m)"
  unfolding tokens_ok_def by (simp add: go_simps split: option.splits if_splits)

lemma memDeleteVault_spec:
  assumes inv: "minv s" and id: "opaqueID v" and ok: "memDeleteVault v s = Inr s'"
  shows "minv s'"
    "mview s' = (mview s)\<lparr>wVault := (wVault (mview s))(v := None),
        wDevice := (wDevice (mview s))(v := (\<lambda>_. None)), wEntries := (wEntries (mview s))(v := []),
        wPackage := (wPackage (mview s))(v := (\<lambda>_. None)), wHeader := (wHeader (mview s))(v := (\<lambda>_. None)),
        wCipher := (wCipher (mview s))(v := (\<lambda>_. None)), wPairing := (wPairing (mview s))(v := (\<lambda>_. None)),
        wCheckpoint := (wCheckpoint (mview s))(v := (\<lambda>_. None))\<rparr>"
proof -
  note tables = minvD [OF inv]
  have hd: "headersOf s' = (headersOf s)(v := [])"
    using ok by (auto simp: memDeleteVault_def headersOf_def go_simps)
  have ct: "ciphertextsOf s' = (ciphertextsOf s)(v := [])"
    using ok by (auto simp: memDeleteVault_def ciphertextsOf_def go_simps)
  have en: "entriesOf s' = (entriesOf s)(v := [])"
    using ok by (auto simp: memDeleteVault_def entriesOf_def go_simps)
  have headers: "headers_ok s'"
    using ok tables(6) by (auto simp: headers_ok_def hd memDeleteVault_def go_simps split: if_splits)
  have ciphers: "ciphers_ok s'"
    using ok tables(7) by (auto simp: ciphers_ok_def memDeleteVault_def go_simps split: if_splits)
  show "minv s'"
    using ok headers ciphers tables
    by (auto simp: minv_def memDeleteVault_def vaults_ok_delete table_ok_delete_where
        tokens_ok_delete_where table_gomap)
  show "mview s' = (mview s)\<lparr>wVault := (wVault (mview s))(v := None),
        wDevice := (wDevice (mview s))(v := (\<lambda>_. None)), wEntries := (wEntries (mview s))(v := []),
        wPackage := (wPackage (mview s))(v := (\<lambda>_. None)), wHeader := (wHeader (mview s))(v := (\<lambda>_. None)),
        wCipher := (wCipher (mview s))(v := (\<lambda>_. None)), wPairing := (wPairing (mview s))(v := (\<lambda>_. None)),
        wCheckpoint := (wCheckpoint (mview s))(v := (\<lambda>_. None))\<rparr>"
    using ok tables
    by (auto simp: mview_def hd ct en rows_at_delete_vault memDeleteVault_def go_simps fun_eq_iff)
qed

interpretation mem_vaults: tx_vaults memTx mview minv
proof
  fix s v v' x x' y own s'
  assume inv: "minv s"
  note vs = vaults_okD [OF minvD(1) [OF inv]]
  show "wVault (mview s) v = Some x \<Longrightarrow> vID x = v \<and> opaqueID v"
    unfolding mview_sel by (rule vs(2))
  show "wVault (mview s) v = Some x \<Longrightarrow> wVault (mview s) v' = Some x' \<Longrightarrow> vOwnerKey x = vOwnerKey x' \<Longrightarrow> v = v'"
    unfolding mview_sel by (rule vs(3))
  show "txVaultByOwner memTx own s = Inr x \<Longrightarrow> wVault (mview s) (vID x) = Some x \<and> vOwnerKey x = own"
    using find_value [OF vs(1), of "\<lambda>vault. vOwnerKey vault = own" x] vs(2) [of _ x]
    by (auto simp: memVaultByOwner_def)
  show "txVaultByOwner memTx own s = Inl ErrNotFound \<Longrightarrow> wVault (mview s) v = Some x \<Longrightarrow> vOwnerKey x \<noteq> own"
    using find_no_value [OF vs(1), of "\<lambda>vault. vOwnerKey vault = own" v x] by (auto simp: memVaultByOwner_def)
  show "opaqueID (vID x) \<Longrightarrow> txInsertVault memTx x s = Inr s' \<Longrightarrow>
      wVault (mview s) (vID x) = None \<and> minv s' \<and>
      mview s' = (mview s)\<lparr>wVault := (wVault (mview s))(vID x \<mapsto> x)\<rparr>"
    using memInsertVault_spec [OF inv, of x s'] by simp
  show "wVault (mview s) (vID x) = Some y \<Longrightarrow> vOwnerKey y = vOwnerKey x \<Longrightarrow>
      txUpdateVault memTx x s = Inr s' \<Longrightarrow> minv s' \<and>
      mview s' = (mview s)\<lparr>wVault := (wVault (mview s))(vID x \<mapsto> x)\<rparr>"
    unfolding mview_sel memTx_sel by (rule memUpdateVault_spec [OF inv])
  show "opaqueID v \<Longrightarrow> txDeleteVault memTx v s = Inr s' \<Longrightarrow> minv s' \<and>
      mview s' = (mview s)\<lparr>wVault := (wVault (mview s))(v := None),
        wDevice := (wDevice (mview s))(v := (\<lambda>_. None)), wEntries := (wEntries (mview s))(v := []),
        wPackage := (wPackage (mview s))(v := (\<lambda>_. None)), wHeader := (wHeader (mview s))(v := (\<lambda>_. None)),
        wCipher := (wCipher (mview s))(v := (\<lambda>_. None)), wPairing := (wPairing (mview s))(v := (\<lambda>_. None)),
        wCheckpoint := (wCheckpoint (mview s))(v := (\<lambda>_. None))\<rparr>"
    using memDeleteVault_spec [OF inv, of v s'] by simp
qed

section \<open>The device methods keep their contract\<close>

lemma foldl_skip:
  "foldl (\<lambda>b x. if \<not> P x then b else f b x) b xs = foldl f b (filter P xs)"
  by (induction xs arbitrary: b) auto

lemma preferDevice_cases:
  "preferDevice b d = b \<and> dDeviceID b \<noteq> [] \<and> (dState b = DeviceRevoked \<longrightarrow> dState d = DeviceRevoked) \<or>
   preferDevice b d = d \<and> (dDeviceID b = [] \<or> dState b = DeviceRevoked \<or> dState b = dState d)"
  by (auto simp: preferDevice_def)

lemma preferDevice_fold:
  assumes "\<forall>d \<in> set ds. dDeviceID d \<noteq> []"
  shows "(foldl preferDevice b ds = b \<or> foldl preferDevice b ds \<in> set ds) \<and>
    (dDeviceID (foldl preferDevice b ds) = [] \<longrightarrow> dDeviceID b = [] \<and> ds = []) \<and>
    (dState (foldl preferDevice b ds) = DeviceRevoked \<and> dDeviceID (foldl preferDevice b ds) \<noteq> [] \<longrightarrow>
      (\<forall>d \<in> set ds. dState d = DeviceRevoked) \<and> (dDeviceID b = [] \<or> dState b = DeviceRevoked))"
  using assms
proof (induction ds arbitrary: b)
  case (Cons d ds)
  show ?case
    using Cons.IH [of "preferDevice b d"] Cons.prems preferDevice_cases [of b d] by auto
qed simp

lemma memDeviceByToken_fold:
  "memDeviceByToken v tok s =
     (let best = foldl preferDevice zeroDevice
        (filter (\<lambda>d. dTokenDeviceID d = tok) (filter (\<lambda>d. dVaultID d = v) (map snd (msDevices s))))
      in if dDeviceID best = [] then Inl ErrNotFound else Inr best)"
  using foldl_skip [of "\<lambda>d. dVaultID d = v \<and> dTokenDeviceID d = tok" preferDevice zeroDevice]
  by (simp add: memDeviceByToken_def conj_commute disj_commute)

lemma preferDevice_zero:
  assumes "\<forall>d \<in> set ds. dDeviceID d \<noteq> []"
  shows "dDeviceID (foldl preferDevice zeroDevice ds) = [] \<Longrightarrow> ds = []"
    and "dDeviceID (foldl preferDevice zeroDevice ds) \<noteq> [] \<Longrightarrow> foldl preferDevice zeroDevice ds \<in> set ds"
    and "dDeviceID (foldl preferDevice zeroDevice ds) \<noteq> [] \<Longrightarrow>
      dState (foldl preferDevice zeroDevice ds) = DeviceRevoked \<Longrightarrow> d \<in> set ds \<Longrightarrow> dState d = DeviceRevoked"
proof -
  have zero: "dDeviceID zeroDevice = []" by (simp add: zeroDevice_def)
  note fold = preferDevice_fold [OF assms, of zeroDevice]
  show "dDeviceID (foldl preferDevice zeroDevice ds) = [] \<Longrightarrow> ds = []" using fold by blast
  show "dDeviceID (foldl preferDevice zeroDevice ds) \<noteq> [] \<Longrightarrow> foldl preferDevice zeroDevice ds \<in> set ds"
    using fold zero by (cases "foldl preferDevice zeroDevice ds = zeroDevice") (simp, blast)
  show "dDeviceID (foldl preferDevice zeroDevice ds) \<noteq> [] \<Longrightarrow>
      dState (foldl preferDevice zeroDevice ds) = DeviceRevoked \<Longrightarrow> d \<in> set ds \<Longrightarrow> dState d = DeviceRevoked"
    using fold by blast
qed

lemma memDeviceByToken_spec:
  assumes "minv s" "opaqueID v"
  shows "memDeviceByToken v tok s = Inr d \<Longrightarrow>
      rows_at dVaultID dDeviceID (msDevices s) v (dDeviceID d) = Some d \<and> dTokenDeviceID d = tok \<and>
      (dState d = DeviceRevoked \<longrightarrow> (\<forall>i e. rows_at dVaultID dDeviceID (msDevices s) v i = Some e \<and>
        dTokenDeviceID e = tok \<longrightarrow> dState e = DeviceRevoked))"
    and "memDeviceByToken v tok s = Inl ErrNotFound \<Longrightarrow>
      rows_at dVaultID dDeviceID (msDevices s) v i = Some e \<Longrightarrow> dTokenDeviceID e \<noteq> tok"
proof -
  note ok = minvD(2) [OF assms(1)]
  define ds where "ds = filter (\<lambda>d. dTokenDeviceID d = tok) (filter (\<lambda>d. dVaultID d = v) (map snd (msDevices s)))"
  define best where "best = foldl preferDevice zeroDevice ds"
  have run: "memDeviceByToken v tok s = (if dDeviceID best = [] then Inl ErrNotFound else Inr best)"
    unfolding memDeviceByToken_fold Let_def best_def ds_def ..
  have mem: "e \<in> set ds \<longleftrightarrow> (\<exists>i. rows_at dVaultID dDeviceID (msDevices s) v i = Some e) \<and> dTokenDeviceID e = tok" for e
    unfolding ds_def set_filter [of "\<lambda>d. dTokenDeviceID d = tok"] mem_Collect_eq table_rows [OF ok] ..
  have ids: "\<forall>d \<in> set ds. dDeviceID d \<noteq> []"
  proof
    fix e
    assume "e \<in> set ds"
    then obtain i where i: "rows_at dVaultID dDeviceID (msDevices s) v i = Some e" using mem by blast
    show "dDeviceID e \<noteq> []" using rows_at_opaque [OF ok i] rows_at_key [OF i] opaqueID_not_Nil [of i] by simp
  qed
  note best = preferDevice_zero [OF ids, folded best_def]
  show "memDeviceByToken v tok s = Inr d \<Longrightarrow>
      rows_at dVaultID dDeviceID (msDevices s) v (dDeviceID d) = Some d \<and> dTokenDeviceID d = tok \<and>
      (dState d = DeviceRevoked \<longrightarrow> (\<forall>i e. rows_at dVaultID dDeviceID (msDevices s) v i = Some e \<and>
        dTokenDeviceID e = tok \<longrightarrow> dState e = DeviceRevoked))"
  proof -
    assume "memDeviceByToken v tok s = Inr d"
    then have d: "best = d" "dDeviceID best \<noteq> []" unfolding run by (auto split: if_splits)
    obtain i where i: "rows_at dVaultID dDeviceID (msDevices s) v i = Some d" "dTokenDeviceID d = tok"
      using best(2) [OF d(2)] mem unfolding d(1) by blast
    then show ?thesis using rows_at_key [OF i(1)] best(3) [OF d(2)] mem unfolding d(1) by blast
  qed
  show "memDeviceByToken v tok s = Inl ErrNotFound \<Longrightarrow>
      rows_at dVaultID dDeviceID (msDevices s) v i = Some e \<Longrightarrow> dTokenDeviceID e \<noteq> tok"
  proof -
    assume "memDeviceByToken v tok s = Inl ErrNotFound"
    then have "ds = []" using best(1) unfolding run by (auto split: if_splits)
    then have "e \<notin> set ds" by simp
    then show "rows_at dVaultID dDeviceID (msDevices s) v i = Some e \<Longrightarrow> dTokenDeviceID e \<noteq> tok"
      using mem by blast
  qed
qed

lemma tokens_ok_update:
  assumes ok: "table_ok dVaultID dDeviceID m" "tokens_ok m" "opaqueID (dVaultID d)"
    and free: "dState d \<noteq> DeviceRevoked \<Longrightarrow> \<not> list_ex (\<lambda>existing. dVaultID existing = dVaultID d \<and>
      dTokenDeviceID existing = dTokenDeviceID d \<and> dDeviceID existing \<noteq> dDeviceID d \<and>
      dState existing \<noteq> DeviceRevoked) (map snd m)"
  shows "tokens_ok (AList.update (key [dVaultID d, dDeviceID d]) d m)"
proof -
  have other: "dDeviceID e = dDeviceID d"
    if "map_of m k = Some e" "dVaultID e = dVaultID d" "dTokenDeviceID e = dTokenDeviceID d"
      "dState e \<noteq> DeviceRevoked" "dState d \<noteq> DeviceRevoked" for k e
    using that free gomap_values [OF table_gomap [OF ok(1)], of e] unfolding list_ex_iff by blast
  show ?thesis
    unfolding tokens_ok_def map_of_update
  proof (intro allI impI, elim conjE)
    fix k x k' y
    assume kx: "((map_of m)(key [dVaultID d, dDeviceID d] \<mapsto> d)) k = Some x"
      and ky: "((map_of m)(key [dVaultID d, dDeviceID d] \<mapsto> d)) k' = Some y"
      and eqs: "dVaultID x = dVaultID y" "dTokenDeviceID x = dTokenDeviceID y"
        "dState x \<noteq> DeviceRevoked" "dState y \<noteq> DeviceRevoked"
    have "x = d \<or> map_of m k = Some x" "y = d \<or> map_of m k' = Some y"
      using kx ky by (auto split: if_splits)
    then show "dDeviceID x = dDeviceID y"
    proof (elim disjE)
      assume "map_of m k = Some x" "map_of m k' = Some y"
      then show ?thesis using eqs ok(2) unfolding tokens_ok_def by blast
    qed (use eqs other [of k x] other [of k' y] in simp_all)
  qed
qed

lemma memPutDevice_spec:
  assumes inv: "minv s" and id: "opaqueID (dVaultID d)" "opaqueID (dDeviceID d)" and put: "memPutDevice d s = Inr s'"
  shows "minv s' \<and> mview s' = (mview s)\<lparr>wDevice := (wDevice (mview s))(dVaultID d :=
        (wDevice (mview s) (dVaultID d))(dDeviceID d \<mapsto> d))\<rparr>"
proof -
  note ok = minvD(2,3) [OF inv]
  let ?m = "AList.update (key [dVaultID d, dDeviceID d]) d (msDevices s)"
  have s': "s' = s\<lparr>msDevices := ?m\<rparr>"
    using put by (auto simp: memPutDevice_def split: if_splits)
  have "tokens_ok ?m"
    using put by (intro tokens_ok_update ok id) (auto simp: memPutDevice_def split: if_splits)
  then show ?thesis
    using inv id table_ok_update [of dVaultID dDeviceID "msDevices s" d] rows_at_update [OF ok(1) id(1)]
    by (simp add: s' minv_def mview_def)
qed

lemma entries_page:
  "foldl (\<lambda>out entry. if after < eIndex entry \<and> int (length out) < limit then out @ [entry] else out) acc es =
   acc @ take (nat (limit - int (length acc))) (filter (\<lambda>e. after < eIndex e) es)"
proof (induction es arbitrary: acc)
  case (Cons e es)
  have n: "nat (limit - int (length acc)) = Suc (nat (limit - int (length (acc @ [e]))))"
    if "int (length acc) < limit" using that by auto
  show ?case using Cons.IH n by (auto simp: not_less)
qed simp

lemma memAppendDeviceListEntry_spec:
  assumes inv: "minv s" and put: "memAppendDeviceListEntry e s = Inr s'"
  shows "minv s' \<and> mview s' =
    (mview s)\<lparr>wEntries := (wEntries (mview s))(eVaultID e := wEntries (mview s) (eVaultID e) @ [e])\<rparr>"
proof -
  have s': "s' = s\<lparr>msEntries := AList.update (eVaultID e) (entriesOf s (eVaultID e) @ [e]) (msEntries s)\<rparr>"
    using put by (auto simp: memAppendDeviceListEntry_def Let_def split: if_splits)
  have en: "entriesOf s' = (entriesOf s)(eVaultID e := entriesOf s (eVaultID e) @ [e])"
    by (auto simp: s' entriesOf_def go_simps fun_eq_iff)
  show ?thesis using inv en by (simp add: minv_def mview_def) (simp add: s')
qed

lemma rows_at_token:
  assumes "minv s" "rows_at dVaultID dDeviceID (msDevices s) v i = Some d"
    "rows_at dVaultID dDeviceID (msDevices s) v j = Some e" "dTokenDeviceID d = dTokenDeviceID e"
    "dState d \<noteq> DeviceRevoked" "dState e \<noteq> DeviceRevoked"
  shows "i = j"
proof -
  have "dVaultID d = dVaultID e" using rows_at_key [OF assms(2)] rows_at_key [OF assms(3)] by simp
  then have "dDeviceID d = dDeviceID e"
    using minvD(3) [OF assms(1)] rows_at_map_of [OF assms(2)] rows_at_map_of [OF assms(3)] assms(4-6)
    unfolding tokens_ok_def by blast
  then show ?thesis using rows_at_key [OF assms(2)] rows_at_key [OF assms(3)] by simp
qed

interpretation mem_devices: tx_devices memTx mview minv
proof
  fix s v i j d e ds tok s' es after limit entry
  assume inv: "minv s"
  note ok = minvD(2) [OF inv]
  show "wDevice (mview s) v i = Some d \<Longrightarrow> dVaultID d = v \<and> dDeviceID d = i \<and> opaqueID v \<and> opaqueID i"
    using rows_at_key [of dVaultID dDeviceID _ v i d] rows_at_opaque [OF ok, of v i d] by simp
  show "wDevice (mview s) v i = Some d \<Longrightarrow> wDevice (mview s) v j = Some e \<Longrightarrow>
      dTokenDeviceID d = dTokenDeviceID e \<Longrightarrow> dState d \<noteq> DeviceRevoked \<Longrightarrow> dState e \<noteq> DeviceRevoked \<Longrightarrow> i = j"
    using rows_at_token [OF inv, of v i d j e] by simp
  show "opaqueID v \<Longrightarrow> txDevices memTx v s = Inr ds \<Longrightarrow>
      set ds = {d. \<exists>i. wDevice (mview s) v i = Some d} \<and> distinct (map dDeviceID ds)"
    unfolding mview_sel memTx_sel memDevices_def by (rule table_sorted [OF ok])
  show "opaqueID v \<Longrightarrow> txDevice memTx v i s = Inr d \<Longrightarrow> wDevice (mview s) v i = Some d"
    using table_lookup [OF ok, of v i] by (simp add: memDevice_def)
  show "opaqueID v \<Longrightarrow> txDevice memTx v i s = Inl ErrNotFound \<Longrightarrow> wDevice (mview s) v i = None"
    using table_lookup [OF ok, of v i] by (simp add: memDevice_def)
  show "opaqueID v \<Longrightarrow> txDeviceByToken memTx v tok s = Inr d \<Longrightarrow>
      wDevice (mview s) v (dDeviceID d) = Some d \<and> dTokenDeviceID d = tok \<and>
      (dState d = DeviceRevoked \<longrightarrow>
        (\<forall>i e. wDevice (mview s) v i = Some e \<and> dTokenDeviceID e = tok \<longrightarrow> dState e = DeviceRevoked))"
    unfolding mview_sel memTx_sel by (rule memDeviceByToken_spec(1) [OF inv])
  show "opaqueID v \<Longrightarrow> txDeviceByToken memTx v tok s = Inl ErrNotFound \<Longrightarrow>
      wDevice (mview s) v i = Some d \<Longrightarrow> dTokenDeviceID d \<noteq> tok"
    unfolding mview_sel memTx_sel by (rule memDeviceByToken_spec(2) [OF inv])
  show "opaqueID (dVaultID d) \<Longrightarrow> opaqueID (dDeviceID d) \<Longrightarrow> txPutDevice memTx d s = Inr s' \<Longrightarrow> minv s' \<and>
      mview s' = (mview s)\<lparr>wDevice := (wDevice (mview s))(dVaultID d :=
        (wDevice (mview s) (dVaultID d))(dDeviceID d \<mapsto> d))\<rparr>"
    unfolding memTx_sel by (rule memPutDevice_spec [OF inv])
  show "txDeviceListEntries memTx v after limit s = Inr es \<Longrightarrow>
      es = take (nat limit) (filter (\<lambda>e. after < eIndex e) (wEntries (mview s) v))"
    using entries_page [of after limit "[]" "entriesOf s v"] by (auto simp: memDeviceListEntries_def)
  show "txAppendDeviceListEntry memTx entry s = Inr s' \<Longrightarrow> minv s' \<and>
      mview s' = (mview s)\<lparr>wEntries := (wEntries (mview s))(eVaultID entry := wEntries (mview s) (eVaultID entry) @ [entry])\<rparr>"
    unfolding memTx_sel by (rule memAppendDeviceListEntry_spec [OF inv])
qed

section \<open>The key package methods keep their contract\<close>

interpretation mem_packages: tx_packages memTx mview minv
proof
  fix s v i p s'
  assume inv: "minv s"
  note ok = minvD(5) [OF inv]
  show "wPackage (mview s) v i = Some p \<Longrightarrow> pVaultID (kPackage p) = v \<and> pRecipientDeviceID (kPackage p) = i"
    unfolding mview_sel by (rule rows_at_key)
  show "opaqueID (pVaultID (kPackage p)) \<Longrightarrow> opaqueID (pRecipientDeviceID (kPackage p)) \<Longrightarrow>
      txPutKeyPackage memTx p s = Inr s' \<Longrightarrow> minv s' \<and>
      mview s' = (mview s)\<lparr>wPackage := (wPackage (mview s))(pVaultID (kPackage p) :=
        (wPackage (mview s) (pVaultID (kPackage p)))(pRecipientDeviceID (kPackage p) \<mapsto> p))\<rparr>"
    using inv rows_at_update [OF ok, of p] table_ok_update [OF ok, of p]
    by (auto simp: memPutKeyPackage_def minv_def mview_def)
  show "opaqueID v \<Longrightarrow> txKeyPackage memTx v i s = Inr p \<Longrightarrow> wPackage (mview s) v i = Some p"
    using table_lookup [OF ok, of v i] by (simp add: memKeyPackage_def)
  show "opaqueID v \<Longrightarrow> txKeyPackage memTx v i s = Inl ErrNotFound \<Longrightarrow> wPackage (mview s) v i = None"
    using table_lookup [OF ok, of v i] by (simp add: memKeyPackage_def)
  show "opaqueID v \<Longrightarrow> txDeleteKeyPackages memTx v s = Inr s' \<Longrightarrow> minv s' \<and>
      mview s' = (mview s)\<lparr>wPackage := (wPackage (mview s))(v := (\<lambda>_. None))\<rparr>"
    using inv rows_at_delete_vault [OF ok, of v] table_ok_delete_where [OF ok]
    by (auto simp: memDeleteKeyPackages_def minv_def mview_def)
qed

section \<open>The header methods keep their contract\<close>

lemma headersOf_update: "headersOf (s\<lparr>msHeaders := AList.update v m (msHeaders s)\<rparr>) = (headersOf s)(v := m)"
  by (auto simp: headersOf_def go_simps fun_eq_iff)

lemma put_headers:
  assumes inv: "minv s" and m: "gomap_ok m"
    "\<And>r h. map_of m r = Some h \<Longrightarrow> hVaultID (shHeader h) = v \<and> hRevision (shHeader h) = r"
    and s': "s' = s\<lparr>msHeaders := AList.update v m (msHeaders s)\<rparr>"
  shows "minv s' \<and> mview s' = (mview s)\<lparr>wHeader := (wHeader (mview s))(v := map_of m)\<rparr>"
proof -
  have upd: "headersOf s' = (headersOf s)(v := m)" unfolding s' by (rule headersOf_update)
  have "headers_ok s'"
    using minvD(6) [OF inv] m unfolding headers_ok_def upd by (auto simp: s' go_simps)
  then have "minv s'" using inv by (simp add: minv_def s')
  moreover have "(\<lambda>w. map_of (headersOf s' w)) = (\<lambda>w. map_of (headersOf s w))(v := map_of m)"
    by (auto simp: upd)
  then have "mview s' = (mview s)\<lparr>wHeader := (wHeader (mview s))(v := map_of m)\<rparr>"
    unfolding mview_def by (simp add: s')
  ultimately show ?thesis by simp
qed

lemma memInsertHeader_spec:
  assumes inv: "minv s" and put: "memInsertHeader h s = Inr s'"
  shows "wHeader (mview s) (hVaultID (shHeader h)) (hRevision (shHeader h)) = None \<and> minv s' \<and>
    mview s' = (mview s)\<lparr>wHeader := (wHeader (mview s))(hVaultID (shHeader h) :=
        (wHeader (mview s) (hVaultID (shHeader h)))(hRevision (shHeader h) \<mapsto> h))\<rparr>"
proof -
  let ?v = "hVaultID (shHeader h)" and ?r = "hRevision (shHeader h)"
  let ?m = "AList.update ?r h (headersOf s ?v)"
  note ok = headers_okD [OF minvD(6) [OF inv], of ?v]
  have new: "map_of (headersOf s ?v) ?r = None"
    and s': "s' = s\<lparr>msHeaders := AList.update ?v ?m (msHeaders s)\<rparr>"
    using put by (auto simp: memInsertHeader_def Let_def split: if_splits)
  have "minv s' \<and> mview s' = (mview s)\<lparr>wHeader := (wHeader (mview s))(?v := map_of ?m)\<rparr>"
  proof (rule put_headers [OF inv _ _ s'])
    show "gomap_ok ?m" using ok(1) by simp
    show "hVaultID (shHeader g) = ?v \<and> hRevision (shHeader g) = r" if "map_of ?m r = Some g" for r g
      using that ok(2) [of r g] by (cases "r = ?r") (simp_all add: go_simps)
  qed
  with new show ?thesis unfolding mview_sel map_of_update by simp
qed

lemma memHeaders_page:
  assumes inv: "minv s" and get: "memHeaders v after limit s = Inr hs"
  shows "page (\<lambda>h. hRevision (shHeader h)) {h. \<exists>r. after < r \<and> wHeader (mview s) v r = Some h} limit hs"
proof -
  let ?m = "headersOf s v"
  define rs where "rs = sort (filter (\<lambda>r. after < r) (map fst ?m))"
  define xs where "xs = map (\<lambda>r. the (map_of ?m r)) rs"
  note ok = headers_okD [OF minvD(6) [OF inv], of v]
  have rs: "set rs = {r. after < r \<and> map_of ?m r \<noteq> None}"
    by (auto simp: rs_def map_of_eq_None_iff)
  have row: "hRevision (shHeader (the (map_of ?m r))) = r" if "r \<in> set rs" for r
    using that ok(2) by (auto simp: rs)
  have "distinct rs" using ok(1) by (auto simp: rs_def gomap_ok_def)
  moreover have "sorted rs" by (simp add: rs_def)
  ultimately have "sorted_wrt (<) rs" by (simp add: strict_sorted_iff)
  then have "sorted_wrt (\<lambda>a b. hRevision (shHeader a) < hRevision (shHeader b)) xs"
    unfolding xs_def sorted_wrt_map by (rule sorted_wrt_mono_rel [rotated]) (simp add: row)
  moreover have "set xs = {h. \<exists>r. after < r \<and> wHeader (mview s) v r = Some h}"
    by (force simp: xs_def rs)
  moreover have "hs = take (nat limit) xs"
    using get by (simp add: memHeaders_def xs_def rs_def Let_def take_map)
  ultimately show ?thesis unfolding page_def by blast
qed

lemma laterHeader_fold:
  "(case foldl laterHeader acc hs of
      None \<Rightarrow> acc = None \<and> hs = []
    | Some h \<Rightarrow> (acc = Some h \<or> h \<in> set hs) \<and> (\<forall>g \<in> set hs. hRevision (shHeader g) \<le> hRevision (shHeader h)) \<and>
        (\<forall>g. acc = Some g \<longrightarrow> hRevision (shHeader g) \<le> hRevision (shHeader h)))"
proof (induction hs arbitrary: acc)
  case (Cons h hs)
  have step: "laterHeader acc h = Some h \<and> (\<forall>g. acc = Some g \<longrightarrow> hRevision (shHeader g) \<le> hRevision (shHeader h)) \<or>
    laterHeader acc h = acc \<and> (\<exists>g. acc = Some g \<and> hRevision (shHeader h) \<le> hRevision (shHeader g))"
    by (cases acc) (auto simp: laterHeader_def)
  show ?case
  proof (cases "foldl laterHeader acc (h # hs)")
    case None
    then show ?thesis using step Cons.IH [of "laterHeader acc h"] by auto
  next
    case (Some x)
    then show ?thesis using step Cons.IH [of "laterHeader acc h"] by (auto intro: order.trans)
  qed
qed (auto split: option.splits)

lemma memLatestHeader_spec:
  assumes inv: "minv s"
  shows "memLatestHeader v s = Inr h \<Longrightarrow> wHeader (mview s) v (hRevision (shHeader h)) = Some h \<and>
      (\<forall>r g. wHeader (mview s) v r = Some g \<longrightarrow> r \<le> hRevision (shHeader h))"
    and "memLatestHeader v s = Inl ErrNotFound \<Longrightarrow> wHeader (mview s) v r = None"
proof -
  let ?m = "headersOf s v"
  note ok = headers_okD [OF minvD(6) [OF inv], of v]
  note fold = laterHeader_fold [of None "map snd ?m"]
  have vals: "g \<in> set (map snd ?m) \<longleftrightarrow> (\<exists>r. map_of ?m r = Some g)" for g by (rule gomap_values [OF ok(1)])
  show "wHeader (mview s) v (hRevision (shHeader h)) = Some h \<and>
      (\<forall>r g. wHeader (mview s) v r = Some g \<longrightarrow> r \<le> hRevision (shHeader h))" if "memLatestHeader v s = Inr h"
  proof -
    have f: "foldl laterHeader None (map snd ?m) = Some h" using that by (simp add: memLatestHeader_def)
    then obtain r where r: "map_of ?m r = Some h" using fold vals by auto
    moreover have "q \<le> hRevision (shHeader h)" if "map_of ?m q = Some g" for q g
    proof -
      have "g \<in> set (map snd ?m)" using vals that by blast
      then have "hRevision (shHeader g) \<le> hRevision (shHeader h)" using fold unfolding f option.case by blast
      then show ?thesis using ok(2) [OF that] by simp
    qed
    ultimately show ?thesis using ok(2) [OF r] by simp
  qed
  show "wHeader (mview s) v r = None" if "memLatestHeader v s = Inl ErrNotFound"
  proof -
    have f: "foldl laterHeader None (map snd ?m) = None" using that by (simp add: memLatestHeader_def)
    then have "map snd ?m = []" using fold by (simp only: option.case)
    then show ?thesis by simp
  qed
qed

lemma memPruneHeaders_spec:
  assumes inv: "minv s" and put: "memPruneHeaders v k s = Inr s'"
  shows "minv s' \<and> mview s' =
    (mview s)\<lparr>wHeader := (wHeader (mview s))(v := (\<lambda>r. if r < k then None else wHeader (mview s) v r))\<rparr>"
proof (cases "map_of (msHeaders s) v")
  case None
  then have "headersOf s v = []" by (simp add: headersOf_def)
  then have "(wHeader (mview s))(v := (\<lambda>r. if r < k then None else wHeader (mview s) v r)) = wHeader (mview s)"
    by (auto simp: fun_eq_iff)
  then show ?thesis using put inv None by (simp only: memPruneHeaders_def option.case sum.inject) simp
next
  case (Some m)
  then have m: "headersOf s v = m" by (simp add: headersOf_def)
  note ok = headers_okD [OF minvD(6) [OF inv], of v, unfolded m]
  have "minv s' \<and> mview s' = (mview s)\<lparr>wHeader := (wHeader (mview s))(v := map_of (delete_keys (\<lambda>r. r < k) m))\<rparr>"
  proof (rule put_headers [OF inv])
    show "gomap_ok (delete_keys (\<lambda>r. r < k) m)" using ok(1) by simp
    show "hVaultID (shHeader h) = v \<and> hRevision (shHeader h) = r"
      if "map_of (delete_keys (\<lambda>r. r < k) m) r = Some h" for r h
      using that ok by (auto simp: go_simps split: if_splits)
    show "s' = s\<lparr>msHeaders := AList.update v (delete_keys (\<lambda>r. r < k) m) (msHeaders s)\<rparr>"
      using put Some by (simp add: memPruneHeaders_def)
  qed
  moreover have "map_of (delete_keys (\<lambda>r. r < k) m) = (\<lambda>r. if r < k then None else wHeader (mview s) v r)"
    using ok(1) by (auto simp: go_simps m)
  ultimately show ?thesis by simp
qed

interpretation mem_headers: tx_headers memTx mview minv
proof
  fix s v r h hs s' after limit k
  assume inv: "minv s"
  note ok = headers_okD [OF minvD(6) [OF inv], of v]
  show "wHeader (mview s) v r = Some h \<Longrightarrow> hVaultID (shHeader h) = v \<and> hRevision (shHeader h) = r"
    unfolding mview_sel by (rule ok(2))
  show "txInsertHeader memTx h s = Inr s' \<Longrightarrow>
      wHeader (mview s) (hVaultID (shHeader h)) (hRevision (shHeader h)) = None \<and> minv s' \<and>
      mview s' = (mview s)\<lparr>wHeader := (wHeader (mview s))(hVaultID (shHeader h) :=
        (wHeader (mview s) (hVaultID (shHeader h)))(hRevision (shHeader h) \<mapsto> h))\<rparr>"
    unfolding memTx_sel by (rule memInsertHeader_spec [OF inv])
  show "txHeaders memTx v after limit s = Inr hs \<Longrightarrow>
      page (\<lambda>h. hRevision (shHeader h)) {h. \<exists>r. after < r \<and> wHeader (mview s) v r = Some h} limit hs"
    unfolding memTx_sel by (rule memHeaders_page [OF inv])
  show "txHeader memTx v r s = Inr h \<Longrightarrow> wHeader (mview s) v r = Some h"
    by (simp add: memHeader_def)
  show "txHeader memTx v r s = Inl ErrNotFound \<Longrightarrow> wHeader (mview s) v r = None"
    by (simp add: memHeader_def)
  show "txLatestHeader memTx v s = Inr h \<Longrightarrow>
      wHeader (mview s) v (hRevision (shHeader h)) = Some h \<and>
      (\<forall>r g. wHeader (mview s) v r = Some g \<longrightarrow> r \<le> hRevision (shHeader h))"
    unfolding memTx_sel by (rule memLatestHeader_spec(1) [OF inv])
  show "txLatestHeader memTx v s = Inl ErrNotFound \<Longrightarrow> wHeader (mview s) v r = None"
    unfolding memTx_sel by (rule memLatestHeader_spec(2) [OF inv])
  show "txPruneHeaders memTx v k s = Inr s' \<Longrightarrow> minv s' \<and>
      mview s' = (mview s)\<lparr>wHeader := (wHeader (mview s))(v := (\<lambda>r. if r < k then None else wHeader (mview s) v r))\<rparr>"
    unfolding memTx_sel by (rule memPruneHeaders_spec [OF inv])
qed

section \<open>The ciphertext methods keep their contract\<close>

lemma ciphertextsOf_update:
  "ciphertextsOf (s\<lparr>msCiphertexts := AList.update v m (msCiphertexts s)\<rparr>) = (ciphertextsOf s)(v := m)"
  by (auto simp: ciphertextsOf_def go_simps fun_eq_iff)

lemma put_ciphertexts:
  assumes inv: "minv s" and m: "gomap_ok m"
    and s': "s' = s\<lparr>msCiphertexts := AList.update v m (msCiphertexts s)\<rparr>"
  shows "minv s' \<and> mview s' = (mview s)\<lparr>wCipher := (wCipher (mview s))(v := map_of m)\<rparr>"
proof -
  have upd: "ciphertextsOf s' = (ciphertextsOf s)(v := m)" unfolding s' by (rule ciphertextsOf_update)
  have "ciphers_ok s'"
    using minvD(7) [OF inv] m unfolding ciphers_ok_def by (auto simp: s' go_simps)
  then have "minv s'" using inv by (simp add: minv_def s')
  moreover have "(\<lambda>w. map_of (ciphertextsOf s' w)) = (\<lambda>w. map_of (ciphertextsOf s w))(v := map_of m)"
    by (auto simp: upd)
  then have "mview s' = (mview s)\<lparr>wCipher := (wCipher (mview s))(v := map_of m)\<rparr>"
    unfolding mview_def by (simp add: s')
  ultimately show ?thesis by simp
qed

text \<open>Deleting from the inner map, or from a vault that has none.\<close>

lemma cut_ciphertexts:
  assumes inv: "minv s" and "gomap_ok (f (ciphertextsOf s v))" "f [] = []"
    and put: "(case map_of (msCiphertexts s) v of None \<Rightarrow> Inr s
      | Some m \<Rightarrow> Inr (s\<lparr>msCiphertexts := AList.update v (f m) (msCiphertexts s)\<rparr>)) = (Inr s' :: svc_error + mstate)"
  shows "minv s' \<and> mview s' = (mview s)\<lparr>wCipher := (wCipher (mview s))(v := map_of (f (ciphertextsOf s v)))\<rparr>"
proof (cases "map_of (msCiphertexts s) v")
  case None
  then have "ciphertextsOf s v = []" by (simp add: ciphertextsOf_def)
  then have "(wCipher (mview s))(v := map_of (f (ciphertextsOf s v))) = wCipher (mview s)"
    using assms(3) by (auto simp: fun_eq_iff)
  then show ?thesis using put inv None by (simp only: option.case sum.inject) simp
next
  case (Some m)
  then have m: "ciphertextsOf s v = m" by (simp add: ciphertextsOf_def)
  show ?thesis
    by (rule put_ciphertexts [OF inv assms(2)]) (use put Some in \<open>simp add: m\<close>)
qed

lemma foldl_bytes:
  "gomap_ok m \<Longrightarrow> foldl (\<lambda>total c. total + int (length c)) n (map snd m) = n + cipher_bytes (map_of m)"
proof (induction m arbitrary: n)
  case (Cons kv m)
  obtain k c where kv: "kv = (k, c)" by (cases kv)
  have fresh: "k \<notin> dom (map_of m)" and ok: "gomap_ok m"
    using Cons.prems by (auto simp: gomap_ok_def kv dom_map_of_conv_image_fst)
  have "cipher_bytes (map_of (kv # m)) =
      int (length c) + (\<Sum>r \<in> dom (map_of m). int (length (the (map_of (kv # m) r))))"
    unfolding cipher_bytes_def using fresh by (simp add: kv finite_dom_map_of)
  also have "(\<Sum>r \<in> dom (map_of m). int (length (the (map_of (kv # m) r)))) = cipher_bytes (map_of m)"
    unfolding cipher_bytes_def using fresh by (intro sum.cong) (auto simp: kv)
  finally show ?case using Cons.IH [OF ok, of "n + int (length c)"] by (simp add: kv)
qed (simp add: cipher_bytes_def)

lemma olderCiphertext_fold:
  "(case foldl olderCiphertext acc m of
      None \<Rightarrow> acc = None \<and> m = []
    | Some (r, n) \<Rightarrow> (acc = Some (r, n) \<or> (\<exists>c. (r, c) \<in> set m \<and> n = int (length c))) \<and>
        (\<forall>q \<in> fst ` set m. r \<le> q) \<and> (\<forall>q l. acc = Some (q, l) \<longrightarrow> r \<le> q))"
proof (induction m arbitrary: acc)
  case (Cons rc m)
  obtain r c where rc: "rc = (r, c)" by (cases rc)
  have step: "olderCiphertext acc rc = Some (r, int (length c)) \<and> (\<forall>q l. acc = Some (q, l) \<longrightarrow> r \<le> q) \<or>
    olderCiphertext acc rc = acc \<and> (\<exists>q l. acc = Some (q, l) \<and> q \<le> r)"
    by (cases acc) (auto simp: olderCiphertext_def rc split: if_splits)
  show ?case
  proof (cases "foldl olderCiphertext acc (rc # m)")
    case None
    then show ?thesis using step Cons.IH [of "olderCiphertext acc rc"] by auto
  next
    case (Some x)
    obtain q n where x: "x = (q, n)" by (cases x)
    have f: "foldl olderCiphertext (olderCiphertext acc rc) m = Some (q, n)" using Some x by simp
    note IH = Cons.IH [of "olderCiphertext acc rc", unfolded f option.case prod.case]
    from step show ?thesis
    proof (elim disjE conjE exE)
      assume "olderCiphertext acc rc = Some (r, int (length c))" "\<forall>q l. acc = Some (q, l) \<longrightarrow> r \<le> q"
      with IH show ?thesis unfolding Some x by (auto simp: rc intro: order.trans)
    next
      fix p l
      assume "olderCiphertext acc rc = acc" "acc = Some (p, l)" "p \<le> r"
      with IH show ?thesis unfolding Some x by (auto simp: rc intro: order.trans)
    qed
  qed
qed (auto split: option.splits)

lemma memOldestCiphertext_spec:
  assumes inv: "minv s"
  shows "memOldestCiphertext v s = Inr (r, n) \<Longrightarrow>
      (\<exists>c. wCipher (mview s) v r = Some c \<and> n = int (length c)) \<and> (\<forall>q \<in> dom (wCipher (mview s) v). r \<le> q)"
    and "memOldestCiphertext v s = Inl ErrNotFound \<Longrightarrow> wCipher (mview s) v q = None"
proof -
  let ?m = "ciphertextsOf s v"
  have ok: "gomap_ok ?m" by (rule ciphers_okD [OF minvD(7) [OF inv]])
  note fold = olderCiphertext_fold [of None ?m]
  show "(\<exists>c. wCipher (mview s) v r = Some c \<and> n = int (length c)) \<and> (\<forall>q \<in> dom (wCipher (mview s) v). r \<le> q)"
    if "memOldestCiphertext v s = Inr (r, n)"
  proof -
    have f: "foldl olderCiphertext None ?m = Some (r, n)" using that by (simp add: memOldestCiphertext_def)
    show ?thesis
      using fold unfolding f mview_sel dom_map_of_conv_image_fst
      by (auto simp: gomap_entries [OF ok])
  qed
  show "wCipher (mview s) v q = None" if "memOldestCiphertext v s = Inl ErrNotFound"
  proof -
    have f: "foldl olderCiphertext None ?m = None" using that by (simp add: memOldestCiphertext_def)
    then have "?m = []" using fold by (simp only: option.case)
    then show ?thesis by simp
  qed
qed

interpretation mem_ciphertexts: tx_ciphertexts memTx mview minv
proof
  fix s v r c s' k n
  assume inv: "minv s"
  have ok: "gomap_ok (ciphertextsOf s v)" for v by (rule ciphers_okD [OF minvD(7) [OF inv]])
  show "finite (dom (wCipher (mview s) v))" by (simp add: finite_dom_map_of)
  show "txPutCiphertext memTx v r c s = Inr s' \<Longrightarrow> minv s' \<and>
      mview s' = (mview s)\<lparr>wCipher := (wCipher (mview s))(v := (wCipher (mview s) v)(r \<mapsto> c))\<rparr>"
    using put_ciphertexts [OF inv gomap_ok_update [OF ok [of v], of r c], of s']
    unfolding memTx_sel memPutCiphertext_def mview_sel map_of_update by auto
  show "txCiphertext memTx v r s = Inr c \<Longrightarrow> wCipher (mview s) v r = Some c" by (simp add: memCiphertext_def)
  show "txCiphertext memTx v r s = Inl ErrNotFound \<Longrightarrow> wCipher (mview s) v r = None" by (simp add: memCiphertext_def)
  show "txCiphertextBytes memTx v s = Inr n \<Longrightarrow> n = cipher_bytes (wCipher (mview s) v)"
    using foldl_bytes [OF ok, of 0 v] by (simp add: memCiphertextBytes_def)
  show "txOldestCiphertext memTx v s = Inr (r, n) \<Longrightarrow>
      (\<exists>c. wCipher (mview s) v r = Some c \<and> n = int (length c)) \<and> (\<forall>q \<in> dom (wCipher (mview s) v). r \<le> q)"
    unfolding memTx_sel by (rule memOldestCiphertext_spec(1) [OF inv])
  show "txOldestCiphertext memTx v s = Inl ErrNotFound \<Longrightarrow> wCipher (mview s) v r = None"
    unfolding memTx_sel by (rule memOldestCiphertext_spec(2) [OF inv])
  show "txDeleteCiphertext memTx v r s = Inr s' \<Longrightarrow> minv s' \<and>
      mview s' = (mview s)\<lparr>wCipher := (wCipher (mview s))(v := (wCipher (mview s) v)(r := None))\<rparr>"
    using cut_ciphertexts [of s "AList.delete r" v s', OF inv gomap_ok_delete [OF ok]]
    unfolding memTx_sel memDeleteCiphertext_def mview_sel map_of_delete by simp
  have before: "map_of (delete_keys (\<lambda>r. r < k) (ciphertextsOf s v)) =
      (\<lambda>r. if r < k then None else map_of (ciphertextsOf s v) r)"
    using ok by (auto simp: go_simps)
  show "txDeleteCiphertextsBefore memTx v k s = Inr s' \<Longrightarrow> minv s' \<and>
      mview s' = (mview s)\<lparr>wCipher := (wCipher (mview s))(v := (\<lambda>r. if r < k then None else wCipher (mview s) v r))\<rparr>"
    using cut_ciphertexts [of s "delete_keys (\<lambda>r. r < k)" v s', OF inv gomap_ok_delete_keys [OF ok]]
    unfolding memTx_sel memDeleteCiphertextsBefore_def mview_sel before by (simp add: delete_keys_def)
qed

section \<open>The checkpoint, pairing and nonce methods keep their contract\<close>

interpretation mem_checkpoints: tx_checkpoints memTx mview minv
proof
  fix s v i c cs s'
  assume inv: "minv s"
  note ok = minvD(9) [OF inv]
  show "wCheckpoint (mview s) v i = Some c \<Longrightarrow> cVaultID (scCheckpoint c) = v \<and> cDeviceID (scCheckpoint c) = i"
    unfolding mview_sel by (rule rows_at_key)
  show "opaqueID (cVaultID (scCheckpoint c)) \<Longrightarrow> opaqueID (cDeviceID (scCheckpoint c)) \<Longrightarrow>
      txPutCheckpoint memTx c s = Inr s' \<Longrightarrow> minv s' \<and>
      mview s' = (mview s)\<lparr>wCheckpoint := (wCheckpoint (mview s))(cVaultID (scCheckpoint c) :=
        (wCheckpoint (mview s) (cVaultID (scCheckpoint c)))(cDeviceID (scCheckpoint c) \<mapsto> c))\<rparr>"
    using inv rows_at_update [OF ok, of c] table_ok_update [OF ok, of c]
    by (auto simp: memPutCheckpoint_def minv_def mview_def)
  show "opaqueID v \<Longrightarrow> txCheckpoint memTx v i s = Inr c \<Longrightarrow> wCheckpoint (mview s) v i = Some c"
    using table_lookup [OF ok, of v i] by (simp add: memCheckpoint_def)
  show "opaqueID v \<Longrightarrow> txCheckpoint memTx v i s = Inl ErrNotFound \<Longrightarrow> wCheckpoint (mview s) v i = None"
    using table_lookup [OF ok, of v i] by (simp add: memCheckpoint_def)
  show "opaqueID v \<Longrightarrow> txCheckpoints memTx v s = Inr cs \<Longrightarrow>
      set cs = {c. \<exists>i. wCheckpoint (mview s) v i = Some c}"
    unfolding mview_sel memTx_sel memCheckpoints_def by (rule conjunct1 [OF table_sorted [OF ok]])
  show "opaqueID v \<Longrightarrow> txDeleteCheckpoint memTx v i s = Inr s' \<Longrightarrow> minv s' \<and>
      mview s' = (mview s)\<lparr>wCheckpoint := (wCheckpoint (mview s))(v := (wCheckpoint (mview s) v)(i := None))\<rparr>"
    using inv rows_at_delete [OF ok, of v i] table_ok_delete [OF ok]
    by (auto simp: memDeleteCheckpoint_def minv_def mview_def)
qed

interpretation mem_pairings: tx_pairings memTx mview minv
proof
  fix s v i g gs s' tok now
  assume inv: "minv s"
  note ok = minvD(8) [OF inv]
  show "wPairing (mview s) v i = Some g \<Longrightarrow> gVaultID g = v \<and> gDeviceID g = i \<and> opaqueID v \<and> opaqueID i"
    using rows_at_key [of gVaultID gDeviceID _ v i g] rows_at_opaque [OF ok, of v i g] by simp
  show "opaqueID (gVaultID g) \<Longrightarrow> opaqueID (gDeviceID g) \<Longrightarrow>
      txPutPairing memTx g s = Inr s' \<Longrightarrow> minv s' \<and>
      mview s' = (mview s)\<lparr>wPairing := (wPairing (mview s))(gVaultID g :=
        (wPairing (mview s) (gVaultID g))(gDeviceID g \<mapsto> g))\<rparr>"
    using inv rows_at_update [OF ok, of g] table_ok_update [OF ok, of g]
    by (auto simp: memPutPairing_def minv_def mview_def)
  show "opaqueID v \<Longrightarrow> txPairing memTx v i s = Inr g \<Longrightarrow> wPairing (mview s) v i = Some g"
    using table_lookup [OF ok, of v i] by (simp add: memPairing_def)
  show "opaqueID v \<Longrightarrow> txPairing memTx v i s = Inl ErrNotFound \<Longrightarrow> wPairing (mview s) v i = None"
    using table_lookup [OF ok, of v i] by (simp add: memPairing_def)
  show "opaqueID v \<Longrightarrow> txPairingByToken memTx v tok s = Inr g \<Longrightarrow>
      wPairing (mview s) v (gDeviceID g) = Some g \<and> gTokenDeviceID g = tok"
    using find_value [OF table_gomap [OF ok], of "\<lambda>g. gVaultID g = v \<and> gTokenDeviceID g = tok" g]
      table_row [OF ok, of _ g] by (auto simp: memPairingByToken_def)
  show "opaqueID v \<Longrightarrow> txPairingByToken memTx v tok s = Inl ErrNotFound \<Longrightarrow>
      wPairing (mview s) v i = Some g \<Longrightarrow> gTokenDeviceID g \<noteq> tok"
    using find_no_value [OF table_gomap [OF ok], of "\<lambda>g. gVaultID g = v \<and> gTokenDeviceID g = tok" "key [v, i]" g]
      rows_at_map_of [of gVaultID gDeviceID "msPairings s" v i g] rows_at_key [of gVaultID gDeviceID "msPairings s" v i g]
    by (simp add: memPairingByToken_def)
  show "opaqueID v \<Longrightarrow> txPairings memTx v s = Inr gs \<Longrightarrow>
      set gs = {g. \<exists>i. wPairing (mview s) v i = Some g} \<and> distinct (map gDeviceID gs)"
    unfolding mview_sel memTx_sel memPairings_def by (rule table_sorted [OF ok])
  show "opaqueID v \<Longrightarrow> txDeletePairing memTx v i s = Inr s' \<Longrightarrow> minv s' \<and>
      mview s' = (mview s)\<lparr>wPairing := (wPairing (mview s))(v := (wPairing (mview s) v)(i := None))\<rparr>"
    using inv rows_at_delete [OF ok, of v i] table_ok_delete [OF ok]
    by (auto simp: memDeletePairing_def minv_def mview_def)
  show "txPurgeExpired memTx now s = Inr s' \<Longrightarrow> minv s' \<and>
      mview s' = (mview s)\<lparr>
        wPairing := (\<lambda>v i. case wPairing (mview s) v i of
          Some g \<Rightarrow> if \<not> now < gExpiresAt g then None else Some g | None \<Rightarrow> None),
        wNonce := (\<lambda>sc n. case wNonce (mview s) sc n of
          Some until \<Rightarrow> if \<not> now < until then None else Some until | None \<Rightarrow> None)\<rparr>"
    using inv rows_at_delete_where [OF ok, of "\<lambda>g. \<not> now < gExpiresAt g"] table_ok_delete_where [OF ok]
      map_of_delete_where [OF minvD(10) [OF inv], of "\<lambda>until. \<not> now < until"]
    by (auto simp: memPurgeExpired_def minv_def mview_def fun_eq_iff)
qed

lemma memRecordNonce_spec:
  assumes inv: "minv s" and put: "memRecordNonce sc n now expires s = Inr (fresh, s')"
  shows "minv s' \<and> fresh = (case wNonce (mview s) sc n of None \<Rightarrow> True | Some u \<Rightarrow> \<not> now < u) \<and>
      (if fresh then wNonce (mview s') sc n = Some expires else mview s' = mview s) \<and>
      keeps_live now (mview s) (mview s') \<and> mview s' = (mview s)\<lparr>wNonce := wNonce (mview s')\<rparr>"
proof (cases "\<exists>u. map_of (msNonces s) (key [sc, n]) = Some u \<and> now < u")
  case True
  then have "s' = s" "\<not> fresh" using put by (auto simp: memRecordNonce_def Let_def)
  with True inv show ?thesis by (auto simp: keeps_live_def)
next
  case False
  have s': "s' = s\<lparr>msNonces := AList.update (key [sc, n]) expires (msNonces s)\<rparr>" and fresh: "fresh"
    using put False by (auto simp: memRecordNonce_def Let_def split: option.splits if_splits)
  have "minv s'" using inv by (simp add: s' minv_def)
  moreover have "mview s' = (mview s)\<lparr>wNonce := wNonce (mview s')\<rparr>" by (simp add: s' mview_def)
  moreover have "keeps_live now (mview s) (mview s')"
    using False by (auto simp: keeps_live_def s' go_simps)
  ultimately show ?thesis using False fresh by (auto simp: s' go_simps split: option.splits)
qed

interpretation mem_nonces: tx_nonces memTx mview minv
  by unfold_locales (unfold memTx_sel, rule memRecordNonce_spec)

interpretation mem: sync_tx memTx mview minv
  by unfold_locales

section \<open>Update is transactional\<close>

lemma foldl_copy:
  "distinct (map fst (out @ m)) \<Longrightarrow>
   foldl (\<lambda>out (k, v). AList.update k (f v) out) out m = out @ map (\<lambda>(k, v). (k, f v)) m"
proof (induction m arbitrary: out)
  case (Cons kv m)
  obtain k v where kv: "kv = (k, v)" by (cases kv)
  have "k \<notin> fst ` set out" using Cons.prems by (auto simp: kv)
  then have "AList.update k (f v) out = out @ [(k, f v)]" by (induction out) auto
  moreover have "distinct (map fst ((out @ [(k, f v)]) @ m))" using Cons.prems by (auto simp: kv)
  ultimately show ?case using Cons.IH [of "out @ [(k, f v)]"] by (simp add: kv)
qed simp

lemma copyMap_id: "gomap_ok m \<Longrightarrow> (\<And>k v. map_of m k = Some v \<Longrightarrow> f v = v) \<Longrightarrow> copyMap f m = m"
proof -
  assume ok: "gomap_ok m" and f: "\<And>k v. map_of m k = Some v \<Longrightarrow> f v = v"
  have "copyMap f m = map (\<lambda>(k, v). (k, f v)) m"
    using ok foldl_copy [of "[]" m f] by (simp add: copyMap_def gomap_ok_def)
  also have "\<dots> = m"
    by (rule map_idI) (use f in \<open>auto simp: gomap_entries [OF ok]\<close>)
  finally show ?thesis .
qed

lemma clone_eq:
  assumes "minv s"
  shows "clone s = s"
proof -
  note ok = minvD [OF assms]
  have "copyMap (copyMap id) (msHeaders s) = msHeaders s" "copyMap (copyMap id) (msCiphertexts s) = msCiphertexts s"
    using ok(6,7) by (auto simp: headers_ok_def ciphers_ok_def intro!: copyMap_id)
  then show ?thesis
    using ok vaults_okD(1) [OF ok(1)] by (simp add: clone_def copyMap_id table_gomap)
qed

lemma memUpdate_eq: "minv s \<Longrightarrow> memUpdate fn s = storeUpdate fn s"
  by (simp add: memUpdate_def storeUpdate_def clone_eq)

end
