(* ===== verification/Nonce_Keeper.thy ===== *)
theory Nonce_Keeper
  imports Mem_Contract
begin

text \<open>
  The file nonce_keeper.go of internal/syncsvc: a storage that remembers the nonce a transaction
  has spent and records it again when the transaction is rolled back, so that a request that
  failed cannot be sent a second time.
\<close>

section \<open>Definitions\<close>

record spentNonce =
  snScope :: string
  snNonce :: string
  snNow :: gotime
  snExpires :: gotime

text \<open>
  \<open>nonceTx\<close> embeds the inner transaction: every method is the inner one, except \<open>RecordNonce\<close>.
  Its state is the state of the inner transaction and the field \<open>spent\<close>.
\<close>

definition innerRead :: "('s \<Rightarrow> svc_error + 'a) \<Rightarrow> 's \<times> spentNonce option \<Rightarrow> svc_error + 'a" where
  "innerRead f t = f (fst t)"

definition innerWrite :: "('s \<Rightarrow> svc_error + 's) \<Rightarrow> 's \<times> spentNonce option \<Rightarrow> svc_error + 's \<times> spentNonce option" where
  "innerWrite f t = (case f (fst t) of Inl e \<Rightarrow> Inl e | Inr s \<Rightarrow> Inr (s, snd t))"

definition nonceRecordNonce ::
  "'s Tx \<Rightarrow> string \<Rightarrow> string \<Rightarrow> gotime \<Rightarrow> gotime \<Rightarrow> 's \<times> spentNonce option \<Rightarrow> svc_error + bool \<times> ('s \<times> spentNonce option)"
  where
  "nonceRecordNonce T scope nonce now expiresAt t =
     (case txRecordNonce T scope nonce now expiresAt (fst t) of
        Inl e \<Rightarrow> Inl e
      | Inr (fresh, s) \<Rightarrow>
          Inr (fresh, (s, if fresh then Some \<lparr>snScope = scope, snNonce = nonce, snNow = now, snExpires = expiresAt\<rparr>
                          else snd t)))"

definition nonceTx :: "'s Tx \<Rightarrow> ('s \<times> spentNonce option) Tx" where
  "nonceTx T = \<lparr>txVaultByOwner = (\<lambda>a. innerRead (txVaultByOwner T a)),
     txVaultByID = (\<lambda>a. innerRead (txVaultByID T a)), txInsertVault = (\<lambda>a. innerWrite (txInsertVault T a)),
     txUpdateVault = (\<lambda>a. innerWrite (txUpdateVault T a)), txDeleteVault = (\<lambda>a. innerWrite (txDeleteVault T a)),
     txDevices = (\<lambda>a. innerRead (txDevices T a)), txDevice = (\<lambda>a b. innerRead (txDevice T a b)),
     txDeviceByToken = (\<lambda>a b. innerRead (txDeviceByToken T a b)),
     txPutDevice = (\<lambda>a. innerWrite (txPutDevice T a)),
     txDeviceListEntries = (\<lambda>a b c. innerRead (txDeviceListEntries T a b c)),
     txAppendDeviceListEntry = (\<lambda>a. innerWrite (txAppendDeviceListEntry T a)),
     txPutKeyPackage = (\<lambda>a. innerWrite (txPutKeyPackage T a)),
     txKeyPackage = (\<lambda>a b. innerRead (txKeyPackage T a b)),
     txDeleteKeyPackages = (\<lambda>a. innerWrite (txDeleteKeyPackages T a)),
     txInsertHeader = (\<lambda>a. innerWrite (txInsertHeader T a)),
     txHeaders = (\<lambda>a b c. innerRead (txHeaders T a b c)), txHeader = (\<lambda>a b. innerRead (txHeader T a b)),
     txLatestHeader = (\<lambda>a. innerRead (txLatestHeader T a)),
     txPruneHeaders = (\<lambda>a b. innerWrite (txPruneHeaders T a b)),
     txPutCiphertext = (\<lambda>a b c. innerWrite (txPutCiphertext T a b c)),
     txCiphertext = (\<lambda>a b. innerRead (txCiphertext T a b)),
     txCiphertextBytes = (\<lambda>a. innerRead (txCiphertextBytes T a)),
     txOldestCiphertext = (\<lambda>a. innerRead (txOldestCiphertext T a)),
     txDeleteCiphertext = (\<lambda>a b. innerWrite (txDeleteCiphertext T a b)),
     txDeleteCiphertextsBefore = (\<lambda>a b. innerWrite (txDeleteCiphertextsBefore T a b)),
     txPutCheckpoint = (\<lambda>a. innerWrite (txPutCheckpoint T a)),
     txCheckpoint = (\<lambda>a b. innerRead (txCheckpoint T a b)),
     txCheckpoints = (\<lambda>a. innerRead (txCheckpoints T a)),
     txDeleteCheckpoint = (\<lambda>a b. innerWrite (txDeleteCheckpoint T a b)),
     txPutPairing = (\<lambda>a. innerWrite (txPutPairing T a)), txPairing = (\<lambda>a b. innerRead (txPairing T a b)),
     txPairingByToken = (\<lambda>a b. innerRead (txPairingByToken T a b)),
     txPairings = (\<lambda>a. innerRead (txPairings T a)),
     txDeletePairing = (\<lambda>a b. innerWrite (txDeletePairing T a b)),
     txRecordNonce = nonceRecordNonce T, txPurgeExpired = (\<lambda>a. innerWrite (txPurgeExpired T a))\<rparr>"

text \<open>
  \<open>Update\<close>: the variable \<open>tracked\<close> survives the rollback of the transaction, so the function
  passed to the inner \<open>Update\<close> returns its \<open>spent\<close> field beside the error.
\<close>

definition trackNonce ::
  "('s \<times> spentNonce option, svc_error, 'a) txm \<Rightarrow> ('s, svc_error \<times> spentNonce option, 'a) txm" where
  "trackNonce fn inner =
     (case fn (inner, None) of
        (Inl e, (s, spent)) \<Rightarrow> (Inl (e, spent), s)
      | (Inr x, (s, spent)) \<Rightarrow> (Inr x, s))"

definition respendNonce :: "'s Tx \<Rightarrow> spentNonce \<Rightarrow> ('s, svc_error, unit) txm" where
  "respendNonce T spent s =
     (case txRecordNonce T (snScope spent) (snNonce spent) (snNow spent) (snExpires spent) s of
        Inl e \<Rightarrow> (Inl e, s)
      | Inr (_, s') \<Rightarrow> (Inr (), s'))"

definition keeperUpdate :: "'s Tx \<Rightarrow> ('s \<times> spentNonce option, svc_error, 'a) txm \<Rightarrow> ('s, svc_error, 'a) txm" where
  "keeperUpdate T fn s =
     (case storeUpdate (trackNonce fn) s of
        (Inr x, s') \<Rightarrow> (Inr x, s')
      | (Inl (e, None), s') \<Rightarrow> (Inl e, s')
      | (Inl (e, Some spent), s') \<Rightarrow> (Inl e, snd (storeUpdate (respendNonce T spent) s')))"

definition keeperView :: "('s, svc_error, 'a) txm \<Rightarrow> ('s, svc_error, 'a) txm" where
  "keeperView fn = storeView fn"

section \<open>The tracking transaction keeps the contract\<close>

lemma innerRead_eq [simp]: "innerRead f t = f (fst t)"
  by (simp add: innerRead_def)

lemma innerWrite_ok [simp]: "innerWrite f t = Inr t' \<longleftrightarrow> f (fst t) = Inr (fst t') \<and> snd t' = snd t"
  by (cases t') (auto simp: innerWrite_def split: sum.splits)

lemma nonceTx_sel [simp]:
  "txVaultByOwner (nonceTx T) a = innerRead (txVaultByOwner T a)"
  "txVaultByID (nonceTx T) a = innerRead (txVaultByID T a)"
  "txInsertVault (nonceTx T) v = innerWrite (txInsertVault T v)"
  "txUpdateVault (nonceTx T) v = innerWrite (txUpdateVault T v)"
  "txDeleteVault (nonceTx T) a = innerWrite (txDeleteVault T a)"
  "txDevices (nonceTx T) a = innerRead (txDevices T a)"
  "txDevice (nonceTx T) a b = innerRead (txDevice T a b)"
  "txDeviceByToken (nonceTx T) a b = innerRead (txDeviceByToken T a b)"
  "txPutDevice (nonceTx T) d = innerWrite (txPutDevice T d)"
  "txDeviceListEntries (nonceTx T) a n l = innerRead (txDeviceListEntries T a n l)"
  "txAppendDeviceListEntry (nonceTx T) e = innerWrite (txAppendDeviceListEntry T e)"
  "txPutKeyPackage (nonceTx T) k = innerWrite (txPutKeyPackage T k)"
  "txKeyPackage (nonceTx T) a b = innerRead (txKeyPackage T a b)"
  "txDeleteKeyPackages (nonceTx T) a = innerWrite (txDeleteKeyPackages T a)"
  "txInsertHeader (nonceTx T) h = innerWrite (txInsertHeader T h)"
  "txHeaders (nonceTx T) a n l = innerRead (txHeaders T a n l)"
  "txHeader (nonceTx T) a n = innerRead (txHeader T a n)"
  "txLatestHeader (nonceTx T) a = innerRead (txLatestHeader T a)"
  "txPruneHeaders (nonceTx T) a n = innerWrite (txPruneHeaders T a n)"
  "txPutCiphertext (nonceTx T) a n c = innerWrite (txPutCiphertext T a n c)"
  "txCiphertext (nonceTx T) a n = innerRead (txCiphertext T a n)"
  "txCiphertextBytes (nonceTx T) a = innerRead (txCiphertextBytes T a)"
  "txOldestCiphertext (nonceTx T) a = innerRead (txOldestCiphertext T a)"
  "txDeleteCiphertext (nonceTx T) a n = innerWrite (txDeleteCiphertext T a n)"
  "txDeleteCiphertextsBefore (nonceTx T) a n = innerWrite (txDeleteCiphertextsBefore T a n)"
  "txPutCheckpoint (nonceTx T) cp = innerWrite (txPutCheckpoint T cp)"
  "txCheckpoint (nonceTx T) a b = innerRead (txCheckpoint T a b)"
  "txCheckpoints (nonceTx T) a = innerRead (txCheckpoints T a)"
  "txDeleteCheckpoint (nonceTx T) a b = innerWrite (txDeleteCheckpoint T a b)"
  "txPutPairing (nonceTx T) g = innerWrite (txPutPairing T g)"
  "txPairing (nonceTx T) a b = innerRead (txPairing T a b)"
  "txPairingByToken (nonceTx T) a b = innerRead (txPairingByToken T a b)"
  "txPairings (nonceTx T) a = innerRead (txPairings T a)"
  "txDeletePairing (nonceTx T) a b = innerWrite (txDeletePairing T a b)"
  "txRecordNonce (nonceTx T) = nonceRecordNonce T"
  "txPurgeExpired (nonceTx T) t = innerWrite (txPurgeExpired T t)"
  by (simp_all add: nonceTx_def)

lemma nonceRecordNonce_ok:
  "nonceRecordNonce T sc n now expires t = Inr (fresh, t') \<longleftrightarrow>
     txRecordNonce T sc n now expires (fst t) = Inr (fresh, fst t') \<and>
     snd t' = (if fresh then Some \<lparr>snScope = sc, snNonce = n, snNow = now, snExpires = expires\<rparr> else snd t)"
  by (cases t') (auto simp: nonceRecordNonce_def split: sum.splits)

context sync_tx
begin

lemmas laws =
    vault_key vault_owner VaultByOwner_ok VaultByOwner_missing InsertVault_ok UpdateVault_ok
    DeleteVault_ok device_key device_token Devices_ok Device_ok Device_missing DeviceByToken_ok
    DeviceByToken_missing PutDevice_ok DeviceListEntries_ok AppendDeviceListEntry_ok package_key
    PutKeyPackage_ok KeyPackage_ok KeyPackage_missing DeleteKeyPackages_ok header_key InsertHeader_ok
    Headers_ok Header_ok Header_missing LatestHeader_ok LatestHeader_missing PruneHeaders_ok
    cipher_finite PutCiphertext_ok Ciphertext_ok Ciphertext_missing CiphertextBytes_ok
    OldestCiphertext_ok OldestCiphertext_missing DeleteCiphertext_ok DeleteCiphertextsBefore_ok
    checkpoint_key PutCheckpoint_ok Checkpoint_ok Checkpoint_missing Checkpoints_ok DeleteCheckpoint_ok
    pairing_key PutPairing_ok Pairing_ok Pairing_missing PairingByToken_ok PairingByToken_missing
    Pairings_ok DeletePairing_ok PurgeExpired_ok RecordNonce_ok

lemma nonce_sync_tx: "sync_tx (nonceTx T) (view \<circ> fst) (inv \<circ> fst)"
  by (unfold_locales; unfold o_apply nonceTx_sel innerRead_eq innerWrite_ok nonceRecordNonce_ok;
      (elim conjE)?; rule laws; assumption)

end

end
