(* ===== verification/Sync_Service.thy ===== *)
theory Sync_Service
  imports Nonce_Keeper
begin

text \<open>
  The files service.go and maintenance.go of internal/syncsvc: the handlers of the sync service.
  A handler is a transaction function over the storage interface, run by \<open>keeperUpdate\<close> or
  \<open>keeperView\<close>.  The parameters are the transaction \<open>T\<close>, the signature functions \<open>ed\<close>, the
  configuration \<open>cf\<close> and the clock \<open>clk\<close>: \<open>clk n\<close> is what the n-th call of \<open>s.now()\<close> on the path of
  the handler returns, where \<open>actorFor\<close> takes reading 0, \<open>verifyRequest\<close> the readings 1 to 3, and
  the rest of a handler the readings from 4.
\<close>

section \<open>Configuration and clock\<close>

record Config =
  cfReceiptKey :: bytes
  cfByteBudget :: int
  cfHeaderRetention :: u64

definition defaultByteBudget :: int where "defaultByteBudget = 128 * 1024 * 1024"
definition Ed25519PrivateKeySize :: nat where "Ed25519PrivateKeySize = 64"

definition NewService :: "Config \<Rightarrow> string + Config" where
  "NewService config =
     (if length (cfReceiptKey config) \<noteq> Ed25519PrivateKeySize
      then Inl ''syncsvc: the receipt key is required''
      else let config = (if cfByteBudget config \<le> 0 then config\<lparr>cfByteBudget := defaultByteBudget\<rparr> else config);
               config = (if cfHeaderRetention config = 0 then config\<lparr>cfHeaderRetention := MaxHeaderRetention\<rparr> else config)
           in Inr config)"

text \<open>\<open>time.Time.Unix\<close> is the number of whole seconds, \<open>unix\<close> the clamped conversion of the service.\<close>

definition goUnix :: "gotime \<Rightarrow> int" where
  "goUnix t = t div second"

definition unix :: "gotime \<Rightarrow> u64" where
  "unix t = (if goUnix t < 0 then 0 else of_int (goUnix t))"

definition invalid :: "proto_error + 'a \<Rightarrow> svc_error + 'a" where
  "invalid r = (case r of Inl e \<Rightarrow> Inl (ErrInvalidProto e) | Inr x \<Rightarrow> Inr x)"

section \<open>Who is calling\<close>

definition callerMissing :: "Caller \<Rightarrow> bool" where
  "callerMissing caller \<longleftrightarrow> caOwnerKey caller = [] \<or> caTokenDeviceID caller = [] \<or> caToken caller = []"

definition pairingActor :: "Vault \<Rightarrow> Pairing \<Rightarrow> Actor" where
  "pairingActor vault pairing =
     \<lparr>aVault = vault,
      aDevice = \<lparr>dVaultID = vID vault, dDeviceID = gDeviceID pairing, dTokenDeviceID = gTokenDeviceID pairing,
        dSigningKey = gSigningKey pairing, dPackageKey = gPackageKey pairing, dState = DevicePending,
        dAddedIndex = 0, dActivatedEpoch = 0, dCreatedAt = 0\<rparr>,
      aPairing = Some pairing\<rparr>"

definition actorFor :: "'s Tx \<Rightarrow> (nat \<Rightarrow> gotime) \<Rightarrow> Caller \<Rightarrow> ('s, svc_error, Actor) txm" where
  "actorFor T clk caller =
     (if callerMissing caller then raise ErrForbidden
      else tryE (readT (txVaultByOwner T (caOwnerKey caller))) (\<lambda>found.
        case found of
          Inl e \<Rightarrow> if e = ErrNotFound then raise ErrNoVault else raise e
        | Inr vault \<Rightarrow>
            tryE (readT (txDeviceByToken T (vID vault) (caTokenDeviceID caller))) (\<lambda>device.
              case device of
                Inr d \<Rightarrow>
                  if dState d \<noteq> DeviceRevoked then ret \<lparr>aVault = vault, aDevice = d, aPairing = None\<rparr>
                  else tryE (readT (txPairingByToken T (vID vault) (caTokenDeviceID caller))) (\<lambda>pairing.
                    case pairing of
                      Inl e \<Rightarrow> if e = ErrNotFound then ret \<lparr>aVault = vault, aDevice = d, aPairing = None\<rparr> else raise e
                    | Inr g \<Rightarrow> if \<not> clk 0 < gExpiresAt g then raise ErrForbidden else ret (pairingActor vault g))
              | Inl e \<Rightarrow>
                  if e \<noteq> ErrNotFound then raise e
                  else tryE (readT (txPairingByToken T (vID vault) (caTokenDeviceID caller))) (\<lambda>pairing.
                    case pairing of
                      Inl e \<Rightarrow> if e = ErrNotFound then raise ErrForbidden else raise e
                    | Inr g \<Rightarrow> if \<not> clk 0 < gExpiresAt g then raise ErrForbidden else ret (pairingActor vault g)))))"

definition recordNonce :: "'s Tx \<Rightarrow> string \<Rightarrow> string \<Rightarrow> gotime \<Rightarrow> gotime \<Rightarrow> ('s, svc_error, bool) txm" where
  "recordNonce T scope nonce now expires s =
     (case txRecordNonce T scope nonce now expires s of Inl e \<Rightarrow> (Inl e, s) | Inr (fresh, s') \<Rightarrow> (Inr fresh, s'))"

definition signedBy :: "Caller \<Rightarrow> SignedRequest \<Rightarrow> RequestSignature" where
  "signedBy caller request =
     \<lparr>rsMethod = rqMethod request, rsTarget = rqTarget request, rsBody = rqBody request,
      rsToken = caToken caller, rsTimestamp = rqTimestamp request, rsNonce = rqNonce request\<rparr>"

definition verifyRequest ::
  "'s Tx \<Rightarrow> ed25519 \<Rightarrow> (nat \<Rightarrow> gotime) \<Rightarrow> string \<Rightarrow> string \<Rightarrow> Caller \<Rightarrow> SignedRequest \<Rightarrow> ('s, svc_error, unit) txm" where
  "verifyRequest T ed clk scope signingKey caller request =
     (if \<not> isOk (requestVerify ed (signedBy caller request) signingKey (rqSignature request) (unix (clk 1)))
      then raise ErrSignature
      else let expires = clk 2 + RequestNonceRetention * second
           in bindE (recordNonce T scope (rqNonce request) (clk 3) expires) (\<lambda>fresh.
              rejectIf (\<not> fresh) ErrReplay))"

definition actorScope :: "Actor \<Rightarrow> string" where
  "actorScope actor = vID (aVault actor) @ ''/'' @ dDeviceID (aDevice actor)"

definition ownerScope :: "Caller \<Rightarrow> string" where
  "ownerScope caller = ''owner/'' @ caOwnerKey caller"

definition signedActor ::
  "'s Tx \<Rightarrow> ed25519 \<Rightarrow> (nat \<Rightarrow> gotime) \<Rightarrow> Caller \<Rightarrow> SignedRequest \<Rightarrow> ('s, svc_error, Actor) txm" where
  "signedActor T ed clk caller request =
     bindE (actorFor T clk caller) (\<lambda>actor.
     bindE (verifyRequest T ed clk (actorScope actor) (dSigningKey (aDevice actor)) caller request) (\<lambda>_.
     ret actor))"

definition requireApproved :: "Actor \<Rightarrow> svc_error + unit" where
  "requireApproved actor =
     (if aPairing actor \<noteq> None \<or> dState (aDevice actor) \<noteq> DeviceApproved then Inl ErrForbidden else Inr ())"

definition requireActivated :: "Actor \<Rightarrow> svc_error + unit" where
  "requireActivated actor =
     (case requireApproved actor of
        Inl e \<Rightarrow> Inl e
      | Inr _ \<Rightarrow> if dActivatedEpoch (aDevice actor) \<noteq> vEpoch (aVault actor) then Inl ErrNotActivated else Inr ())"

section \<open>Loading the stored device list\<close>

fun extendPage :: "ed25519 \<Rightarrow> DeviceList \<Rightarrow> u64 \<Rightarrow> DeviceListEntry list \<Rightarrow> svc_error + DeviceList \<times> u64" where
  "extendPage ed l after [] = Inr (l, after)"
| "extendPage ed l after (entry # entries) =
     (case Extend ed l entry of
        Inl e \<Rightarrow> Inl (ErrStoredList e)
      | Inr l' \<Rightarrow> extendPage ed l' (eIndex entry) entries)"

text \<open>The loop of \<open>loadList\<close>; \<open>fuel\<close> bounds the number of pages.\<close>

fun loadLoop :: "'s Tx \<Rightarrow> ed25519 \<Rightarrow> string \<Rightarrow> nat \<Rightarrow> DeviceList \<Rightarrow> u64 \<Rightarrow> ('s, svc_error, DeviceList) txm" where
  "loadLoop T ed vaultID fuel l after =
     (if fuel = 0 then raise Diverges
      else bindE (readT (txDeviceListEntries T vaultID after MaxEntriesPerPage)) (\<lambda>entries.
           bindE (liftE (extendPage ed l after entries)) (\<lambda>(l', after').
           if int (length entries) < MaxEntriesPerPage then ret l'
           else loadLoop T ed vaultID (fuel - 1) l' after')))"

declare loadLoop.simps [simp del]

definition loadList :: "'s Tx \<Rightarrow> ed25519 \<Rightarrow> string \<Rightarrow> ('s, svc_error, DeviceList) txm" where
  "loadList T ed vaultID = loadLoop T ed vaultID (2 ^ 64) NewDeviceList 0"

section \<open>Creating a vault and pairing a device\<close>

definition createVaultTx ::
  "'s Tx \<Rightarrow> ed25519 \<Rightarrow> (nat \<Rightarrow> gotime) \<Rightarrow> Caller \<Rightarrow> SignedRequest \<Rightarrow> DeviceListEntry \<Rightarrow> ('s, svc_error, Vault) txm" where
  "createVaultTx T ed clk caller request entry =
     (if callerMissing caller then raise ErrForbidden
      else tryE (readT (txVaultByOwner T (caOwnerKey caller))) (\<lambda>owned.
        case owned of
          Inr _ \<Rightarrow> raise ErrVaultExists
        | Inl e \<Rightarrow> if e \<noteq> ErrNotFound then raise e
          else
            bindE (liftE (invalid (VerifyDeviceList ed [entry]))) (\<lambda>l.
            bindE (verifyRequest T ed clk (ownerScope caller) (eSubjectSigningKey entry) caller request) (\<lambda>_.
            let now = clk 4;
                vault = \<lparr>vID = eVaultID entry, vOwnerKey = caOwnerKey caller, vCurrentRevision = 0,
                         vHeadIndex = 1, vEpoch = Epoch l, vCreatedAt = now, vUpdatedAt = now\<rparr>
            in bindE (writeT (txInsertVault T vault)) (\<lambda>_.
               bindE (writeT (txAppendDeviceListEntry T entry)) (\<lambda>_.
               bindE (writeT (txPutDevice T
                 \<lparr>dVaultID = vID vault, dDeviceID = eSubjectDeviceID entry, dTokenDeviceID = caTokenDeviceID caller,
                  dSigningKey = eSubjectSigningKey entry, dPackageKey = eSubjectPackageKey entry,
                  dState = DeviceApproved, dAddedIndex = 1, dActivatedEpoch = vEpoch vault, dCreatedAt = now\<rparr>)) (\<lambda>_.
               ret vault)))))))"

record PairingOffer =
  ofDeviceID :: string
  ofSigningKey :: string
  ofPackageKey :: string
  ofMessage :: bytes

definition badMessage :: "bytes \<Rightarrow> bool" where
  "badMessage message \<longleftrightarrow> length message = 0 \<or> MaxPairingMessageBytes < length message"

definition offerProbe :: "Vault \<Rightarrow> PairingOffer \<Rightarrow> DeviceListEntry" where
  "offerProbe vault offer =
     \<lparr>eVaultID = vID vault, eIndex = 2, ePreviousDigest = EncodeToString (replicate DigestBytes 0), eKind = EntryAdd,
      eSignerDeviceID = ofDeviceID offer, eSubjectDeviceID = ofDeviceID offer,
      eSubjectSigningKey = ofSigningKey offer, eSubjectPackageKey = ofPackageKey offer,
      eSealedLabel = EncodeToString (replicate MinSealedLabelBytes 0), eEpochAfter = vEpoch vault, eSnapshotFloor = 0,
      eSignature = EncodeToString (replicate Ed25519SignatureBytes 0)\<rparr>"

definition beginPairingTx ::
  "'s Tx \<Rightarrow> ed25519 \<Rightarrow> (nat \<Rightarrow> gotime) \<Rightarrow> Caller \<Rightarrow> SignedRequest \<Rightarrow> PairingOffer \<Rightarrow> ('s, svc_error, unit) txm" where
  "beginPairingTx T ed clk caller request offer =
     (if callerMissing caller then raise ErrForbidden
      else tryE (readT (txVaultByOwner T (caOwnerKey caller))) (\<lambda>owned.
        case owned of
          Inl e \<Rightarrow> if e = ErrNotFound then raise ErrNoVault else raise e
        | Inr vault \<Rightarrow>
            bindE (rejectIf (badMessage (ofMessage offer)) ErrInvalid) (\<lambda>_.
            bindE (liftE (invalid (entryValidate (offerProbe vault offer)))) (\<lambda>_.
            bindE (verifyRequest T ed clk (ownerScope caller) (ofSigningKey offer) caller request) (\<lambda>_.
            bindE (tryE (readT (txDeviceByToken T (vID vault) (caTokenDeviceID caller))) (\<lambda>existing.
              case existing of
                Inr d \<Rightarrow> rejectIf (dState d \<noteq> DeviceRevoked) ErrForbidden
              | Inl e \<Rightarrow> rejectIf (e \<noteq> ErrNotFound) e)) (\<lambda>_.
            bindE (tryE (readT (txDevice T (vID vault) (ofDeviceID offer))) (\<lambda>used.
              case used of
                Inr _ \<Rightarrow> raise ErrConflict
              | Inl e \<Rightarrow> rejectIf (e \<noteq> ErrNotFound) e)) (\<lambda>_.
            bindE (tryE (readT (txPairingByToken T (vID vault) (caTokenDeviceID caller))) (\<lambda>previous.
              case previous of
                Inr g \<Rightarrow> writeT (txDeletePairing T (vID vault) (gDeviceID g))
              | Inl e \<Rightarrow> rejectIf (e \<noteq> ErrNotFound) e)) (\<lambda>_.
            bindE (writeT (txPurgeExpired T (clk 4))) (\<lambda>_.
            bindE (readT (txPairings T (vID vault))) (\<lambda>pairings.
            bindE (rejectIf (MaxPendingPairings \<le> length pairings) ErrQuota) (\<lambda>_.
            let now = clk 5
            in writeT (txPutPairing T
                 \<lparr>gVaultID = vID vault, gDeviceID = ofDeviceID offer, gTokenDeviceID = caTokenDeviceID caller,
                  gSigningKey = ofSigningKey offer, gPackageKey = ofPackageKey offer, gOffer = ofMessage offer,
                  gAnswer = [], gConfirm = [], gState = PairingOffered, gExpiresAt = now + PairingLifetime,
                  gCreatedAt = now\<rparr>))))))))))))"

definition pairingStatusTx :: "'s Tx \<Rightarrow> (nat \<Rightarrow> gotime) \<Rightarrow> Caller \<Rightarrow> ('s, svc_error, Pairing) txm" where
  "pairingStatusTx T clk caller =
     bindE (actorFor T clk caller) (\<lambda>actor.
     case aPairing actor of None \<Rightarrow> raise ErrForbidden | Some pairing \<Rightarrow> ret pairing)"

definition pendingPairingsTx :: "'s Tx \<Rightarrow> (nat \<Rightarrow> gotime) \<Rightarrow> Caller \<Rightarrow> ('s, svc_error, Pairing list) txm" where
  "pendingPairingsTx T clk caller =
     bindE (actorFor T clk caller) (\<lambda>actor.
     bindE (liftE (requireApproved actor)) (\<lambda>_.
     bindE (readT (txPairings T (vID (aVault actor)))) (\<lambda>pairings.
     let now = clk 1 in ret (filter (\<lambda>pairing. now < gExpiresAt pairing) pairings))))"

definition answerPairingTx ::
  "'s Tx \<Rightarrow> ed25519 \<Rightarrow> (nat \<Rightarrow> gotime) \<Rightarrow> Caller \<Rightarrow> SignedRequest \<Rightarrow> string \<Rightarrow> bytes \<Rightarrow> ('s, svc_error, unit) txm" where
  "answerPairingTx T ed clk caller request deviceID message =
     bindE (signedActor T ed clk caller request) (\<lambda>actor.
     bindE (liftE (requireActivated actor)) (\<lambda>_.
     bindE (rejectIf (badMessage message) ErrInvalid) (\<lambda>_.
     bindE (readT (txPairing T (vID (aVault actor)) deviceID)) (\<lambda>pairing.
     bindE (rejectIf (gState pairing \<noteq> PairingOffered \<or> \<not> clk 4 < gExpiresAt pairing) ErrConflict) (\<lambda>_.
     writeT (txPutPairing T (pairing\<lparr>gAnswer := message, gState := PairingAnswered\<rparr>)))))))"

definition confirmPairingTx ::
  "'s Tx \<Rightarrow> ed25519 \<Rightarrow> (nat \<Rightarrow> gotime) \<Rightarrow> Caller \<Rightarrow> SignedRequest \<Rightarrow> bytes \<Rightarrow> ('s, svc_error, unit) txm" where
  "confirmPairingTx T ed clk caller request message =
     bindE (signedActor T ed clk caller request) (\<lambda>actor.
     case aPairing actor of
       None \<Rightarrow> raise ErrForbidden
     | Some pairing \<Rightarrow>
         bindE (rejectIf (badMessage message) ErrInvalid) (\<lambda>_.
         bindE (rejectIf (gState pairing \<noteq> PairingAnswered) ErrConflict) (\<lambda>_.
         writeT (txPutPairing T (pairing\<lparr>gConfirm := message, gState := PairingConfirmed\<rparr>)))))"

definition cancelPairingTx ::
  "'s Tx \<Rightarrow> ed25519 \<Rightarrow> (nat \<Rightarrow> gotime) \<Rightarrow> Caller \<Rightarrow> SignedRequest \<Rightarrow> string \<Rightarrow> ('s, svc_error, unit) txm" where
  "cancelPairingTx T ed clk caller request deviceID =
     bindE (signedActor T ed clk caller request) (\<lambda>actor.
     case aPairing actor of
       Some pairing \<Rightarrow> writeT (txDeletePairing T (vID (aVault actor)) (gDeviceID pairing))
     | None \<Rightarrow>
         bindE (liftE (requireApproved actor)) (\<lambda>_.
         writeT (txDeletePairing T (vID (aVault actor)) deviceID)))"

section \<open>Approving, activating and rekeying\<close>

definition approveTx ::
  "'s Tx \<Rightarrow> ed25519 \<Rightarrow> (nat \<Rightarrow> gotime) \<Rightarrow> Caller \<Rightarrow> SignedRequest \<Rightarrow> DeviceListEntry \<Rightarrow> KeyPackageV3 \<Rightarrow> ('s, svc_error, unit) txm" where
  "approveTx T ed clk caller request entry pkg =
     bindE (signedActor T ed clk caller request) (\<lambda>actor.
     bindE (liftE (requireActivated actor)) (\<lambda>_.
     bindE (rejectIf (eKind entry \<noteq> EntryAdd \<or> eSignerDeviceID entry \<noteq> dDeviceID (aDevice actor) \<or>
                      eVaultID entry \<noteq> vID (aVault actor)) ErrForbidden) (\<lambda>_.
     bindE (readT (txPairing T (vID (aVault actor)) (eSubjectDeviceID entry))) (\<lambda>pairing.
     bindE (rejectIf (gState pairing \<noteq> PairingConfirmed \<or> \<not> clk 4 < gExpiresAt pairing) ErrConflict) (\<lambda>_.
     bindE (rejectIf (gSigningKey pairing \<noteq> eSubjectSigningKey entry \<or>
                      gPackageKey pairing \<noteq> eSubjectPackageKey entry) ErrForbidden) (\<lambda>_.
     bindE (rejectIf (eIndex entry \<noteq> vHeadIndex (aVault actor) + 1) ErrConflict) (\<lambda>_.
     bindE (loadList T ed (vID (aVault actor))) (\<lambda>l.
     bindE (liftE (invalid (Extend ed l entry))) (\<lambda>_.
     bindE (rejectIf (pVaultID pkg \<noteq> vID (aVault actor) \<or> pSenderDeviceID pkg \<noteq> dDeviceID (aDevice actor) \<or>
                      pRecipientDeviceID pkg \<noteq> eSubjectDeviceID entry \<or> pVaultEpoch pkg \<noteq> vEpoch (aVault actor) \<or>
                      pEntryDigest pkg \<noteq> entryDigest entry) ErrInvalid) (\<lambda>_.
     bindE (liftE (invalid (packageVerify ed pkg (dSigningKey (aDevice actor))))) (\<lambda>_.
     let now = clk 5
     in bindE (writeT (txAppendDeviceListEntry T entry)) (\<lambda>_.
        bindE (writeT (txPutDevice T
          \<lparr>dVaultID = vID (aVault actor), dDeviceID = eSubjectDeviceID entry, dTokenDeviceID = gTokenDeviceID pairing,
           dSigningKey = eSubjectSigningKey entry, dPackageKey = eSubjectPackageKey entry,
           dState = DeviceApproved, dAddedIndex = eIndex entry, dActivatedEpoch = 0, dCreatedAt = now\<rparr>)) (\<lambda>_.
        bindE (writeT (txPutKeyPackage T \<lparr>kPackage = pkg, kCreatedAt = now\<rparr>)) (\<lambda>_.
        bindE (writeT (txDeletePairing T (vID (aVault actor)) (eSubjectDeviceID entry))) (\<lambda>_.
        writeT (txUpdateVault T ((aVault actor)\<lparr>vHeadIndex := eIndex entry, vUpdatedAt := now\<rparr>)))))))))))))))))"

definition keyPackageTx :: "'s Tx \<Rightarrow> (nat \<Rightarrow> gotime) \<Rightarrow> Caller \<Rightarrow> ('s, svc_error, KeyPackage) txm" where
  "keyPackageTx T clk caller =
     bindE (actorFor T clk caller) (\<lambda>actor.
     bindE (liftE (requireApproved actor)) (\<lambda>_.
     readT (txKeyPackage T (vID (aVault actor)) (dDeviceID (aDevice actor)))))"

definition activateTx ::
  "'s Tx \<Rightarrow> ed25519 \<Rightarrow> (nat \<Rightarrow> gotime) \<Rightarrow> Caller \<Rightarrow> SignedRequest \<Rightarrow> string \<Rightarrow> ('s, svc_error, unit) txm" where
  "activateTx T ed clk caller request digestOfPackage =
     bindE (signedActor T ed clk caller request) (\<lambda>actor.
     bindE (liftE (requireApproved actor)) (\<lambda>_.
     bindE (readT (txKeyPackage T (vID (aVault actor)) (dDeviceID (aDevice actor)))) (\<lambda>pkg.
     bindE (rejectIf (pVaultEpoch (kPackage pkg) \<noteq> vEpoch (aVault actor) \<or>
                      packageDigest (kPackage pkg) \<noteq> digestOfPackage) ErrConflict) (\<lambda>_.
     writeT (txPutDevice T ((aDevice actor)\<lparr>dActivatedEpoch := vEpoch (aVault actor)\<rparr>))))))"

text \<open>
  The loop of \<open>rekey\<close> over the packages; \<open>expected\<close> is the set of survivors, as the list of the
  keys of the Go map, that have not been named yet.
\<close>

fun putPackages ::
  "'s Tx \<Rightarrow> ed25519 \<Rightarrow> Actor \<Rightarrow> DeviceListEntry \<Rightarrow> gotime \<Rightarrow> string list \<Rightarrow> KeyPackageV3 list \<Rightarrow> ('s, svc_error, unit) txm" where
  "putPackages T ed actor entry now expected [] = ret ()"
| "putPackages T ed actor entry now expected (pkg # packages) =
     bindE (rejectIf (pRecipientDeviceID pkg \<notin> set expected) (ErrInvalidText ''unexpected or repeated recipient'')) (\<lambda>_.
     bindE (rejectIf (pVaultID pkg \<noteq> vID (aVault actor) \<or> pSenderDeviceID pkg \<noteq> dDeviceID (aDevice actor) \<or>
                      pVaultEpoch pkg \<noteq> eEpochAfter entry \<or> pEntryDigest pkg \<noteq> entryDigest entry) ErrInvalid) (\<lambda>_.
     bindE (liftE (invalid (packageVerify ed pkg (dSigningKey (aDevice actor))))) (\<lambda>_.
     bindE (writeT (txPutKeyPackage T \<lparr>kPackage = pkg, kCreatedAt = now\<rparr>)) (\<lambda>_.
     putPackages T ed actor entry now (filter (\<lambda>d. d \<noteq> pRecipientDeviceID pkg) expected) packages))))"

text \<open>The loop of \<open>rekey\<close> over the devices of the vault.\<close>

definition rekeyDevice :: "'s Tx \<Rightarrow> string \<Rightarrow> DeviceListEntry \<Rightarrow> string \<Rightarrow> Device \<Rightarrow> ('s, svc_error, unit) txm" where
  "rekeyDevice T kind entry self device =
     (if kind = EntryRemove \<and> dDeviceID device = eSubjectDeviceID entry
      then writeT (txPutDevice T (device\<lparr>dState := DeviceRevoked\<rparr>))
      else if dDeviceID device = self \<and> dState device = DeviceApproved
      then writeT (txPutDevice T (device\<lparr>dActivatedEpoch := eEpochAfter entry\<rparr>))
      else ret ())"

definition rekeyTx ::
  "'s Tx \<Rightarrow> ed25519 \<Rightarrow> (nat \<Rightarrow> gotime) \<Rightarrow> Caller \<Rightarrow> SignedRequest \<Rightarrow> string \<Rightarrow> DeviceListEntry \<Rightarrow> KeyPackageV3 list \<Rightarrow>
   ('s, svc_error, unit) txm" where
  "rekeyTx T ed clk caller request kind entry packages =
     bindE (signedActor T ed clk caller request) (\<lambda>actor.
     bindE (liftE (requireActivated actor)) (\<lambda>_.
     bindE (rejectIf (eKind entry \<noteq> kind \<or> eSignerDeviceID entry \<noteq> dDeviceID (aDevice actor) \<or>
                      eVaultID entry \<noteq> vID (aVault actor)) ErrForbidden) (\<lambda>_.
     bindE (rejectIf (eIndex entry \<noteq> vHeadIndex (aVault actor) + 1) ErrConflict) (\<lambda>_.
     bindE (loadList T ed (vID (aVault actor))) (\<lambda>l.
     bindE (liftE (invalid (Extend ed l entry))) (\<lambda>l'.
     let expected = filter (\<lambda>d. d \<noteq> dDeviceID (aDevice actor)) (map mDeviceID (Current l'))
     in bindE (rejectIf (length packages \<noteq> length (remdups expected)) (ErrInvalidText ''the survivor set is incomplete'')) (\<lambda>_.
     let now = clk 4
     in bindE (writeT (txDeleteKeyPackages T (vID (aVault actor)))) (\<lambda>_.
        bindE (putPackages T ed actor entry now expected packages) (\<lambda>_.
        bindE (writeT (txAppendDeviceListEntry T entry)) (\<lambda>_.
        bindE (if kind = EntryRemove then writeT (txDeleteCheckpoint T (vID (aVault actor)) (eSubjectDeviceID entry))
               else ret ()) (\<lambda>_.
        bindE (readT (txDevices T (vID (aVault actor)))) (\<lambda>devices.
        bindE (forE devices (rekeyDevice T kind entry (dDeviceID (aDevice actor)))) (\<lambda>_.
        bindE (readT (txPairings T (vID (aVault actor)))) (\<lambda>pairings.
        bindE (forE pairings (\<lambda>pairing. writeT (txDeletePairing T (vID (aVault actor)) (gDeviceID pairing)))) (\<lambda>_.
        writeT (txUpdateVault T ((aVault actor)\<lparr>vHeadIndex := eIndex entry, vEpoch := eEpochAfter entry,
          vUpdatedAt := now\<rparr>)))))))))))))))))"

definition upgradeKeyTx ::
  "'s Tx \<Rightarrow> ed25519 \<Rightarrow> (nat \<Rightarrow> gotime) \<Rightarrow> Caller \<Rightarrow> SignedRequest \<Rightarrow> DeviceListEntry \<Rightarrow> ('s, svc_error, unit) txm" where
  "upgradeKeyTx T ed clk caller request entry =
     bindE (signedActor T ed clk caller request) (\<lambda>actor.
     bindE (liftE (requireActivated actor)) (\<lambda>_.
     bindE (rejectIf (eKind entry \<noteq> EntryKey \<or> eSignerDeviceID entry \<noteq> dDeviceID (aDevice actor) \<or>
                      eVaultID entry \<noteq> vID (aVault actor)) ErrForbidden) (\<lambda>_.
     bindE (rejectIf (eIndex entry \<noteq> vHeadIndex (aVault actor) + 1) ErrConflict) (\<lambda>_.
     bindE (loadList T ed (vID (aVault actor))) (\<lambda>l.
     bindE (liftE (invalid (Extend ed l entry))) (\<lambda>_.
     bindE (writeT (txAppendDeviceListEntry T entry)) (\<lambda>_.
     bindE (writeT (txPutDevice T ((aDevice actor)\<lparr>dPackageKey := eSubjectPackageKey entry\<rparr>))) (\<lambda>_.
     writeT (txUpdateVault T ((aVault actor)\<lparr>vHeadIndex := eIndex entry, vUpdatedAt := clk 4\<rparr>))))))))))"

section \<open>Uploading a snapshot\<close>

record Accepted =
  acHeader :: StoredHeader
  acVault :: Vault
  acReceipt :: string

text \<open>The loop of \<open>makeRoom\<close>; \<open>fuel\<close> bounds the number of evictions.\<close>

fun evictLoop :: "'s Tx \<Rightarrow> Config \<Rightarrow> Vault \<Rightarrow> int \<Rightarrow> nat \<Rightarrow> int \<Rightarrow> ('s, svc_error, unit) txm" where
  "evictLoop T cf vault incoming fuel stored =
     (if \<not> cfByteBudget cf < stored + incoming then ret ()
      else if fuel = 0 then raise Diverges
      else tryE (readT (txOldestCiphertext T (vID vault))) (\<lambda>oldest.
        case oldest of
          Inl e \<Rightarrow> if e = ErrNotFound then raise ErrQuota else raise e
        | Inr (revision, bytes) \<Rightarrow>
            if vCurrentRevision vault \<le> revision then raise ErrQuota
            else bindE (writeT (txDeleteCiphertext T (vID vault) revision)) (\<lambda>_.
                 evictLoop T cf vault incoming (fuel - 1) (stored - bytes))))"

declare evictLoop.simps [simp del]

definition makeRoom :: "'s Tx \<Rightarrow> Config \<Rightarrow> Vault \<Rightarrow> int \<Rightarrow> ('s, svc_error, unit) txm" where
  "makeRoom T cf vault incoming =
     (if cfByteBudget cf < incoming then raise ErrQuota
      else bindE (readT (txCiphertextBytes T (vID vault))) (\<lambda>stored.
           evictLoop T cf vault incoming (2 ^ 64) stored))"

definition uploadReceipt :: "Vault \<Rightarrow> Header \<Rightarrow> gotime \<Rightarrow> ReceiptV3" where
  "uploadReceipt vault header now =
     \<lparr>rcVaultID = vID vault, rcRevision = hRevision header, rcHeaderDigest = headerDigest header,
      rcVaultEpoch = hVaultEpoch header, rcAcceptedAt = of_int (goUnix now)\<rparr>"

text \<open>\<open>Upload\<close> in three parts: the header the new one follows, the writes, and the whole handler.\<close>

definition uploadPrevious :: "'s Tx \<Rightarrow> Vault \<Rightarrow> Header \<Rightarrow> ('s, svc_error, Header option) txm" where
  "uploadPrevious T vault header =
     (if 0 < vCurrentRevision vault
      then bindE (readT (txLatestHeader T (vID vault))) (\<lambda>latest.
           bindE (rejectIf (hPreviousDigest header \<noteq> shDigest latest) ErrConflict) (\<lambda>_.
           ret (Some (shHeader latest))))
      else ret None)"

definition uploadStore ::
  "'s Tx \<Rightarrow> ed25519 \<Rightarrow> Config \<Rightarrow> gotime \<Rightarrow> Vault \<Rightarrow> Header option \<Rightarrow> Header \<Rightarrow> bytes \<Rightarrow> ('s, svc_error, Accepted) txm" where
  "uploadStore T ed cf now vault previous header ciphertext =
     (let signature = EncodeToString (receiptSign ed (cfReceiptKey cf) (uploadReceipt vault header now));
          stored = \<lparr>shHeader = header, shDigest = headerDigest header, shReceipt = signature, shAcceptedAt = now\<rparr>;
          vault' = vault\<lparr>vCurrentRevision := hRevision header, vUpdatedAt := now\<rparr>
      in bindE (writeT (txInsertHeader T stored)) (\<lambda>_.
         bindE (writeT (txPutCiphertext T (vID vault) (hRevision header) ciphertext)) (\<lambda>_.
         bindE (if (case previous of Some p \<Rightarrow> hVaultEpoch p < hVaultEpoch header | None \<Rightarrow> False)
                then writeT (txDeleteCiphertextsBefore T (vID vault) (hRevision header)) else ret ()) (\<lambda>_.
         bindE (writeT (txUpdateVault T vault')) (\<lambda>_.
         bindE (if cfHeaderRetention cf < hRevision header
                then writeT (txPruneHeaders T (vID vault) (hRevision header - cfHeaderRetention cf + 1))
                else ret ()) (\<lambda>_.
         ret \<lparr>acHeader = stored, acVault = vault', acReceipt = signature\<rparr>))))))"

definition uploadTx ::
  "'s Tx \<Rightarrow> ed25519 \<Rightarrow> Config \<Rightarrow> (nat \<Rightarrow> gotime) \<Rightarrow> Caller \<Rightarrow> SignedRequest \<Rightarrow> Header \<Rightarrow> bytes \<Rightarrow> ('s, svc_error, Accepted) txm" where
  "uploadTx T ed cf clk caller request header ciphertext =
     bindE (signedActor T ed clk caller request) (\<lambda>actor.
     bindE (liftE (requireActivated actor)) (\<lambda>_.
     bindE (liftE (invalid (headerValidate header))) (\<lambda>_.
     bindE (rejectIf (hVaultID header \<noteq> vID (aVault actor) \<or> hDeviceID header \<noteq> dDeviceID (aDevice actor)) ErrForbidden) (\<lambda>_.
     let vault = aVault actor
     in bindE (rejectIf (checkedNext (vCurrentRevision vault) \<noteq> Some (hRevision header) \<or>
                         hVaultEpoch header \<noteq> vEpoch vault \<or> hDeviceListIndex header \<noteq> vHeadIndex vault) ErrConflict) (\<lambda>_.
     bindE (liftE (invalid (VerifyCiphertext header ciphertext))) (\<lambda>_.
     bindE (loadList T ed (vID vault)) (\<lambda>l.
     bindE (uploadPrevious T vault header) (\<lambda>previous.
     bindE (liftE (invalid (VerifyHeader ed l previous header))) (\<lambda>_.
     bindE (makeRoom T cf vault (int (length ciphertext))) (\<lambda>_.
     uploadStore T ed cf (clk 4) vault previous header ciphertext))))))))))"

section \<open>Checkpoints\<close>

definition putCheckpointTx ::
  "'s Tx \<Rightarrow> ed25519 \<Rightarrow> (nat \<Rightarrow> gotime) \<Rightarrow> Caller \<Rightarrow> SignedRequest \<Rightarrow> Checkpoint \<Rightarrow> ('s, svc_error, StoredCheckpoint) txm" where
  "putCheckpointTx T ed clk caller request checkpoint =
     bindE (signedActor T ed clk caller request) (\<lambda>actor.
     bindE (liftE (requireActivated actor)) (\<lambda>_.
     bindE (rejectIf (cVaultID checkpoint \<noteq> vID (aVault actor) \<or> cDeviceID checkpoint \<noteq> dDeviceID (aDevice actor)) ErrForbidden) (\<lambda>_.
     bindE (liftE (invalid (checkpointVerify ed checkpoint (dSigningKey (aDevice actor))))) (\<lambda>_.
     bindE (rejectIf (\<not> WithinRequestSkew (cObservedAt checkpoint) (unix (clk 4)))
              (ErrInvalidText ''the checkpoint time is not close to the service clock'')) (\<lambda>_.
     bindE (tryE (readT (txCheckpoint T (vID (aVault actor)) (dDeviceID (aDevice actor)))) (\<lambda>previous.
       case previous of
         Inr p \<Rightarrow> rejectIf (cObservedAt checkpoint \<le> cObservedAt (scCheckpoint p) \<or>
                           cDeviceListIndex checkpoint < cDeviceListIndex (scCheckpoint p) \<or>
                           cHeaderRevision checkpoint < cHeaderRevision (scCheckpoint p)) ErrConflict
       | Inl e \<Rightarrow> rejectIf (e \<noteq> ErrNotFound) e)) (\<lambda>_.
     let stored = \<lparr>scCheckpoint = checkpoint, scAcceptedAt = clk 5\<rparr>
     in bindE (writeT (txPutCheckpoint T stored)) (\<lambda>_. ret stored)))))))"

definition checkpointsTx :: "'s Tx \<Rightarrow> (nat \<Rightarrow> gotime) \<Rightarrow> Caller \<Rightarrow> ('s, svc_error, StoredCheckpoint list) txm" where
  "checkpointsTx T clk caller =
     bindE (actorFor T clk caller) (\<lambda>actor.
     bindE (liftE (requireApproved actor)) (\<lambda>_.
     readT (txCheckpoints T (vID (aVault actor)))))"

section \<open>Reading\<close>

definition clamp :: "int \<Rightarrow> int \<Rightarrow> int" where
  "clamp limit maximum = (if limit \<le> 0 \<or> maximum < limit then maximum else limit)"

definition deviceListTx ::
  "'s Tx \<Rightarrow> (nat \<Rightarrow> gotime) \<Rightarrow> Caller \<Rightarrow> u64 \<Rightarrow> int \<Rightarrow> ('s, svc_error, DeviceListEntry list) txm" where
  "deviceListTx T clk caller after limit =
     bindE (actorFor T clk caller) (\<lambda>actor.
     bindE (rejectIf (aPairing actor = None \<and> dState (aDevice actor) \<noteq> DeviceApproved) ErrForbidden) (\<lambda>_.
     bindE (rejectIf (case aPairing actor of None \<Rightarrow> False | Some g \<Rightarrow> gState g \<noteq> PairingConfirmed) ErrForbidden) (\<lambda>_.
     readT (txDeviceListEntries T (vID (aVault actor)) after (clamp limit MaxEntriesPerPage)))))"

definition headersTx ::
  "'s Tx \<Rightarrow> (nat \<Rightarrow> gotime) \<Rightarrow> Caller \<Rightarrow> u64 \<Rightarrow> int \<Rightarrow> ('s, svc_error, StoredHeader list) txm" where
  "headersTx T clk caller after limit =
     bindE (actorFor T clk caller) (\<lambda>actor.
     bindE (liftE (requireApproved actor)) (\<lambda>_.
     readT (txHeaders T (vID (aVault actor)) after (clamp limit MaxHeadersPerPage))))"

record Snapshot =
  snapHeader :: StoredHeader
  snapCiphertext :: bytes
  snapVault :: Vault

definition snapshotTx :: "'s Tx \<Rightarrow> (nat \<Rightarrow> gotime) \<Rightarrow> Caller \<Rightarrow> ('s, svc_error, Snapshot) txm" where
  "snapshotTx T clk caller =
     bindE (actorFor T clk caller) (\<lambda>actor.
     bindE (liftE (requireApproved actor)) (\<lambda>_.
     bindE (rejectIf (vCurrentRevision (aVault actor) = 0) ErrNotFound) (\<lambda>_.
     bindE (readT (txHeader T (vID (aVault actor)) (vCurrentRevision (aVault actor)))) (\<lambda>header.
     bindE (readT (txCiphertext T (vID (aVault actor)) (vCurrentRevision (aVault actor)))) (\<lambda>ciphertext.
     ret \<lparr>snapHeader = header, snapCiphertext = ciphertext, snapVault = aVault actor\<rparr>)))))"

definition devicesTx :: "'s Tx \<Rightarrow> (nat \<Rightarrow> gotime) \<Rightarrow> Caller \<Rightarrow> ('s, svc_error, Vault \<times> Device list) txm" where
  "devicesTx T clk caller =
     bindE (actorFor T clk caller) (\<lambda>actor.
     bindE (rejectIf (aPairing actor \<noteq> None) ErrForbidden) (\<lambda>_.
     bindE (readT (txDevices T (vID (aVault actor)))) (\<lambda>devices.
     ret (aVault actor, devices))))"

definition vaultStateTx :: "'s Tx \<Rightarrow> (nat \<Rightarrow> gotime) \<Rightarrow> Caller \<Rightarrow> ('s, svc_error, Vault \<times> Actor) txm" where
  "vaultStateTx T clk caller = bindE (actorFor T clk caller) (\<lambda>actor. ret (aVault actor, actor))"

section \<open>Resetting and maintenance\<close>

definition resetTx ::
  "'s Tx \<Rightarrow> ed25519 \<Rightarrow> (nat \<Rightarrow> gotime) \<Rightarrow> Caller \<Rightarrow> SignedRequest \<Rightarrow> u64 \<Rightarrow> ('s, svc_error, unit) txm" where
  "resetTx T ed clk caller request vaultEpoch =
     bindE (signedActor T ed clk caller request) (\<lambda>actor.
     bindE (liftE (requireApproved actor)) (\<lambda>_.
     bindE (rejectIf (vaultEpoch \<noteq> vEpoch (aVault actor)) ErrConflict) (\<lambda>_.
     writeT (txDeleteVault T (vID (aVault actor))))))"

definition maintainTx :: "'s Tx \<Rightarrow> (nat \<Rightarrow> gotime) \<Rightarrow> ('s, svc_error, unit) txm" where
  "maintainTx T clk = writeT (txPurgeExpired T (clk 0))"

record Overview =
  ovHasVault :: bool
  ovDevices :: int
  ovCurrentRevision :: u64
  ovStoredBytes :: int
  ovUpdatedAt :: gotime

definition overviewTx :: "'s Tx \<Rightarrow> string \<Rightarrow> ('s, svc_error, Overview) txm" where
  "overviewTx T ownerKey =
     tryE (readT (txVaultByOwner T ownerKey)) (\<lambda>owned.
       case owned of
         Inl e \<Rightarrow> if e = ErrNotFound
           then ret \<lparr>ovHasVault = False, ovDevices = 0, ovCurrentRevision = 0, ovStoredBytes = 0, ovUpdatedAt = 0\<rparr>
           else raise e
       | Inr vault \<Rightarrow>
           bindE (readT (txDevices T (vID vault))) (\<lambda>devices.
           bindE (readT (txCiphertextBytes T (vID vault))) (\<lambda>stored.
           ret \<lparr>ovHasVault = True,
                ovDevices = int (length (filter (\<lambda>device. dState device = DeviceApproved) devices)),
                ovCurrentRevision = vCurrentRevision vault, ovStoredBytes = stored, ovUpdatedAt = vUpdatedAt vault\<rparr>)))"

definition adminResetTx :: "'s Tx \<Rightarrow> string \<Rightarrow> ('s, svc_error, unit) txm" where
  "adminResetTx T ownerKey =
     bindE (readT (txVaultByOwner T ownerKey)) (\<lambda>vault. writeT (txDeleteVault T (vID vault)))"

section \<open>The service\<close>

definition svcCreateVault where
  "svcCreateVault T ed clk caller request entry = keeperUpdate T (createVaultTx (nonceTx T) ed clk caller request entry)"
definition svcBeginPairing where
  "svcBeginPairing T ed clk caller request offer = keeperUpdate T (beginPairingTx (nonceTx T) ed clk caller request offer)"
definition svcPairingStatus where
  "svcPairingStatus T clk caller = keeperView (pairingStatusTx T clk caller)"
definition svcPendingPairings where
  "svcPendingPairings T clk caller = keeperView (pendingPairingsTx T clk caller)"
definition svcAnswerPairing where
  "svcAnswerPairing T ed clk caller request deviceID message =
     keeperUpdate T (answerPairingTx (nonceTx T) ed clk caller request deviceID message)"
definition svcConfirmPairing where
  "svcConfirmPairing T ed clk caller request message =
     keeperUpdate T (confirmPairingTx (nonceTx T) ed clk caller request message)"
definition svcCancelPairing where
  "svcCancelPairing T ed clk caller request deviceID =
     keeperUpdate T (cancelPairingTx (nonceTx T) ed clk caller request deviceID)"
definition svcApprove where
  "svcApprove T ed clk caller request entry pkg =
     keeperUpdate T (approveTx (nonceTx T) ed clk caller request entry pkg)"
definition svcKeyPackage where
  "svcKeyPackage T clk caller = keeperView (keyPackageTx T clk caller)"
definition svcActivate where
  "svcActivate T ed clk caller request digestOfPackage =
     keeperUpdate T (activateTx (nonceTx T) ed clk caller request digestOfPackage)"
definition rekey where
  "rekey T ed clk caller request kind entry packages =
     keeperUpdate T (rekeyTx (nonceTx T) ed clk caller request kind entry packages)"
definition svcRemove where
  "svcRemove T ed clk caller request entry packages = rekey T ed clk caller request EntryRemove entry packages"
definition svcRotate where
  "svcRotate T ed clk caller request entry packages = rekey T ed clk caller request EntryRotate entry packages"
definition svcUpgradeKey where
  "svcUpgradeKey T ed clk caller request entry = keeperUpdate T (upgradeKeyTx (nonceTx T) ed clk caller request entry)"
definition svcUpload where
  "svcUpload T ed cf clk caller request header ciphertext =
     keeperUpdate T (uploadTx (nonceTx T) ed cf clk caller request header ciphertext)"
definition svcPutCheckpoint where
  "svcPutCheckpoint T ed clk caller request checkpoint =
     keeperUpdate T (putCheckpointTx (nonceTx T) ed clk caller request checkpoint)"
definition svcCheckpoints where
  "svcCheckpoints T clk caller = keeperView (checkpointsTx T clk caller)"
definition svcDeviceList where
  "svcDeviceList T clk caller after limit = keeperView (deviceListTx T clk caller after limit)"
definition svcHeaders where
  "svcHeaders T clk caller after limit = keeperView (headersTx T clk caller after limit)"
definition svcSnapshot where
  "svcSnapshot T clk caller = keeperView (snapshotTx T clk caller)"
definition svcDevices where
  "svcDevices T clk caller = keeperView (devicesTx T clk caller)"
definition svcVaultState where
  "svcVaultState T clk caller = keeperView (vaultStateTx T clk caller)"
definition svcReset where
  "svcReset T ed clk caller request vaultEpoch = keeperUpdate T (resetTx (nonceTx T) ed clk caller request vaultEpoch)"
definition svcMaintain where
  "svcMaintain T clk = keeperUpdate T (maintainTx (nonceTx T) clk)"
definition svcOverview where
  "svcOverview T ownerKey = keeperView (overviewTx T ownerKey)"
definition svcAdminReset where
  "svcAdminReset T ownerKey = keeperUpdate T (adminResetTx (nonceTx T) ownerKey)"

text \<open>
  One run of the maintenance loop: \<open>cancelled\<close> is \<open>ctx.Err() != nil\<close>, \<open>enabled\<close> the optional
  switch.  The error of \<open>Maintain\<close> is only logged.
\<close>

definition runMaintenanceOnce :: "'s Tx \<Rightarrow> (nat \<Rightarrow> gotime) \<Rightarrow> bool \<Rightarrow> bool option \<Rightarrow> 's \<Rightarrow> 's" where
  "runMaintenanceOnce T clk cancelled enabled s =
     (if cancelled then s
      else if enabled = Some False then s
      else snd (svcMaintain T clk s))"

definition DefaultMaintenanceInterval :: int where
  "DefaultMaintenanceInterval = 3600 * second"

definition maintenanceInterval :: "int \<Rightarrow> int" where
  "maintenanceInterval interval = (if interval \<le> 0 then DefaultMaintenanceInterval else interval)"

end
