(* ===== verification/Service_Parts.thy ===== *)
theory Service_Parts
  imports Sync_Service
begin

text \<open>
  What the shared parts of the handlers do to the view of the store, proved from the contract of
  the storage interface: who the actor is, that a verified request spends its nonce, that the
  stored device list is loaded whole, and that the eviction loop ends and frees enough room.
\<close>

section \<open>Actors\<close>

text \<open>The rows of the store that make \<open>a\<close> the actor of a caller at a time.\<close>

definition is_actor :: "sview \<Rightarrow> gotime \<Rightarrow> Caller \<Rightarrow> Actor \<Rightarrow> bool" where
  "is_actor w now caller a \<longleftrightarrow>
     \<not> callerMissing caller \<and> wVault w (vID (aVault a)) = Some (aVault a) \<and>
     vOwnerKey (aVault a) = caOwnerKey caller \<and> opaqueID (vID (aVault a)) \<and>
     (case aPairing a of
        None \<Rightarrow> wDevice w (vID (aVault a)) (dDeviceID (aDevice a)) = Some (aDevice a) \<and>
          dTokenDeviceID (aDevice a) = caTokenDeviceID caller
      | Some g \<Rightarrow> wPairing w (vID (aVault a)) (gDeviceID g) = Some g \<and> gTokenDeviceID g = caTokenDeviceID caller \<and>
          now < gExpiresAt g \<and> a = pairingActor (aVault a) g) \<and>
     (aPairing a \<noteq> None \<or> dState (aDevice a) = DeviceRevoked \<longrightarrow>
        (\<forall>i d. wDevice w (vID (aVault a)) i = Some d \<and> dTokenDeviceID d = caTokenDeviceID caller \<longrightarrow>
           dState d = DeviceRevoked))"

text \<open>A request whose nonce was not live is accepted and its nonce is live afterwards.\<close>

definition spends :: "(nat \<Rightarrow> gotime) \<Rightarrow> string \<Rightarrow> string \<Rightarrow> sview \<Rightarrow> sview \<Rightarrow> bool" where
  "spends clk sc n w w' \<longleftrightarrow>
     (case wNonce w sc n of None \<Rightarrow> True | Some u \<Rightarrow> \<not> clk 3 < u) \<and>
     wNonce w' sc n = Some (clk 2 + RequestNonceRetention * second) \<and>
     keeps_live (clk 3) w w' \<and> w' = w\<lparr>wNonce := wNonce w'\<rparr>"

lemma spends_tables [simp]:
  assumes "spends clk sc n w w'"
  shows "wVault w' = wVault w" "wDevice w' = wDevice w" "wEntries w' = wEntries w" "wPackage w' = wPackage w"
    "wHeader w' = wHeader w" "wCipher w' = wCipher w" "wPairing w' = wPairing w" "wCheckpoint w' = wCheckpoint w"
proof -
  have "w' = w\<lparr>wNonce := wNonce w'\<rparr>" using assms by (simp add: spends_def)
  then obtain f where f: "w' = w\<lparr>wNonce := f\<rparr>" by blast
  show "wVault w' = wVault w" "wDevice w' = wDevice w" "wEntries w' = wEntries w" "wPackage w' = wPackage w"
    "wHeader w' = wHeader w" "wCipher w' = wCipher w" "wPairing w' = wPairing w" "wCheckpoint w' = wCheckpoint w"
    by (simp_all add: f)
qed

context sync_tx
begin

lemma actorFor_state: "actorFor T clk caller s = (r, s') \<Longrightarrow> s' = s"
  by (auto simp: actorFor_def txm_simps split: if_splits sum.splits)

lemma actorFor_ok:
  assumes inv: "inv s" and run: "actorFor T clk caller s = (Inr a, s')"
  shows "s' = s \<and> is_actor (view s) (clk 0) caller a"
proof -
  have c: "\<not> callerMissing caller" using run by (auto simp: actorFor_def txm_simps split: if_splits)
  obtain vault where v: "txVaultByOwner T (caOwnerKey caller) s = Inr vault"
    using run c by (auto simp: actorFor_def txm_simps split: if_splits sum.splits)
  have vault: "wVault (view s) (vID vault) = Some vault" "vOwnerKey vault = caOwnerKey caller" "opaqueID (vID vault)"
    using VaultByOwner_ok [OF inv v] vault_key [OF inv] by blast+
  let ?d = "txDeviceByToken T (vID vault) (caTokenDeviceID caller) s"
  let ?g = "txPairingByToken T (vID vault) (caTokenDeviceID caller) s"
  consider (device) d where "?d = Inr d" "a = \<lparr>aVault = vault, aDevice = d, aPairing = None\<rparr>" "s' = s"
    | (pairing) g where "?g = Inr g" "clk 0 < gExpiresAt g" "a = pairingActor vault g" "s' = s"
        "?d = Inl ErrNotFound \<or> (\<exists>d. ?d = Inr d \<and> dState d = DeviceRevoked)"
    using run c v by (auto simp: actorFor_def txm_simps split: if_splits sum.splits)
  then show ?thesis
  proof cases
    case device
    show ?thesis
      using DeviceByToken_ok [OF inv vault(3) device(1)] c vault device(2,3) by (auto simp: is_actor_def)
  next
    case pairing
    have "dState d = DeviceRevoked"
      if "wDevice (view s) (vID vault) i = Some d" "dTokenDeviceID d = caTokenDeviceID caller" for i d
      using pairing(5) that DeviceByToken_ok [OF inv vault(3)] DeviceByToken_missing [OF inv vault(3)] by blast
    then show ?thesis
      using PairingByToken_ok [OF inv vault(3) pairing(1)] c vault pairing(2-4)
      by (auto simp: is_actor_def pairingActor_def)
  qed
qed

lemma recordNonce_ok:
  assumes inv: "inv s" and run: "recordNonce T sc n now expires s = (Inr fresh, s')"
  shows "inv s'" "fresh = (case wNonce (view s) sc n of None \<Rightarrow> True | Some u \<Rightarrow> \<not> now < u)"
    "if fresh then wNonce (view s') sc n = Some expires else view s' = view s"
    "keeps_live now (view s) (view s')" "view s' = (view s)\<lparr>wNonce := wNonce (view s')\<rparr>"
proof -
  have "txRecordNonce T sc n now expires s = Inr (fresh, s')"
    using run by (auto simp: recordNonce_def split: sum.splits prod.splits)
  from RecordNonce_ok [OF inv this]
  show "inv s'" "fresh = (case wNonce (view s) sc n of None \<Rightarrow> True | Some u \<Rightarrow> \<not> now < u)"
    "if fresh then wNonce (view s') sc n = Some expires else view s' = view s"
    "keeps_live now (view s) (view s')" "view s' = (view s)\<lparr>wNonce := wNonce (view s')\<rparr>" by blast+
qed

lemma verifyRequest_ok:
  assumes inv: "inv s" and run: "verifyRequest T ed clk sc k caller request s = (Inr u, s')"
  shows "inv s'" "isOk (requestVerify ed (signedBy caller request) k (rqSignature request) (unix (clk 1)))"
    "spends clk sc (rqNonce request) (view s) (view s')"
proof -
  show "isOk (requestVerify ed (signedBy caller request) k (rqSignature request) (unix (clk 1)))"
    using run by (auto simp: verifyRequest_def txm_simps split: if_splits)
  obtain fresh where r: "recordNonce T sc (rqNonce request) (clk 3) (clk 2 + RequestNonceRetention * second) s = (Inr fresh, s')"
    and fresh: "fresh"
    using run by (auto simp: verifyRequest_def txm_simps Let_def split: if_splits)
  note nonce = recordNonce_ok [OF inv r]
  show "inv s'" by (rule nonce(1))
  show "spends clk sc (rqNonce request) (view s) (view s')"
    unfolding spends_def using nonce(2-5) fresh by auto
qed

lemma signedActor_ok:
  assumes inv: "inv s" and run: "signedActor T ed clk caller request s = (Inr a, s')"
  shows "inv s'" "is_actor (view s) (clk 0) caller a" "spends clk (actorScope a) (rqNonce request) (view s) (view s')"
    "isOk (requestVerify ed (signedBy caller request) (dSigningKey (aDevice a)) (rqSignature request) (unix (clk 1)))"
proof -
  obtain s1 where a: "actorFor T clk caller s = (Inr a, s1)"
    and v: "verifyRequest T ed clk (actorScope a) (dSigningKey (aDevice a)) caller request s1 = (Inr (), s')"
    using run by (auto simp: signedActor_def txm_simps)
  note actor = actorFor_ok [OF inv a]
  have "s1 = s" using actor by simp
  note req = verifyRequest_ok [OF inv v [unfolded \<open>s1 = s\<close>]]
  show "inv s'" "is_actor (view s) (clk 0) caller a" "spends clk (actorScope a) (rqNonce request) (view s) (view s')"
    "isOk (requestVerify ed (signedBy caller request) (dSigningKey (aDevice a)) (rqSignature request) (unix (clk 1)))"
    using actor req by auto
qed

end

lemma requireApproved_ok [simp]:
  "requireApproved a = Inr u \<longleftrightarrow> aPairing a = None \<and> dState (aDevice a) = DeviceApproved"
  by (auto simp: requireApproved_def)

lemma requireActivated_ok [simp]:
  "requireActivated a = Inr u \<longleftrightarrow>
     aPairing a = None \<and> dState (aDevice a) = DeviceApproved \<and> dActivatedEpoch (aDevice a) = vEpoch (aVault a)"
  by (auto simp: requireActivated_def requireApproved_def split: sum.splits)

lemma invalid_ok [simp]: "invalid r = Inr x \<longleftrightarrow> r = Inr x"
  by (auto simp: invalid_def split: sum.splits)

section \<open>Loading the device list\<close>

lemma extendPage_eq:
  "extendPage ed l after es =
     (case extendAll ed l es of
        Inl e \<Rightarrow> Inl (ErrStoredList e)
      | Inr l' \<Rightarrow> Inr (l', if es = [] then after else eIndex (last es)))"
  by (induction es arbitrary: l after) (auto split: sum.splits)

lemma verified_filter:
  assumes "VerifyDeviceList ed es = Inr l" "k \<le> length es"
  shows "filter (\<lambda>e. of_nat k < eIndex e) es = drop k es"
proof -
  have len: "length es < 2 ^ 64" using verified_length [OF assms(1)] by simp
  have idx: "eIndex (es ! i) = of_nat (Suc i)" if "i < length es" for i
    using verified_index [OF assms(1) that] by simp
  have "\<not> of_nat k < eIndex e" if e: "e \<in> set (take k es)" for e
  proof -
    obtain i where i: "i < k" "i < length es" "e = es ! i" using e by (auto simp: in_set_conv_nth)
    show ?thesis unfolding i(3) idx [OF i(2)] using i len assms(2) by (subst u64_of_nat_less_iff) auto
  qed
  moreover have "of_nat k < eIndex e" if e: "e \<in> set (drop k es)" for e
  proof -
    obtain i where i: "i < length (drop k es)" "e = drop k es ! i" using e by (auto simp: in_set_conv_nth)
    then have j: "k + i < length es" "e = es ! (k + i)" using assms(2) by auto
    show ?thesis unfolding j(2) idx [OF j(1)] using j len assms(2) by (subst u64_of_nat_less_iff) auto
  qed
  ultimately have "filter (\<lambda>e. of_nat k < eIndex e) (take k es @ drop k es) = drop k es"
    unfolding filter_append by simp
  then show ?thesis by simp
qed

lemma verified_prefix:
  assumes "VerifyDeviceList ed es = Inr l"
  obtains l1 where "VerifyDeviceList ed (take k es) = Inr l1" "extendAll ed l1 (drop k es) = Inr l"
  using assms extendAll_append [of ed NewDeviceList "take k es" "drop k es"]
  by (auto simp: VerifyDeviceList_def split: sum.splits)

context sync_tx
begin

text \<open>
  Stored entries that verify are loaded whole: the pages follow one another without a gap, the
  loop ends within the fuel, and the only error is an error of the storage.
\<close>

lemma loadLoop_run:
  assumes inv: "inv s" and es: "VerifyDeviceList ed (wEntries (view s) v) = Inr l"
  shows "k \<le> length (wEntries (view s) v) \<Longrightarrow> VerifyDeviceList ed (take k (wEntries (view s) v)) = Inr l1 \<Longrightarrow>
    length (wEntries (view s) v) - k < fuel \<Longrightarrow>
    loadLoop T ed v fuel l1 (of_nat k) s = (r, s') \<Longrightarrow>
    s' = s \<and> (r = Inr l \<or> (\<exists>e after. r = Inl e \<and> txDeviceListEntries T v after MaxEntriesPerPage s = Inl e))"
proof (induction fuel arbitrary: k l1)
  case (Suc fuel)
  let ?es = "wEntries (view s) v"
  have load: "loadLoop T ed v (Suc fuel) l1 (of_nat k) s = (r, s')" by (rule Suc.prems(4))
  show ?case
  proof (cases "txDeviceListEntries T v (of_nat k) MaxEntriesPerPage s")
    case (Inl e)
    then show ?thesis using load by (subst (asm) loadLoop.simps) (auto simp: txm_run)
  next
    case (Inr page)
    have page: "page = take 500 (drop k ?es)"
      using DeviceListEntries_ok [OF inv Inr] verified_filter [OF es Suc.prems(1)] by (simp add: MaxEntriesPerPage_def)
    have split: "take (k + 500) ?es = take k ?es @ page" unfolding page by (rule take_add)
    obtain l2 where l2: "VerifyDeviceList ed (take (k + 500) ?es) = Inr l2" by (rule verified_prefix [OF es])
    have ext: "extendAll ed l1 page = Inr l2"
      using l2 Suc.prems(2) unfolding split by (simp add: VerifyDeviceList_def extendAll_append)
    have "loadLoop T ed v (Suc fuel) l1 (of_nat k) s =
      (if int (length page) < 500 then ret l2
       else loadLoop T ed v fuel l2 (if page = [] then of_nat k else eIndex (last page))) s"
      using Inr by (subst loadLoop.simps) (simp add: bindE_def readT_def liftE_def extendPage_eq ext MaxEntriesPerPage_def)
    then have run: "(if int (length page) < 500 then ret l2
       else loadLoop T ed v fuel l2 (if page = [] then of_nat k else eIndex (last page))) s = (r, s')"
      using load by simp
    show ?thesis
    proof (cases "k + 500 \<le> length ?es")
      case True
      then have len: "length page = 500" unfolding page by simp
      have "last page = ?es ! (k + 499)"
        unfolding page using True by (simp add: last_conv_nth)
      then have "eIndex (last page) = of_nat (k + 500)"
        using verified_index [OF es, of "k + 499"] True by simp
      moreover have "page \<noteq> []" using len by auto
      ultimately have next_page: "loadLoop T ed v fuel l2 (of_nat (k + 500)) s = (r, s')"
        using run len by (simp only: if_False not_less int_ops) simp
      have "length ?es - (k + 500) < fuel" using Suc.prems(3) True by linarith
      then show ?thesis by (rule Suc.IH [OF True l2 _ next_page])
    next
      case False
      then have "l2 = l" using l2 es by simp
      moreover have "length page < 500" using False unfolding page by simp
      ultimately have "ret l s = (r, s')" using run by simp
      then show ?thesis by (simp add: ret_eq)
    qed
  qed
next
  case 0
  from 0(3) show ?case by (rule less_zeroE)
qed

lemma loadList_run:
  assumes inv: "inv s" and es: "VerifyDeviceList ed (wEntries (view s) v) = Inr l"
    and run: "loadList T ed v s = (r, s')"
  shows "s' = s \<and> (r = Inr l \<or> (\<exists>e after. r = Inl e \<and> txDeviceListEntries T v after MaxEntriesPerPage s = Inl e))"
  using loadLoop_run [OF inv es, of 0 NewDeviceList "2 ^ 64" r s'] verified_length [OF es] run
  by (simp add: loadList_def)

lemma loadList_ok:
  assumes "inv s" "VerifyDeviceList ed (wEntries (view s) v) = Inr l" "loadList T ed v s = (Inr l', s')"
  shows "l' = l \<and> s' = s"
  using loadList_run [OF assms] by auto

end

section \<open>Making room\<close>

text \<open>The table without the revisions below \<open>k\<close>.\<close>

definition from_revision :: "u64 \<Rightarrow> (u64 \<Rightarrow> 'a option) \<Rightarrow> u64 \<Rightarrow> 'a option" where
  "from_revision k m = (\<lambda>r. if r < k then None else m r)"

lemma from_revision_zero [simp]: "from_revision 0 m = m"
  by (simp add: from_revision_def)

lemma u64_Suc_le: "r < c \<Longrightarrow> r + 1 \<le> (c :: u64)"
  by (metis inc_le)

lemma u64_less_Suc:
  assumes "r < c"
  shows "q < r + 1 \<longleftrightarrow> q \<le> (r :: u64)"
proof -
  have "r \<noteq> -1" using assms unat_u64_lt [of c] unat_u64_max by (auto simp: word_less_nat_alt)
  then show ?thesis using unat_u64_Suc [of r] by (auto simp: word_less_nat_alt word_le_nat_alt)
qed

lemma from_revision_drop:
  assumes "\<forall>q \<in> dom m. r \<le> q" "r < (c :: u64)"
  shows "from_revision k (m(r := None)) = from_revision (max k (r + 1)) m"
proof
  fix q
  show "from_revision k (m(r := None)) q = from_revision (max k (r + 1)) m q"
  proof (cases "m q")
    case None
    then show ?thesis by (simp add: from_revision_def)
  next
    case (Some x)
    then have "r \<le> q" using assms(1) by blast
    then show ?thesis
      using u64_less_Suc [OF assms(2), of q] by (auto simp: from_revision_def max_def)
  qed
qed

lemma cipher_bytes_drop:
  assumes "finite (dom m)" "m r = Some c"
  shows "cipher_bytes (m(r := None)) = cipher_bytes m - int (length c)"
proof -
  have "cipher_bytes m = int (length c) + (\<Sum>q \<in> dom m - {r}. int (length (the (m q))))"
    unfolding cipher_bytes_def using assms by (subst sum.remove [of _ r]) auto
  moreover have "(\<Sum>q \<in> dom m - {r}. int (length (the (m q)))) = cipher_bytes (m(r := None))"
    unfolding cipher_bytes_def by (rule sum.cong) auto
  ultimately show ?thesis by simp
qed

lemma card_below: "card {q. q < (c :: u64)} = unat c"
proof -
  have "unat ` {q. q < c} = {..< unat c}"
  proof (intro equalityI subsetI)
    fix n
    assume "n \<in> {..< unat c}"
    then have "n = unat (of_nat n :: u64)" "(of_nat n :: u64) < c"
      using unat_u64_lt [of c] by (auto simp: word_less_nat_alt unat_of_nat)
    then show "n \<in> unat ` {q. q < c}" by blast
  qed (auto simp: word_less_nat_alt)
  moreover have "inj_on unat {q. q < c}" by (auto simp: inj_on_def word_unat_eq_iff)
  ultimately show ?thesis using card_image [of unat "{q. q < c}"] by simp
qed

context sync_tx
begin

text \<open>
  The eviction loop ends within the fuel: either the newest snapshots that are kept and the
  incoming one fit the budget, the current revision among them, or the error is \<open>ErrQuota\<close> or one
  of the storage.
\<close>

lemma evictLoop_run:
  assumes "inv s" "stored = cipher_bytes (wCipher (view s) (vID vault))"
    "card {q \<in> dom (wCipher (view s) (vID vault)). q < vCurrentRevision vault} < fuel"
    "evictLoop T cf vault incoming fuel stored s = (res, s')"
  shows "(\<exists>k. res = Inr () \<and> inv s' \<and> k \<le> vCurrentRevision vault \<and>
      view s' = (view s)\<lparr>wCipher := (wCipher (view s))(vID vault := from_revision k (wCipher (view s) (vID vault)))\<rparr> \<and>
      cipher_bytes (from_revision k (wCipher (view s) (vID vault))) + incoming \<le> cfByteBudget cf) \<or>
    (\<exists>e. res = Inl e \<and> (e = ErrQuota \<or> (\<exists>s1. txOldestCiphertext T (vID vault) s1 = Inl e) \<or>
      (\<exists>s1 r. txDeleteCiphertext T (vID vault) r s1 = Inl e)))"
  using assms
proof (induction fuel arbitrary: s stored)
  case 0
  from 0(3) show ?case by (rule less_zeroE)
next
  case (Suc fuel)
  let ?v = "vID vault"
  let ?m = "wCipher (view s) ?v"
  note run = Suc.prems(4) [unfolded evictLoop.simps [of T cf vault incoming "Suc fuel" stored]]
  show ?case
  proof (cases "cfByteBudget cf < stored + incoming")
    case False
    then have "res = Inr ()" "s' = s" using run by (simp_all add: ret_eq)
    moreover have "view s = (view s)\<lparr>wCipher := (wCipher (view s))(?v := from_revision 0 ?m)\<rparr>" by simp
    ultimately show ?thesis using False Suc.prems(1,2) by (intro disjI1 exI [of _ 0]) simp
  next
    case over: True
    show ?thesis
    proof (cases "txOldestCiphertext T ?v s")
      case (Inl e)
      then show ?thesis using run over by (auto simp: tryE_def readT_def raise_def split: if_splits)
    next
      case (Inr rb)
      obtain r b where rb: "rb = (r, b)" by (cases rb)
      note oldest = OldestCiphertext_ok [OF Suc.prems(1) Inr [unfolded rb]]
      obtain c where c: "?m r = Some c" "b = int (length c)" using oldest by blast
      have least: "\<forall>q \<in> dom ?m. r \<le> q" using oldest by blast
      show ?thesis
      proof (cases "vCurrentRevision vault \<le> r")
        case True
        then have "res = Inl ErrQuota" using run over Inr rb by (simp add: tryE_def readT_def raise_def)
        then show ?thesis by blast
      next
        case False
        then have old: "r < vCurrentRevision vault" by simp
        show ?thesis
        proof (cases "txDeleteCiphertext T ?v r s")
          case (Inl e)
          then show ?thesis
            using run over \<open>txOldestCiphertext T ?v s = Inr rb\<close> rb False
            by (auto simp: tryE_def readT_def bindE_def writeT_def)
        next
          case (Inr s1)
          note del = DeleteCiphertext_ok [OF Suc.prems(1) Inr]
          have m1: "wCipher (view s1) ?v = ?m(r := None)" using del by simp
          have next_run: "evictLoop T cf vault incoming fuel (stored - b) s1 = (res, s')"
            using run over \<open>txOldestCiphertext T ?v s = Inr rb\<close> rb False Inr
            by (simp add: tryE_def readT_def bindE_def writeT_def)
          have fin: "finite (dom ?m)" by (rule cipher_finite [OF Suc.prems(1)])
          have bytes: "stored - b = cipher_bytes (wCipher (view s1) ?v)"
            using cipher_bytes_drop [OF fin c(1)] Suc.prems(2) c(2) m1 by simp
          have "{q \<in> dom ?m. q < vCurrentRevision vault} =
              insert r {q \<in> dom (?m(r := None)). q < vCurrentRevision vault}"
            using c old by auto
          then have "card {q \<in> dom (wCipher (view s1) ?v). q < vCurrentRevision vault} < fuel"
            using Suc.prems(3) fin m1 by simp
          from Suc.IH [OF conjunct1 [OF del] bytes this next_run] show ?thesis
          proof (elim disjE exE conjE)
            fix k
            assume k: "res = Inr ()" "inv s'" "k \<le> vCurrentRevision vault"
              "view s' = (view s1)\<lparr>wCipher := (wCipher (view s1))(?v := from_revision k (wCipher (view s1) ?v))\<rparr>"
              "cipher_bytes (from_revision k (wCipher (view s1) ?v)) + incoming \<le> cfByteBudget cf"
            let ?k = "max k (r + 1)"
            have eq: "from_revision k (wCipher (view s1) ?v) = from_revision ?k ?m"
              unfolding m1 by (rule from_revision_drop [OF least old])
            have "?k \<le> vCurrentRevision vault" using k(3) u64_Suc_le [OF old] by simp
            moreover have "view s' = (view s)\<lparr>wCipher := (wCipher (view s))(?v := from_revision ?k ?m)\<rparr>"
              using k(4) conjunct2 [OF del] unfolding eq by simp
            ultimately show ?thesis using k(1,2,5) unfolding eq by blast
          qed blast+
        qed
      qed
    qed
  qed
qed

lemma makeRoom_run:
  assumes inv: "inv s" and run: "makeRoom T cf vault incoming s = (res, s')"
  shows "(\<exists>k. res = Inr () \<and> inv s' \<and> k \<le> vCurrentRevision vault \<and>
      view s' = (view s)\<lparr>wCipher := (wCipher (view s))(vID vault := from_revision k (wCipher (view s) (vID vault)))\<rparr> \<and>
      cipher_bytes (from_revision k (wCipher (view s) (vID vault))) + incoming \<le> cfByteBudget cf) \<or>
    (\<exists>e. res = Inl e \<and> (e = ErrQuota \<or> txCiphertextBytes T (vID vault) s = Inl e \<or>
      (\<exists>s1. txOldestCiphertext T (vID vault) s1 = Inl e) \<or> (\<exists>s1 r. txDeleteCiphertext T (vID vault) r s1 = Inl e)))"
proof (cases "cfByteBudget cf < incoming")
  case True
  then show ?thesis using run by (simp add: makeRoom_def raise_eq)
next
  case False
  show ?thesis
  proof (cases "txCiphertextBytes T (vID vault) s")
    case (Inl e)
    then show ?thesis using run False by (auto simp: makeRoom_def bindE_def readT_def)
  next
    case (Inr stored)
    have loop: "evictLoop T cf vault incoming (2 ^ 64) stored s = (res, s')"
      using run False Inr by (simp add: makeRoom_def bindE_def readT_def)
    have "card {q \<in> dom (wCipher (view s) (vID vault)). q < vCurrentRevision vault} \<le> unat (vCurrentRevision vault)"
      unfolding card_below [symmetric] by (rule card_mono) auto
    then have "card {q \<in> dom (wCipher (view s) (vID vault)). q < vCurrentRevision vault} < 2 ^ 64"
      using unat_u64_lt [of "vCurrentRevision vault"] by linarith
    from evictLoop_run [OF inv CiphertextBytes_ok [OF inv Inr] this loop] show ?thesis by blast
  qed
qed

lemma makeRoom_ok:
  assumes "inv s" "makeRoom T cf vault incoming s = (Inr u, s')"
  obtains k where "inv s'" "k \<le> vCurrentRevision vault"
    "view s' = (view s)\<lparr>wCipher := (wCipher (view s))(vID vault := from_revision k (wCipher (view s) (vID vault)))\<rparr>"
    "cipher_bytes (from_revision k (wCipher (view s) (vID vault))) + incoming \<le> cfByteBudget cf"
  using makeRoom_run [OF assms] by blast

end

end
