(* ===== verification/Service_Spec.thy ===== *)
theory Service_Spec
  imports Service_Parts
begin

text \<open>
  The effect of every handler that succeeds, as an equation between the views of the store before
  and after it.  The lemmas are proved from the contract of the storage interface alone.
\<close>

section \<open>Writes on a view\<close>

abbreviation put_vault :: "Vault \<Rightarrow> sview \<Rightarrow> sview" where
  "put_vault x w \<equiv> w\<lparr>wVault := (wVault w)(vID x \<mapsto> x)\<rparr>"

abbreviation put_device :: "Device \<Rightarrow> sview \<Rightarrow> sview" where
  "put_device d w \<equiv> w\<lparr>wDevice := (wDevice w)(dVaultID d := (wDevice w (dVaultID d))(dDeviceID d \<mapsto> d))\<rparr>"

abbreviation add_entry :: "DeviceListEntry \<Rightarrow> sview \<Rightarrow> sview" where
  "add_entry e w \<equiv> w\<lparr>wEntries := (wEntries w)(eVaultID e := wEntries w (eVaultID e) @ [e])\<rparr>"

abbreviation put_package :: "KeyPackage \<Rightarrow> sview \<Rightarrow> sview" where
  "put_package p w \<equiv> w\<lparr>wPackage := (wPackage w)(pVaultID (kPackage p) :=
     (wPackage w (pVaultID (kPackage p)))(pRecipientDeviceID (kPackage p) \<mapsto> p))\<rparr>"

abbreviation put_pairing :: "Pairing \<Rightarrow> sview \<Rightarrow> sview" where
  "put_pairing g w \<equiv> w\<lparr>wPairing := (wPairing w)(gVaultID g := (wPairing w (gVaultID g))(gDeviceID g \<mapsto> g))\<rparr>"

abbreviation drop_pairing :: "string \<Rightarrow> string \<Rightarrow> sview \<Rightarrow> sview" where
  "drop_pairing v i w \<equiv> w\<lparr>wPairing := (wPairing w)(v := (wPairing w v)(i := None))\<rparr>"

abbreviation purge_expired :: "gotime \<Rightarrow> sview \<Rightarrow> sview" where
  "purge_expired now w \<equiv> w\<lparr>
     wPairing := (\<lambda>v i. case wPairing w v i of
       Some g \<Rightarrow> if \<not> now < gExpiresAt g then None else Some g | None \<Rightarrow> None),
     wNonce := (\<lambda>sc n. case wNonce w sc n of
       Some until \<Rightarrow> if \<not> now < until then None else Some until | None \<Rightarrow> None)\<rparr>"

abbreviation put_checkpoint :: "StoredCheckpoint \<Rightarrow> sview \<Rightarrow> sview" where
  "put_checkpoint c w \<equiv> w\<lparr>wCheckpoint := (wCheckpoint w)(cVaultID (scCheckpoint c) :=
     (wCheckpoint w (cVaultID (scCheckpoint c)))(cDeviceID (scCheckpoint c) \<mapsto> c))\<rparr>"

abbreviation drop_vault :: "string \<Rightarrow> sview \<Rightarrow> sview" where
  "drop_vault v w \<equiv> w\<lparr>wVault := (wVault w)(v := None),
     wDevice := (wDevice w)(v := (\<lambda>_. None)), wEntries := (wEntries w)(v := []),
     wPackage := (wPackage w)(v := (\<lambda>_. None)), wHeader := (wHeader w)(v := (\<lambda>_. None)),
     wCipher := (wCipher w)(v := (\<lambda>_. None)), wPairing := (wPairing w)(v := (\<lambda>_. None)),
     wCheckpoint := (wCheckpoint w)(v := (\<lambda>_. None))\<rparr>"

text \<open>What a signed request has established when the rest of the handler starts.\<close>

definition signed :: "ed25519 \<Rightarrow> (nat \<Rightarrow> gotime) \<Rightarrow> Caller \<Rightarrow> SignedRequest \<Rightarrow> Actor \<Rightarrow> sview \<Rightarrow> sview \<Rightarrow> bool" where
  "signed ed clk caller request a w w1 \<longleftrightarrow>
     is_actor w (clk 0) caller a \<and> spends clk (actorScope a) (rqNonce request) w w1 \<and>
     isOk (requestVerify ed (signedBy caller request) (dSigningKey (aDevice a)) (rqSignature request) (unix (clk 1)))"

definition accepts ::
  "'s Tx \<Rightarrow> ('s \<Rightarrow> sview) \<Rightarrow> ed25519 \<Rightarrow> (nat \<Rightarrow> gotime) \<Rightarrow> Caller \<Rightarrow> SignedRequest \<Rightarrow> 's \<Rightarrow> Actor \<Rightarrow> sview \<Rightarrow> bool" where
  "accepts T view ed clk caller request s a w1 \<longleftrightarrow>
     (\<exists>s1. signedActor T ed clk caller request s = (Inr a, s1) \<and> view s1 = w1)"

lemma signed_tables [simp]:
  assumes "signed ed clk caller request a w w1"
  shows "wVault w1 = wVault w" "wDevice w1 = wDevice w" "wEntries w1 = wEntries w" "wPackage w1 = wPackage w"
    "wHeader w1 = wHeader w" "wCipher w1 = wCipher w" "wPairing w1 = wPairing w" "wCheckpoint w1 = wCheckpoint w"
  using assms by (auto simp: signed_def dest: spends_tables)

lemma actor_vault:
  "is_actor w now caller a \<Longrightarrow> wVault w (vID (aVault a)) = Some (aVault a) \<and> opaqueID (vID (aVault a)) \<and>
     vOwnerKey (aVault a) = caOwnerKey caller"
  by (simp add: is_actor_def)

lemma actor_device:
  "is_actor w now caller a \<Longrightarrow> aPairing a = None \<Longrightarrow>
     wDevice w (vID (aVault a)) (dDeviceID (aDevice a)) = Some (aDevice a) \<and>
     dTokenDeviceID (aDevice a) = caTokenDeviceID caller"
  by (simp add: is_actor_def)

lemma actor_pairing:
  "is_actor w now caller a \<Longrightarrow> aPairing a = Some g \<Longrightarrow>
     wPairing w (vID (aVault a)) (gDeviceID g) = Some g \<and> gTokenDeviceID g = caTokenDeviceID caller \<and>
     now < gExpiresAt g \<and> a = pairingActor (aVault a) g"
  by (simp add: is_actor_def)

lemma signed_actor: "signed ed clk caller request a w w1 \<Longrightarrow> is_actor w (clk 0) caller a"
  by (simp add: signed_def)

lemmas signed_vault = actor_vault [OF signed_actor]
lemmas signed_device = actor_device [OF signed_actor]
lemmas signed_pairing = actor_pairing [OF signed_actor]

definition createdVault :: "(nat \<Rightarrow> gotime) \<Rightarrow> Caller \<Rightarrow> DeviceListEntry \<Rightarrow> Vault" where
  "createdVault clk caller entry =
     \<lparr>vID = eVaultID entry, vOwnerKey = caOwnerKey caller, vCurrentRevision = 0, vHeadIndex = 1, vEpoch = 1,
      vCreatedAt = clk 4, vUpdatedAt = clk 4\<rparr>"

definition createdDevice :: "(nat \<Rightarrow> gotime) \<Rightarrow> Caller \<Rightarrow> DeviceListEntry \<Rightarrow> Device" where
  "createdDevice clk caller entry =
     \<lparr>dVaultID = eVaultID entry, dDeviceID = eSubjectDeviceID entry, dTokenDeviceID = caTokenDeviceID caller,
      dSigningKey = eSubjectSigningKey entry, dPackageKey = eSubjectPackageKey entry, dState = DeviceApproved,
      dAddedIndex = 1, dActivatedEpoch = 1, dCreatedAt = clk 4\<rparr>"

lemma single_entry:
  assumes "VerifyDeviceList ed [entry] = Inr l"
  shows "entryValidate entry = Inr ()" "Epoch l = 1" "Head l = 1" "lVaultID l = eVaultID entry" "eIndex entry = 1"
    "eKind entry = EntryCreate"
proof -
  have x: "Extend ed NewDeviceList entry = Inr l" using assms by (simp add: VerifyDeviceList_def split: sum.splits)
  then have "entryValidate entry = Inr () \<and> Epoch l = 1 \<and> Head l = 1 \<and> lVaultID l = eVaultID entry \<and> eIndex entry = 1 \<and>
    eKind entry = EntryCreate"
  proof (cases rule: ExtendE)
    case create
    then show ?thesis by (simp add: Head_def NewDeviceList_def)
  qed (auto simp: follows_def NewDeviceList_def)
  then show "entryValidate entry = Inr ()" "Epoch l = 1" "Head l = 1" "lVaultID l = eVaultID entry" "eIndex entry = 1"
    "eKind entry = EntryCreate"
    by simp_all
qed

definition offeredPairing :: "(nat \<Rightarrow> gotime) \<Rightarrow> Vault \<Rightarrow> Caller \<Rightarrow> PairingOffer \<Rightarrow> Pairing" where
  "offeredPairing clk vault caller offer =
     \<lparr>gVaultID = vID vault, gDeviceID = ofDeviceID offer, gTokenDeviceID = caTokenDeviceID caller,
      gSigningKey = ofSigningKey offer, gPackageKey = ofPackageKey offer, gOffer = ofMessage offer,
      gAnswer = [], gConfirm = [], gState = PairingOffered, gExpiresAt = clk 5 + PairingLifetime,
      gCreatedAt = clk 5\<rparr>"

definition withoutPrevious :: "string \<Rightarrow> string \<Rightarrow> sview \<Rightarrow> sview \<Rightarrow> bool" where
  "withoutPrevious v tok w w' \<longleftrightarrow>
     (\<exists>g. wPairing w v (gDeviceID g) = Some g \<and> gTokenDeviceID g = tok \<and> w' = drop_pairing v (gDeviceID g) w) \<or>
     (w' = w \<and> (\<forall>i g. wPairing w v i = Some g \<longrightarrow> gTokenDeviceID g \<noteq> tok))"

context sync_tx
begin

lemma createVault_ok:
  assumes inv: "inv s" and run: "createVaultTx T ed clk caller request entry s = (Inr x, s')"
  obtains w1 l where "inv s'" "\<not> callerMissing caller" "VerifyDeviceList ed [entry] = Inr l"
    "\<And>v y. wVault (view s) v = Some y \<Longrightarrow> vOwnerKey y \<noteq> caOwnerKey caller"
    "isOk (requestVerify ed (signedBy caller request) (eSubjectSigningKey entry) (rqSignature request) (unix (clk 1)))"
    "spends clk (ownerScope caller) (rqNonce request) (view s) w1"
    "wVault (view s) (eVaultID entry) = None" "x = createdVault clk caller entry"
    "view s' = put_device (createdDevice clk caller entry) (add_entry entry (put_vault x w1))"
proof -
  have c: "\<not> callerMissing caller" and own: "txVaultByOwner T (caOwnerKey caller) s = Inl ErrNotFound"
    using run by (auto simp: createVaultTx_def txm_simps split: if_splits sum.splits)
  obtain l where l: "VerifyDeviceList ed [entry] = Inr l"
    using run c own by (auto simp: createVaultTx_def txm_simps)
  note e = single_entry [OF l]
  obtain s1 s2 s3 where
    s1: "verifyRequest T ed clk (ownerScope caller) (eSubjectSigningKey entry) caller request s = (Inr (), s1)"
    and s2: "txInsertVault T (createdVault clk caller entry) s1 = Inr s2"
    and s3: "txAppendDeviceListEntry T entry s2 = Inr s3"
    and s4: "txPutDevice T (createdDevice clk caller entry) s3 = Inr s'"
    and x: "x = createdVault clk caller entry"
    using run c own l e(2)
    by (auto simp: createVaultTx_def txm_simps Let_def createdVault_def createdDevice_def)
  note ids = entryValidateD(1,3) [OF e(1)]
  note v1 = verifyRequest_ok [OF inv s1]
  have "opaqueID (vID (createdVault clk caller entry))" using ids by (simp add: createdVault_def)
  note v2 = InsertVault_ok [OF v1(1) this s2]
  note v3 = AppendDeviceListEntry_ok [OF conjunct1 [OF conjunct2 [OF v2]] s3]
  have "opaqueID (dVaultID (createdDevice clk caller entry))" "opaqueID (dDeviceID (createdDevice clk caller entry))"
    using ids by (simp_all add: createdDevice_def)
  note v4 = PutDevice_ok [OF conjunct1 [OF v3] this s4]
  have fresh: "wVault (view s) (eVaultID entry) = None"
    using v2 v1(3) by (simp add: createdVault_def)
  show ?thesis
  proof (rule that [OF _ c l _ v1(2,3) fresh x])
    show "inv s'" using v4 by blast
    show "vOwnerKey y \<noteq> caOwnerKey caller" if "wVault (view s) v = Some y" for v y
      using VaultByOwner_missing [OF inv own that] .
    show "view s' = put_device (createdDevice clk caller entry) (add_entry entry (put_vault x (view s1)))"
      using v2 v3 v4 x by simp
  qed
qed

lemma pairings_card:
  assumes inv: "inv s" and v: "opaqueID v" and gs: "txPairings T v s = Inr gs"
  shows "card {i. wPairing (view s) v i \<noteq> None} = length gs"
proof -
  note p = Pairings_ok [OF inv v gs]
  have "{i. wPairing (view s) v i \<noteq> None} = gDeviceID ` set gs"
    using p pairing_key [OF inv] by (force simp: image_iff)
  then show ?thesis using p by (metis card_image distinct_card distinct_map length_map set_map)
qed

lemma beginPairing_ok:
  assumes inv: "inv s" and run: "beginPairingTx T ed clk caller request offer s = (Inr u, s')"
  obtains vault w1 w2 where "inv s'" "\<not> callerMissing caller" "wVault (view s) (vID vault) = Some vault"
    "vOwnerKey vault = caOwnerKey caller" "opaqueID (vID vault)" "\<not> badMessage (ofMessage offer)"
    "entryValidate (offerProbe vault offer) = Inr ()"
    "isOk (requestVerify ed (signedBy caller request) (ofSigningKey offer) (rqSignature request) (unix (clk 1)))"
    "spends clk (ownerScope caller) (rqNonce request) (view s) w1"
    "\<And>i d. wDevice (view s) (vID vault) i = Some d \<Longrightarrow> dTokenDeviceID d = caTokenDeviceID caller \<Longrightarrow> dState d = DeviceRevoked"
    "wDevice (view s) (vID vault) (ofDeviceID offer) = None"
    "withoutPrevious (vID vault) (caTokenDeviceID caller) w1 w2"
    "card {i. wPairing (purge_expired (clk 4) w2) (vID vault) i \<noteq> None} < MaxPendingPairings"
    "view s' = put_pairing (offeredPairing clk vault caller offer) (purge_expired (clk 4) w2)"
proof -
  let ?tok = "caTokenDeviceID caller"
  have c: "\<not> callerMissing caller" using run by (auto simp: beginPairingTx_def txm_simps split: if_splits)
  obtain vault where own: "txVaultByOwner T (caOwnerKey caller) s = Inr vault"
    using run c by (auto simp: beginPairingTx_def txm_simps split: if_splits sum.splits)
  let ?v = "vID vault"
  have vault: "wVault (view s) ?v = Some vault" "vOwnerKey vault = caOwnerKey caller" "opaqueID ?v"
    using VaultByOwner_ok [OF inv own] vault_key [OF inv] by blast+
  obtain s1 s2 s3 gs where bad: "\<not> badMessage (ofMessage offer)"
    and probe: "entryValidate (offerProbe vault offer) = Inr ()"
    and s1: "verifyRequest T ed clk (ownerScope caller) (ofSigningKey offer) caller request s = (Inr (), s1)"
    and dev: "txDeviceByToken T ?v ?tok s1 = Inl ErrNotFound \<or>
      (\<exists>d. txDeviceByToken T ?v ?tok s1 = Inr d \<and> dState d = DeviceRevoked)"
    and used: "txDevice T ?v (ofDeviceID offer) s1 = Inl ErrNotFound"
    and prev: "txPairingByToken T ?v ?tok s1 = Inl ErrNotFound \<and> s2 = s1 \<or>
      (\<exists>g. txPairingByToken T ?v ?tok s1 = Inr g \<and> txDeletePairing T ?v (gDeviceID g) s1 = Inr s2)"
    and s3: "txPurgeExpired T (clk 4) s2 = Inr s3"
    and gs: "txPairings T ?v s3 = Inr gs" "length gs < MaxPendingPairings"
    and s4: "txPutPairing T (offeredPairing clk vault caller offer) s3 = Inr s'"
    using run c own
    by (auto simp: beginPairingTx_def txm_simps Let_def offeredPairing_def not_le split: sum.splits)
  note v1 = verifyRequest_ok [OF inv s1]
  note tables = spends_tables [OF v1(3)]
  have revoked: "dState d = DeviceRevoked"
    if "wDevice (view s) ?v i = Some d" "dTokenDeviceID d = ?tok" for i d
    using dev that DeviceByToken_ok [OF v1(1) vault(3)] DeviceByToken_missing [OF v1(1) vault(3)]
    unfolding tables by blast
  have unused: "wDevice (view s) ?v (ofDeviceID offer) = None"
    using Device_missing [OF v1(1) vault(3) used] unfolding tables .
  have v2: "inv s2 \<and> withoutPrevious ?v ?tok (view s1) (view s2)"
    using prev
  proof (elim disjE exE conjE)
    assume "txPairingByToken T ?v ?tok s1 = Inl ErrNotFound" "s2 = s1"
    then show ?thesis
      using v1(1) PairingByToken_missing [OF v1(1) vault(3)] unfolding withoutPrevious_def by blast
  next
    fix g
    assume g: "txPairingByToken T ?v ?tok s1 = Inr g" "txDeletePairing T ?v (gDeviceID g) s1 = Inr s2"
    show ?thesis
      using PairingByToken_ok [OF v1(1) vault(3) g(1)] DeletePairing_ok [OF v1(1) vault(3) g(2)]
      unfolding withoutPrevious_def by blast
  qed
  note v3 = PurgeExpired_ok [OF conjunct1 [OF v2] s3]
  have ids: "opaqueID (gVaultID (offeredPairing clk vault caller offer))"
    "opaqueID (gDeviceID (offeredPairing clk vault caller offer))"
    using vault(3) entryValidateD(3) [OF probe] by (simp_all add: offeredPairing_def offerProbe_def)
  note v4 = PutPairing_ok [OF conjunct1 [OF v3] ids s4]
  have few: "card {i. wPairing (purge_expired (clk 4) (view s2)) ?v i \<noteq> None} < MaxPendingPairings"
    using pairings_card [OF conjunct1 [OF v3] vault(3) gs(1)] gs(2) unfolding conjunct2 [OF v3] by simp
  show ?thesis
  proof (rule that [OF _ c vault bad probe v1(2,3) revoked unused conjunct2 [OF v2] few])
    show "inv s'" using v4 by blast
    show "view s' = put_pairing (offeredPairing clk vault caller offer) (purge_expired (clk 4) (view s2))"
      using v4 unfolding conjunct2 [OF v3] by blast
  qed
qed

lemma signedActor_signed:
  assumes "inv s" "signedActor T ed clk caller request s = (Inr a, s1)"
  shows "inv s1" "signed ed clk caller request a (view s) (view s1)" "opaqueID (vID (aVault a))"
    "accepts T view ed clk caller request s a (view s1)"
  using signedActor_ok [OF assms] assms(2) unfolding signed_def is_actor_def accepts_def by blast+

lemma answerPairing_ok:
  assumes inv: "inv s" and run: "answerPairingTx T ed clk caller request deviceID message s = (Inr u, s')"
  obtains a w1 g where "inv s'" "signed ed clk caller request a (view s) w1"
    "accepts T view ed clk caller request s a w1" "requireActivated a = Inr ()"
    "\<not> badMessage message" "wPairing (view s) (vID (aVault a)) deviceID = Some g" "gState g = PairingOffered"
    "clk 4 < gExpiresAt g" "view s' = put_pairing (g\<lparr>gAnswer := message, gState := PairingAnswered\<rparr>) w1"
proof -
  obtain a s1 g where s1: "signedActor T ed clk caller request s = (Inr a, s1)"
    and act: "requireActivated a = Inr ()" and bad: "\<not> badMessage message"
    and g: "txPairing T (vID (aVault a)) deviceID s1 = Inr g" "gState g = PairingOffered" "clk 4 < gExpiresAt g"
    and s2: "txPutPairing T (g\<lparr>gAnswer := message, gState := PairingAnswered\<rparr>) s1 = Inr s'"
    using run by (auto simp: answerPairingTx_def txm_simps)
  note v1 = signedActor_signed [OF inv s1]
  have row: "wPairing (view s) (vID (aVault a)) deviceID = Some g"
    using Pairing_ok [OF v1(1,3) g(1)] v1(2) by simp
  have "opaqueID (gVaultID g)" "opaqueID (gDeviceID g)" using pairing_key [OF inv row] by simp_all
  then have "inv s' \<and> view s' = put_pairing (g\<lparr>gAnswer := message, gState := PairingAnswered\<rparr>) (view s1)"
    using PutPairing_ok [OF v1(1) _ _ s2] by simp
  then show ?thesis using that [OF _ v1(2,4) act bad row g(2,3)] by blast
qed

lemma confirmPairing_ok:
  assumes inv: "inv s" and run: "confirmPairingTx T ed clk caller request message s = (Inr u, s')"
  obtains a w1 g where "inv s'" "signed ed clk caller request a (view s) w1"
    "accepts T view ed clk caller request s a w1" "aPairing a = Some g"
    "\<not> badMessage message" "wPairing (view s) (vID (aVault a)) (gDeviceID g) = Some g" "gState g = PairingAnswered"
    "view s' = put_pairing (g\<lparr>gConfirm := message, gState := PairingConfirmed\<rparr>) w1"
proof -
  obtain a s1 g where s1: "signedActor T ed clk caller request s = (Inr a, s1)"
    and g: "aPairing a = Some g" "gState g = PairingAnswered" and bad: "\<not> badMessage message"
    and s2: "txPutPairing T (g\<lparr>gConfirm := message, gState := PairingConfirmed\<rparr>) s1 = Inr s'"
    using run by (auto simp: confirmPairingTx_def txm_simps split: option.splits)
  note v1 = signedActor_signed [OF inv s1]
  have row: "wPairing (view s) (vID (aVault a)) (gDeviceID g) = Some g"
    using actor_pairing [OF _ g(1)] v1(2) unfolding signed_def by blast
  have "opaqueID (gVaultID g)" "opaqueID (gDeviceID g)" using pairing_key [OF inv row] by simp_all
  then have "inv s' \<and> view s' = put_pairing (g\<lparr>gConfirm := message, gState := PairingConfirmed\<rparr>) (view s1)"
    using PutPairing_ok [OF v1(1) _ _ s2] by simp
  then show ?thesis using that [OF _ v1(2,4) g(1) bad row g(2)] by blast
qed

lemma cancelPairing_ok:
  assumes inv: "inv s" and run: "cancelPairingTx T ed clk caller request deviceID s = (Inr u, s')"
  obtains a w1 i where "inv s'" "signed ed clk caller request a (view s) w1"
    "accepts T view ed clk caller request s a w1"
    "i = (case aPairing a of Some g \<Rightarrow> gDeviceID g | None \<Rightarrow> deviceID)"
    "aPairing a = None \<Longrightarrow> dState (aDevice a) = DeviceApproved"
    "view s' = drop_pairing (vID (aVault a)) i w1"
proof -
  let ?i = "\<lambda>a. case aPairing a of Some g \<Rightarrow> gDeviceID g | None \<Rightarrow> deviceID"
  obtain a s1 where s1: "signedActor T ed clk caller request s = (Inr a, s1)"
    and ap: "aPairing a = None \<Longrightarrow> dState (aDevice a) = DeviceApproved"
    and s2: "txDeletePairing T (vID (aVault a)) (?i a) s1 = Inr s'"
    using run by (auto simp: cancelPairingTx_def txm_simps split: option.splits)
  note v1 = signedActor_signed [OF inv s1]
  show ?thesis using that [OF _ v1(2,4) refl ap] DeletePairing_ok [OF v1(1,3) s2] by blast
qed

end

end
