(* ===== verification/Service_Spec2.thy ===== *)
theory Service_Spec2
  imports Service_Spec
begin

text \<open>
  The effect of the handlers that change the device list, store a snapshot or a checkpoint, or
  delete a vault.  The stored lists are assumed to verify, which is part of the invariant proved
  in the theory \<open>Service_Inv\<close>.
\<close>

definition lists_verify :: "ed25519 \<Rightarrow> sview \<Rightarrow> bool" where
  "lists_verify ed w \<longleftrightarrow> (\<forall>v x. wVault w v = Some x \<longrightarrow> (\<exists>l. VerifyDeviceList ed (wEntries w v) = Inr l))"

text \<open>The actor may change the list: it is approved and activated, and signs the next entry.\<close>

definition entry_by :: "Actor \<Rightarrow> string \<Rightarrow> DeviceListEntry \<Rightarrow> bool" where
  "entry_by a kind e \<longleftrightarrow> requireActivated a = Inr () \<and> eKind e = kind \<and>
     eSignerDeviceID e = dDeviceID (aDevice a) \<and> eVaultID e = vID (aVault a) \<and>
     eIndex e = vHeadIndex (aVault a) + 1"

definition approvedDevice :: "(nat \<Rightarrow> gotime) \<Rightarrow> DeviceListEntry \<Rightarrow> Pairing \<Rightarrow> Device" where
  "approvedDevice clk entry pairing =
     \<lparr>dVaultID = eVaultID entry, dDeviceID = eSubjectDeviceID entry, dTokenDeviceID = gTokenDeviceID pairing,
      dSigningKey = eSubjectSigningKey entry, dPackageKey = eSubjectPackageKey entry,
      dState = DeviceApproved, dAddedIndex = eIndex entry, dActivatedEpoch = 0, dCreatedAt = clk 5\<rparr>"

text \<open>The key package a rekey or an approval stores for a recipient.\<close>

definition package_ok :: "ed25519 \<Rightarrow> Actor \<Rightarrow> DeviceListEntry \<Rightarrow> u64 \<Rightarrow> KeyPackageV3 \<Rightarrow> bool" where
  "package_ok ed a e epoch p \<longleftrightarrow> pVaultID p = vID (aVault a) \<and> pSenderDeviceID p = dDeviceID (aDevice a) \<and>
     pVaultEpoch p = epoch \<and> pEntryDigest p = entryDigest e \<and> packageVerify ed p (dSigningKey (aDevice a)) = Inr ()"

definition package_rows :: "gotime \<Rightarrow> KeyPackageV3 list \<Rightarrow> string \<Rightarrow> KeyPackage option" where
  "package_rows now ps = map_of (map (\<lambda>p. (pRecipientDeviceID p, \<lparr>kPackage = p, kCreatedAt = now\<rparr>)) ps)"

definition rekeyed :: "string \<Rightarrow> DeviceListEntry \<Rightarrow> string \<Rightarrow> Device \<Rightarrow> Device" where
  "rekeyed kind e self d =
     (if kind = EntryRemove \<and> dDeviceID d = eSubjectDeviceID e then d\<lparr>dState := DeviceRevoked\<rparr>
      else if dDeviceID d = self \<and> dState d = DeviceApproved then d\<lparr>dActivatedEpoch := eEpochAfter e\<rparr>
      else d)"

lemma rekeyed_ids [simp]: "dVaultID (rekeyed kind e self d) = dVaultID d" "dDeviceID (rekeyed kind e self d) = dDeviceID d"
  "dTokenDeviceID (rekeyed kind e self d) = dTokenDeviceID d" "dSigningKey (rekeyed kind e self d) = dSigningKey d"
  "dPackageKey (rekeyed kind e self d) = dPackageKey d"
  by (simp_all add: rekeyed_def)

definition rekey_view :: "string \<Rightarrow> DeviceListEntry \<Rightarrow> Actor \<Rightarrow> KeyPackageV3 list \<Rightarrow> gotime \<Rightarrow> sview \<Rightarrow> sview" where
  "rekey_view kind e a ps now w =
     (let v = vID (aVault a);
          x = (aVault a)\<lparr>vHeadIndex := eIndex e, vEpoch := eEpochAfter e, vUpdatedAt := now\<rparr>
      in w\<lparr>wVault := (wVault w)(v \<mapsto> x),
           wDevice := (wDevice w)(v := (\<lambda>i. map_option (rekeyed kind e (dDeviceID (aDevice a))) (wDevice w v i))),
           wEntries := (wEntries w)(v := wEntries w v @ [e]),
           wPackage := (wPackage w)(v := package_rows now ps),
           wPairing := (wPairing w)(v := (\<lambda>_. None)),
           wCheckpoint := (if kind = EntryRemove
             then (wCheckpoint w)(v := (wCheckpoint w v)(eSubjectDeviceID e := None)) else wCheckpoint w)\<rparr>)"

definition uploadHeader :: "ed25519 \<Rightarrow> Config \<Rightarrow> (nat \<Rightarrow> gotime) \<Rightarrow> Vault \<Rightarrow> Header \<Rightarrow> StoredHeader" where
  "uploadHeader ed cf clk x h =
     \<lparr>shHeader = h, shDigest = headerDigest h,
      shReceipt = EncodeToString (receiptSign ed (cfReceiptKey cf) (uploadReceipt x h (clk 4))), shAcceptedAt = clk 4\<rparr>"

definition upload_view ::
  "ed25519 \<Rightarrow> Config \<Rightarrow> (nat \<Rightarrow> gotime) \<Rightarrow> Vault \<Rightarrow> Header \<Rightarrow> bytes \<Rightarrow> u64 \<Rightarrow> u64 \<Rightarrow> sview \<Rightarrow> sview" where
  "upload_view ed cf clk x h c from keep w =
     (let v = vID x
      in w\<lparr>wVault := (wVault w)(v \<mapsto> x\<lparr>vCurrentRevision := hRevision h, vUpdatedAt := clk 4\<rparr>),
           wHeader := (wHeader w)(v := from_revision keep ((wHeader w v)(hRevision h \<mapsto> uploadHeader ed cf clk x h))),
           wCipher := (wCipher w)(v := (from_revision from (wCipher w v))(hRevision h \<mapsto> c))\<rparr>)"

context sync_tx
begin

lemma signed_list:
  assumes "inv s1" "signed ed clk caller request a w (view s1)" "lists_verify ed w"
    and "loadList T ed (vID (aVault a)) s1 = (Inr l, s2)"
  shows "s2 = s1" "VerifyDeviceList ed (wEntries w (vID (aVault a))) = Inr l"
proof -
  have "wVault w (vID (aVault a)) = Some (aVault a)" using signed_vault [OF assms(2)] by simp
  then obtain l0 where l0: "VerifyDeviceList ed (wEntries w (vID (aVault a))) = Inr l0"
    using assms(3) unfolding lists_verify_def by blast
  have "VerifyDeviceList ed (wEntries (view s1) (vID (aVault a))) = Inr l0"
    using l0 signed_tables(3) [OF assms(2)] by simp
  from loadList_ok [OF assms(1) this assms(4)] l0
  show "s2 = s1" "VerifyDeviceList ed (wEntries w (vID (aVault a))) = Inr l" by simp_all
qed

lemma approve_ok:
  assumes inv: "inv s" and lists: "lists_verify ed (view s)"
    and run: "approveTx T ed clk caller request e p s = (Inr u, s')"
  obtains a w1 l l' g where "inv s'" "signed ed clk caller request a (view s) w1"
    "accepts T view ed clk caller request s a w1" "entry_by a EntryAdd e"
    "wPairing (view s) (vID (aVault a)) (eSubjectDeviceID e) = Some g" "gState g = PairingConfirmed"
    "clk 4 < gExpiresAt g" "gSigningKey g = eSubjectSigningKey e" "gPackageKey g = eSubjectPackageKey e"
    "VerifyDeviceList ed (wEntries (view s) (vID (aVault a))) = Inr l" "Extend ed l e = Inr l'"
    "package_ok ed a e (vEpoch (aVault a)) p" "pRecipientDeviceID p = eSubjectDeviceID e"
    "view s' = put_vault ((aVault a)\<lparr>vHeadIndex := eIndex e, vUpdatedAt := clk 5\<rparr>)
       (drop_pairing (vID (aVault a)) (eSubjectDeviceID e)
       (put_package \<lparr>kPackage = p, kCreatedAt = clk 5\<rparr>
       (put_device (approvedDevice clk e g) (add_entry e w1))))"
proof -
  obtain a s1 g l l' s2 s3 s4 s5 s6 where s1: "signedActor T ed clk caller request s = (Inr a, s1)"
    and en: "entry_by a EntryAdd e"
    and g: "txPairing T (vID (aVault a)) (eSubjectDeviceID e) s1 = Inr g" "gState g = PairingConfirmed"
      "clk 4 < gExpiresAt g" "gSigningKey g = eSubjectSigningKey e" "gPackageKey g = eSubjectPackageKey e"
    and load: "loadList T ed (vID (aVault a)) s1 = (Inr l, s2)" and exd: "Extend ed l e = Inr l'"
    and p: "package_ok ed a e (vEpoch (aVault a)) p" "pRecipientDeviceID p = eSubjectDeviceID e"
    and s3: "txAppendDeviceListEntry T e s2 = Inr s3"
    and s4: "txPutDevice T (approvedDevice clk e g) s3 = Inr s4"
    and s5: "txPutKeyPackage T \<lparr>kPackage = p, kCreatedAt = clk 5\<rparr> s4 = Inr s5"
    and s6: "txDeletePairing T (vID (aVault a)) (eSubjectDeviceID e) s5 = Inr s6"
    and s7: "txUpdateVault T ((aVault a)\<lparr>vHeadIndex := eIndex e, vUpdatedAt := clk 5\<rparr>) s6 = Inr s'"
    using run by (auto simp: approveTx_def txm_simps Let_def entry_by_def package_ok_def approvedDevice_def)
  note v1 = signedActor_signed [OF inv s1]
  note l = signed_list [OF v1(1,2) lists load]
  have actor: "wVault (view s) (vID (aVault a)) = Some (aVault a)"
    using signed_vault [OF v1(2)] by simp
  have row: "wPairing (view s) (vID (aVault a)) (eSubjectDeviceID e) = Some g"
    using Pairing_ok [OF v1(1,3) g(1)] signed_tables(7) [OF v1(2)] by simp
  have e: "eVaultID e = vID (aVault a)" using en by (simp add: entry_by_def)
  note v3 = AppendDeviceListEntry_ok [OF v1(1) s3 [unfolded l(1)]]
  have "opaqueID (eSubjectDeviceID e)" using pairing_key [OF inv row] by simp
  then have ids: "opaqueID (dVaultID (approvedDevice clk e g))" "opaqueID (dDeviceID (approvedDevice clk e g))"
    using v1(3) e by (simp_all add: approvedDevice_def)
  note v4 = PutDevice_ok [OF conjunct1 [OF v3] ids s4]
  have pids: "opaqueID (pVaultID (kPackage \<lparr>kPackage = p, kCreatedAt = clk 5\<rparr>))"
    "opaqueID (pRecipientDeviceID (kPackage \<lparr>kPackage = p, kCreatedAt = clk 5\<rparr>))"
    using packageVerifyD(1,3) [of ed p "dSigningKey (aDevice a)" "()"] p(1) by (simp_all add: package_ok_def)
  note v5 = PutKeyPackage_ok [OF conjunct1 [OF v4] pids s5]
  note v6 = DeletePairing_ok [OF conjunct1 [OF v5] v1(3) s6]
  have "wVault (view s6) (vID ((aVault a)\<lparr>vHeadIndex := eIndex e, vUpdatedAt := clk 5\<rparr>)) = Some (aVault a)"
    using v3 v4 v5 v6 actor signed_tables(1) [OF v1(2)] by simp
  note v7 = UpdateVault_ok [OF conjunct1 [OF v6] this _ s7]
  show ?thesis
  proof (rule that [OF _ v1(2,4) en row g(2-5) l(2) exd p])
    show "inv s'" using v7 by simp
    show "view s' = put_vault ((aVault a)\<lparr>vHeadIndex := eIndex e, vUpdatedAt := clk 5\<rparr>)
       (drop_pairing (vID (aVault a)) (eSubjectDeviceID e)
       (put_package \<lparr>kPackage = p, kCreatedAt = clk 5\<rparr>
       (put_device (approvedDevice clk e g) (add_entry e (view s1)))))"
      using v3 v4 v5 v6 v7 by simp
  qed
qed

lemma activate_ok:
  assumes inv: "inv s" and run: "activateTx T ed clk caller request dg s = (Inr u, s')"
  obtains a w1 p where "inv s'" "signed ed clk caller request a (view s) w1"
    "accepts T view ed clk caller request s a w1" "requireApproved a = Inr ()"
    "wPackage (view s) (vID (aVault a)) (dDeviceID (aDevice a)) = Some p"
    "pVaultEpoch (kPackage p) = vEpoch (aVault a)" "packageDigest (kPackage p) = dg"
    "view s' = put_device ((aDevice a)\<lparr>dActivatedEpoch := vEpoch (aVault a)\<rparr>) w1"
proof -
  obtain a s1 p where s1: "signedActor T ed clk caller request s = (Inr a, s1)"
    and ap: "requireApproved a = Inr ()"
    and p: "txKeyPackage T (vID (aVault a)) (dDeviceID (aDevice a)) s1 = Inr p"
      "pVaultEpoch (kPackage p) = vEpoch (aVault a)" "packageDigest (kPackage p) = dg"
    and s2: "txPutDevice T ((aDevice a)\<lparr>dActivatedEpoch := vEpoch (aVault a)\<rparr>) s1 = Inr s'"
    using run by (auto simp: activateTx_def txm_simps)
  note v1 = signedActor_signed [OF inv s1]
  have row: "wPackage (view s) (vID (aVault a)) (dDeviceID (aDevice a)) = Some p"
    using KeyPackage_ok [OF v1(1,3) p(1)] signed_tables(4) [OF v1(2)] by simp
  have "wDevice (view s) (vID (aVault a)) (dDeviceID (aDevice a)) = Some (aDevice a)"
    using signed_device [OF v1(2)] ap by simp
  from device_key [OF inv this]
  have "opaqueID (dVaultID ((aDevice a)\<lparr>dActivatedEpoch := vEpoch (aVault a)\<rparr>))"
    "opaqueID (dDeviceID ((aDevice a)\<lparr>dActivatedEpoch := vEpoch (aVault a)\<rparr>))" by simp_all
  from PutDevice_ok [OF v1(1) this s2] show ?thesis using that [OF _ v1(2,4) ap row p(2,3)] by blast
qed

section \<open>The loops of rekey\<close>

lemma putPackages_ok:
  assumes "inv s" "putPackages T ed a e now expected ps s = (Inr u, s')"
  shows "inv s'" "distinct (map pRecipientDeviceID ps)" "pRecipientDeviceID ` set ps \<subseteq> set expected"
    "\<forall>p \<in> set ps. package_ok ed a e (eEpochAfter e) p"
    "view s' = (view s)\<lparr>wPackage := (wPackage (view s))(vID (aVault a) :=
       wPackage (view s) (vID (aVault a)) ++ package_rows now ps)\<rparr>"
proof -
  have "inv s' \<and> distinct (map pRecipientDeviceID ps) \<and> pRecipientDeviceID ` set ps \<subseteq> set expected \<and>
    (\<forall>p \<in> set ps. package_ok ed a e (eEpochAfter e) p) \<and>
    view s' = (view s)\<lparr>wPackage := (wPackage (view s))(vID (aVault a) :=
       wPackage (view s) (vID (aVault a)) ++ package_rows now ps)\<rparr>"
    using assms
  proof (induction ps arbitrary: s expected)
    case Nil
    then show ?case by (simp add: ret_eq package_rows_def)
  next
    case (Cons p ps)
    let ?k = "\<lparr>kPackage = p, kCreatedAt = now\<rparr>"
    obtain s1 where r: "pRecipientDeviceID p \<in> set expected" and ok: "package_ok ed a e (eEpochAfter e) p"
      and s1: "txPutKeyPackage T ?k s = Inr s1"
      and rest: "putPackages T ed a e now (filter (\<lambda>d. d \<noteq> pRecipientDeviceID p) expected) ps s1 = (Inr u, s')"
      using Cons.prems(2) by (auto simp: txm_simps package_ok_def)
    have "opaqueID (pVaultID (kPackage ?k))" "opaqueID (pRecipientDeviceID (kPackage ?k))"
      using packageVerifyD(1,3) [of ed p "dSigningKey (aDevice a)" "()"] ok by (simp_all add: package_ok_def)
    note v1 = PutKeyPackage_ok [OF Cons.prems(1) this s1]
    note IH = Cons.IH [OF conjunct1 [OF v1] rest]
    have fresh: "pRecipientDeviceID p \<notin> pRecipientDeviceID ` set ps" using IH by auto
    then have "pRecipientDeviceID p \<notin> dom (package_rows now ps)"
      by (auto simp: package_rows_def dom_map_of_conv_image_fst)
    then have "(m(pRecipientDeviceID p \<mapsto> ?k)) ++ package_rows now ps = m ++ package_rows now (p # ps)" for m
      by (simp add: package_rows_def map_add_upd_left)
    note rows = this
    have pv: "pVaultID p = vID (aVault a)" using ok by (simp add: package_ok_def)
    have w1: "view s1 = (view s)\<lparr>wPackage := (wPackage (view s))(vID (aVault a) :=
       (wPackage (view s) (vID (aVault a)))(pRecipientDeviceID p \<mapsto> ?k))\<rparr>"
      using conjunct2 [OF v1] by (simp only: pv KeyPackage.select_convs)
    have "view s' = (view s1)\<lparr>wPackage := (wPackage (view s1))(vID (aVault a) :=
       wPackage (view s1) (vID (aVault a)) ++ package_rows now ps)\<rparr>" using IH by blast
    then have "view s' = (view s)\<lparr>wPackage := (wPackage (view s))(vID (aVault a) :=
       wPackage (view s) (vID (aVault a)) ++ package_rows now (p # ps))\<rparr>"
      unfolding w1 by (simp add: rows)
    moreover have "pRecipientDeviceID ` set (p # ps) \<subseteq> set expected" using IH r by auto
    moreover have "distinct (map pRecipientDeviceID (p # ps))" using IH fresh by auto
    moreover have "\<forall>q \<in> set (p # ps). package_ok ed a e (eEpochAfter e) q" using IH ok by auto
    moreover have "inv s'" using IH by blast
    ultimately show ?case by blast
  qed
  then show "inv s'" "distinct (map pRecipientDeviceID ps)" "pRecipientDeviceID ` set ps \<subseteq> set expected"
    "\<forall>p \<in> set ps. package_ok ed a e (eEpochAfter e) p"
    "view s' = (view s)\<lparr>wPackage := (wPackage (view s))(vID (aVault a) :=
       wPackage (view s) (vID (aVault a)) ++ package_rows now ps)\<rparr>"
    by blast+
qed

lemma rekeyDevice_ok:
  assumes "inv s" "wDevice (view s) v (dDeviceID d) = Some d" "rekeyDevice T kind e self d s = (Inr u, s')"
  shows "inv s' \<and> view s' = put_device (rekeyed kind e self d) (view s)"
proof -
  note k = device_key [OF assms(1,2)]
  have ids: "opaqueID (dVaultID (rekeyed kind e self d))" "opaqueID (dDeviceID (rekeyed kind e self d))"
    using k by simp_all
  consider "txPutDevice T (rekeyed kind e self d) s = Inr s'" | "s' = s" "rekeyed kind e self d = d"
    using assms(3) by (auto simp: rekeyDevice_def rekeyed_def txm_simps split: if_splits)
  then show ?thesis
  proof cases
    case 1
    show ?thesis by (rule PutDevice_ok [OF assms(1) ids 1])
  next
    case 2
    have "(wDevice (view s))(dVaultID d := (wDevice (view s) (dVaultID d))(dDeviceID d \<mapsto> d)) = wDevice (view s)"
      using assms(2) k by (auto simp: fun_eq_iff)
    then show ?thesis using 2 assms(1) by simp
  qed
qed

lemma rekeyDevices_ok:
  assumes "inv s" "opaqueID v" "\<forall>d \<in> set ds. wDevice (view s) v (dDeviceID d) = Some d" "distinct (map dDeviceID ds)"
    "forE ds (rekeyDevice T kind e self) s = (Inr u, s')"
  shows "inv s' \<and> view s' = (view s)\<lparr>wDevice := (wDevice (view s))(v := (\<lambda>i.
    if i \<in> dDeviceID ` set ds then map_option (rekeyed kind e self) (wDevice (view s) v i) else wDevice (view s) v i))\<rparr>"
  using assms
proof (induction ds arbitrary: s)
  case Nil
  then show ?case by (simp add: ret_eq)
next
  case (Cons d ds)
  obtain s1 where s1: "rekeyDevice T kind e self d s = (Inr (), s1)"
    and rest: "forE ds (rekeyDevice T kind e self) s1 = (Inr u, s')"
    using Cons.prems(5) by (auto simp: bindE_ok)
  have d: "wDevice (view s) v (dDeviceID d) = Some d" using Cons.prems(3) by simp
  note v1 = rekeyDevice_ok [OF Cons.prems(1) d s1]
  have dv: "dVaultID d = v" using device_key [OF Cons.prems(1) d] by simp
  have w1: "wDevice (view s1) v = (wDevice (view s) v)(dDeviceID d \<mapsto> rekeyed kind e self d)"
    using v1 dv by simp
  have "\<forall>x \<in> set ds. wDevice (view s1) v (dDeviceID x) = Some x"
  proof
    fix x
    assume x: "x \<in> set ds"
    then have "dDeviceID x \<in> dDeviceID ` set ds" by simp
    then have "dDeviceID x \<noteq> dDeviceID d" using Cons.prems(4) by auto
    then show "wDevice (view s1) v (dDeviceID x) = Some x" using Cons.prems(3) x unfolding w1 by simp
  qed
  moreover have "distinct (map dDeviceID ds)" using Cons.prems(4) by simp
  ultimately have "inv s' \<and> view s' = (view s1)\<lparr>wDevice := (wDevice (view s1))(v := (\<lambda>i.
    if i \<in> dDeviceID ` set ds then map_option (rekeyed kind e self) (wDevice (view s1) v i) else wDevice (view s1) v i))\<rparr>"
    by (rule Cons.IH [OF conjunct1 [OF v1] Cons.prems(2) _ _ rest])
  moreover have "(\<lambda>i. if i \<in> dDeviceID ` set ds then map_option (rekeyed kind e self) (wDevice (view s1) v i) else wDevice (view s1) v i) =
    (\<lambda>i. if i \<in> dDeviceID ` set (d # ds) then map_option (rekeyed kind e self) (wDevice (view s) v i) else wDevice (view s) v i)"
    using Cons.prems(4) d unfolding w1 by (auto simp: fun_eq_iff)
  ultimately show ?case using v1 dv by (simp add: fun_upd_def cong: if_cong)
qed

lemma dropPairings_ok:
  assumes "inv s" "opaqueID v" "forE gs (\<lambda>g. writeT (txDeletePairing T v (gDeviceID g))) s = (Inr u, s')"
  shows "inv s' \<and> view s' = (view s)\<lparr>wPairing := (wPairing (view s))(v := (\<lambda>i.
    if i \<in> gDeviceID ` set gs then None else wPairing (view s) v i))\<rparr>"
  using assms
proof (induction gs arbitrary: s)
  case Nil
  then show ?case by (simp add: ret_eq)
next
  case (Cons g gs)
  obtain s1 where s1: "txDeletePairing T v (gDeviceID g) s = Inr s1"
    and rest: "forE gs (\<lambda>g. writeT (txDeletePairing T v (gDeviceID g))) s1 = (Inr u, s')"
    using Cons.prems(3) by (auto simp: bindE_ok writeT_ok)
  note v1 = DeletePairing_ok [OF Cons.prems(1,2) s1]
  note IH = Cons.IH [OF conjunct1 [OF v1] Cons.prems(2) rest]
  have "(\<lambda>i. if i \<in> gDeviceID ` set gs then None else wPairing (view s1) v i) =
    (\<lambda>i. if i \<in> gDeviceID ` set (g # gs) then None else wPairing (view s) v i)"
    using v1 by (auto simp: fun_eq_iff)
  then show ?case using IH v1 by (simp add: fun_upd_def cong: if_cong)
qed

lemma expected_all:
  assumes "distinct rs" "set rs \<subseteq> set expected" "length rs = length (remdups expected)"
  shows "set rs = set expected"
  using assms by (metis List.finite_set card_subset_eq distinct_card length_remdups_card_conv)

lemma rekey_ok:
  assumes inv: "inv s" and lists: "lists_verify ed (view s)"
    and run: "rekeyTx T ed clk caller request kind e ps s = (Inr u, s')"
  obtains a w1 l l' where "inv s'" "signed ed clk caller request a (view s) w1"
    "accepts T view ed clk caller request s a w1" "entry_by a kind e"
    "VerifyDeviceList ed (wEntries (view s) (vID (aVault a))) = Inr l" "Extend ed l e = Inr l'"
    "distinct (map pRecipientDeviceID ps)"
    "pRecipientDeviceID ` set ps = mDeviceID ` set (Current l') - {dDeviceID (aDevice a)}"
    "\<forall>p \<in> set ps. package_ok ed a e (eEpochAfter e) p"
    "view s' = rekey_view kind e a ps (clk 4) w1"
proof -
  obtain a s1 s2 l l' s3 s4 s5 s6 ds s7 gs s8 where s1: "signedActor T ed clk caller request s = (Inr a, s1)"
    and en: "entry_by a kind e"
    and load: "loadList T ed (vID (aVault a)) s1 = (Inr l, s2)" and exd: "Extend ed l e = Inr l'"
    and len: "length ps = length (remdups (filter (\<lambda>d. d \<noteq> dDeviceID (aDevice a)) (map mDeviceID (Current l'))))"
    and s3: "txDeleteKeyPackages T (vID (aVault a)) s2 = Inr s3"
    and s4: "putPackages T ed a e (clk 4) (filter (\<lambda>d. d \<noteq> dDeviceID (aDevice a)) (map mDeviceID (Current l'))) ps s3 = (Inr (), s4)"
    and s5: "txAppendDeviceListEntry T e s4 = Inr s5"
    and s6: "kind = EntryRemove \<and> txDeleteCheckpoint T (vID (aVault a)) (eSubjectDeviceID e) s5 = Inr s6 \<or>
      kind \<noteq> EntryRemove \<and> s6 = s5"
    and ds: "txDevices T (vID (aVault a)) s6 = Inr ds"
    and s7: "forE ds (rekeyDevice T kind e (dDeviceID (aDevice a))) s6 = (Inr (), s7)"
    and gs: "txPairings T (vID (aVault a)) s7 = Inr gs"
    and s8: "forE gs (\<lambda>g. writeT (txDeletePairing T (vID (aVault a)) (gDeviceID g))) s7 = (Inr (), s8)"
    and s9: "txUpdateVault T ((aVault a)\<lparr>vHeadIndex := eIndex e, vEpoch := eEpochAfter e, vUpdatedAt := clk 4\<rparr>) s8 = Inr s'"
    using run unfolding rekeyTx_def Let_def
    by (auto simp: txm_simps entry_by_def split: if_splits)
  let ?v = "vID (aVault a)" and ?self = "dDeviceID (aDevice a)"
  let ?exp = "filter (\<lambda>d. d \<noteq> ?self) (map mDeviceID (Current l'))"
  note v1 = signedActor_signed [OF inv s1]
  note l = signed_list [OF v1(1,2) lists load]
  have ev: "eVaultID e = ?v" using en by (simp add: entry_by_def)
  note v3 = DeleteKeyPackages_ok [OF v1(1,3) s3 [unfolded l(1)]]
  note v4 = putPackages_ok [OF conjunct1 [OF v3] s4]
  note v5 = AppendDeviceListEntry_ok [OF v4(1) s5]
  have v6: "inv s6 \<and> view s6 = (view s5)\<lparr>wCheckpoint := (if kind = EntryRemove
      then (wCheckpoint (view s5))(?v := (wCheckpoint (view s5) ?v)(eSubjectDeviceID e := None)) else wCheckpoint (view s5))\<rparr>"
    using s6 v5 DeleteCheckpoint_ok [OF conjunct1 [OF v5] v1(3), of "eSubjectDeviceID e" s6] by auto
  note devs = Devices_ok [OF conjunct1 [OF v6] v1(3) ds]
  have rows: "\<forall>d \<in> set ds. wDevice (view s6) ?v (dDeviceID d) = Some d"
    using devs device_key [OF conjunct1 [OF v6]] by blast
  note v7 = rekeyDevices_ok [OF conjunct1 [OF v6] v1(3) rows conjunct2 [OF devs] s7]
  have all_devs: "wDevice (view s6) ?v i = None" if "i \<notin> dDeviceID ` set ds" for i
  proof (rule ccontr)
    assume "wDevice (view s6) ?v i \<noteq> None"
    then obtain d where d: "wDevice (view s6) ?v i = Some d" by blast
    then have "d \<in> set ds" using devs by blast
    moreover have "dDeviceID d = i" using device_key [OF conjunct1 [OF v6] d] by simp
    ultimately show False using that by blast
  qed
  have w7: "view s7 = (view s6)\<lparr>wDevice := (wDevice (view s6))(?v := (\<lambda>i.
      map_option (rekeyed kind e ?self) (wDevice (view s6) ?v i)))\<rparr>"
  proof -
    have "(\<lambda>i. if i \<in> dDeviceID ` set ds then map_option (rekeyed kind e ?self) (wDevice (view s6) ?v i)
        else wDevice (view s6) ?v i) = (\<lambda>i. map_option (rekeyed kind e ?self) (wDevice (view s6) ?v i))"
      using all_devs by (intro ext) simp
    then show ?thesis using v7 by (simp only:)
  qed
  note pairs = Pairings_ok [OF conjunct1 [OF v7] v1(3) gs]
  note v8 = dropPairings_ok [OF conjunct1 [OF v7] v1(3) s8]
  have all_pairs: "wPairing (view s7) ?v i = None" if "i \<notin> gDeviceID ` set gs" for i
  proof (rule ccontr)
    assume "wPairing (view s7) ?v i \<noteq> None"
    then obtain g where g: "wPairing (view s7) ?v i = Some g" by blast
    then have "g \<in> set gs" using pairs by blast
    moreover have "gDeviceID g = i" using pairing_key [OF conjunct1 [OF v7] g] by simp
    ultimately show False using that by blast
  qed
  have w8: "view s8 = (view s7)\<lparr>wPairing := (wPairing (view s7))(?v := (\<lambda>_. None))\<rparr>"
  proof -
    have "(\<lambda>i. if i \<in> gDeviceID ` set gs then None else wPairing (view s7) ?v i) = (\<lambda>_. None)"
      using all_pairs by (intro ext) simp
    then show ?thesis using v8 by (simp only:)
  qed
  have tables: "wVault (view s8) = wVault (view s)"
    using v3 v4(5) v5 v6 w7 w8 signed_tables(1) [OF v1(2)] by simp
  have "wVault (view s8) (vID ((aVault a)\<lparr>vHeadIndex := eIndex e, vEpoch := eEpochAfter e, vUpdatedAt := clk 4\<rparr>)) = Some (aVault a)"
    unfolding tables using signed_vault [OF v1(2)] by simp
  note v9 = UpdateVault_ok [OF conjunct1 [OF v8] this _ s9]
  have final: "view s' = rekey_view kind e a ps (clk 4) (view s1)"
    unfolding rekey_view_def Let_def
    using v3 v4(5) v5 v6 w7 w8 v9 ev by (simp add: fun_upd_def cong: if_cong)
  have rec: "set (map pRecipientDeviceID ps) = set ?exp"
    by (rule expected_all) (use v4(2,3) len in simp_all)
  show ?thesis
  proof (rule that [OF _ v1(2,4) en l(2) exd v4(2) _ v4(4) final])
    show "inv s'" using v9 by simp
    show "pRecipientDeviceID ` set ps = mDeviceID ` set (Current l') - {?self}" using rec by auto
  qed
qed

lemma upgradeKey_ok:
  assumes inv: "inv s" and lists: "lists_verify ed (view s)"
    and run: "upgradeKeyTx T ed clk caller request e s = (Inr u, s')"
  obtains a w1 l l' where "inv s'" "signed ed clk caller request a (view s) w1"
    "accepts T view ed clk caller request s a w1" "entry_by a EntryKey e"
    "VerifyDeviceList ed (wEntries (view s) (vID (aVault a))) = Inr l" "Extend ed l e = Inr l'"
    "view s' = put_vault ((aVault a)\<lparr>vHeadIndex := eIndex e, vUpdatedAt := clk 4\<rparr>)
       (put_device ((aDevice a)\<lparr>dPackageKey := eSubjectPackageKey e\<rparr>) (add_entry e w1))"
proof -
  obtain a s1 s2 l l' s3 s4 where s1: "signedActor T ed clk caller request s = (Inr a, s1)"
    and en: "entry_by a EntryKey e"
    and load: "loadList T ed (vID (aVault a)) s1 = (Inr l, s2)" and exd: "Extend ed l e = Inr l'"
    and s3: "txAppendDeviceListEntry T e s2 = Inr s3"
    and s4: "txPutDevice T ((aDevice a)\<lparr>dPackageKey := eSubjectPackageKey e\<rparr>) s3 = Inr s4"
    and s5: "txUpdateVault T ((aVault a)\<lparr>vHeadIndex := eIndex e, vUpdatedAt := clk 4\<rparr>) s4 = Inr s'"
    using run by (auto simp: upgradeKeyTx_def txm_simps entry_by_def)
  note v1 = signedActor_signed [OF inv s1]
  note l = signed_list [OF v1(1,2) lists load]
  note v3 = AppendDeviceListEntry_ok [OF v1(1) s3 [unfolded l(1)]]
  have "aPairing a = None" using en by (simp add: entry_by_def)
  from device_key [OF inv conjunct1 [OF signed_device [OF v1(2) this]]]
  have ids: "opaqueID (dVaultID ((aDevice a)\<lparr>dPackageKey := eSubjectPackageKey e\<rparr>))"
    "opaqueID (dDeviceID ((aDevice a)\<lparr>dPackageKey := eSubjectPackageKey e\<rparr>))" by simp_all
  note v4 = PutDevice_ok [OF conjunct1 [OF v3] ids s4]
  have "wVault (view s4) (vID ((aVault a)\<lparr>vHeadIndex := eIndex e, vUpdatedAt := clk 4\<rparr>)) = Some (aVault a)"
    using v3 v4 signed_vault [OF v1(2)] signed_tables(1) [OF v1(2)] by simp
  note v5 = UpdateVault_ok [OF conjunct1 [OF v4] this _ s5]
  show ?thesis
  proof (rule that [OF _ v1(2,4) en l(2) exd])
    show "inv s'" using v5 by simp
    show "view s' = put_vault ((aVault a)\<lparr>vHeadIndex := eIndex e, vUpdatedAt := clk 4\<rparr>)
       (put_device ((aDevice a)\<lparr>dPackageKey := eSubjectPackageKey e\<rparr>) (add_entry e (view s1)))"
      using v3 v4 v5 by simp
  qed
qed

end

end
