(* ===== verification/Service_Spec3.thy ===== *)
theory Service_Spec3
  imports Service_Spec2
begin

text \<open>
  The effect of the handlers that store a snapshot or a checkpoint, that delete a vault, and of
  the maintenance run.
\<close>

lemma checkedNext_eq: "checkedNext r = Some q \<longleftrightarrow> r \<noteq> -1 \<and> q = r + 1"
  by (auto simp: checkedNext_def)

lemma next_above: "r \<noteq> -1 \<Longrightarrow> r < r + (1 :: u64)"
  using unat_u64_Suc [of r] by (simp add: word_less_nat_alt)

lemma from_revision_twice: "k \<le> n \<Longrightarrow> from_revision n (from_revision k m) = from_revision n m"
  by (auto simp: from_revision_def fun_eq_iff)

lemma from_revision_update: "\<not> r < k \<Longrightarrow> from_revision k (m(r \<mapsto> x)) = (from_revision k m)(r \<mapsto> x)"
  by (auto simp: from_revision_def fun_eq_iff)

text \<open>The header the new one has to follow.\<close>

definition follows_latest :: "sview \<Rightarrow> Vault \<Rightarrow> Header \<Rightarrow> Header option \<Rightarrow> bool" where
  "follows_latest w x h prev \<longleftrightarrow>
     vCurrentRevision x = 0 \<and> prev = None \<or>
     0 < vCurrentRevision x \<and> (\<exists>sh. prev = Some (shHeader sh) \<and>
       wHeader w (vID x) (hRevision (shHeader sh)) = Some sh \<and>
       (\<forall>r g. wHeader w (vID x) r = Some g \<longrightarrow> r \<le> hRevision (shHeader sh)) \<and> hPreviousDigest h = shDigest sh)"

definition raises :: "Header option \<Rightarrow> Header \<Rightarrow> bool" where
  "raises prev h \<longleftrightarrow> (case prev of Some p \<Rightarrow> hVaultEpoch p < hVaultEpoch h | None \<Rightarrow> False)"

definition keepFrom :: "Config \<Rightarrow> Header \<Rightarrow> u64" where
  "keepFrom cf h = (if cfHeaderRetention cf < hRevision h then hRevision h - cfHeaderRetention cf + 1 else 0)"

definition header_for :: "Actor \<Rightarrow> Header \<Rightarrow> bytes \<Rightarrow> bool" where
  "header_for a h c \<longleftrightarrow> requireActivated a = Inr () \<and> headerValidate h = Inr () \<and> hVaultID h = vID (aVault a) \<and>
     hDeviceID h = dDeviceID (aDevice a) \<and> checkedNext (vCurrentRevision (aVault a)) = Some (hRevision h) \<and>
     hVaultEpoch h = vEpoch (aVault a) \<and> hDeviceListIndex h = vHeadIndex (aVault a) \<and> VerifyCiphertext h c = Inr ()"

context sync_tx
begin

lemma uploadPrevious_ok:
  assumes inv: "inv s" and run: "uploadPrevious T x h s = (Inr prev, s')"
  shows "s' = s \<and> follows_latest (view s) x h prev"
proof (cases "0 < vCurrentRevision x")
  case True
  obtain sh where sh: "txLatestHeader T (vID x) s = Inr sh" "hPreviousDigest h = shDigest sh"
    "prev = Some (shHeader sh)" "s' = s"
    using run True by (auto simp: uploadPrevious_def txm_simps)
  show ?thesis using LatestHeader_ok [OF inv sh(1)] sh(2-4) True unfolding follows_latest_def by blast
next
  case False
  then show ?thesis using run by (simp add: uploadPrevious_def ret_eq follows_latest_def word_gt_0)
qed

lemma uploadStore_steps:
  assumes "uploadStore T ed cf (clk 4) x prev h c s = (Inr acc, s')"
  obtains s1 s2 s3 s4 where "txInsertHeader T (uploadHeader ed cf clk x h) s = Inr s1"
    "txPutCiphertext T (vID x) (hRevision h) c s1 = Inr s2"
    "raises prev h \<and> txDeleteCiphertextsBefore T (vID x) (hRevision h) s2 = Inr s3 \<or> \<not> raises prev h \<and> s3 = s2"
    "txUpdateVault T (x\<lparr>vCurrentRevision := hRevision h, vUpdatedAt := clk 4\<rparr>) s3 = Inr s4"
    "cfHeaderRetention cf < hRevision h \<and>
        txPruneHeaders T (vID x) (hRevision h - cfHeaderRetention cf + 1) s4 = Inr s' \<or>
      \<not> cfHeaderRetention cf < hRevision h \<and> s' = s4"
    "acc = \<lparr>acHeader = uploadHeader ed cf clk x h,
       acVault = x\<lparr>vCurrentRevision := hRevision h, vUpdatedAt := clk 4\<rparr>,
       acReceipt = shReceipt (uploadHeader ed cf clk x h)\<rparr>"
  using assms unfolding uploadStore_def Let_def raises_def [symmetric]
  by (auto simp: txm_simps uploadHeader_def raises_def split: if_splits)

lemma upload_ok:
  assumes inv: "inv s" and lists: "lists_verify ed (view s)"
    and run: "uploadTx T ed cf clk caller request h c s = (Inr acc, s')"
  obtains a w1 l prev k where "inv s'" "signed ed clk caller request a (view s) w1"
    "accepts T view ed clk caller request s a w1" "header_for a h c"
    "VerifyDeviceList ed (wEntries (view s) (vID (aVault a))) = Inr l" "follows_latest (view s) (aVault a) h prev"
    "VerifyHeader ed l prev h = Inr ()" "k \<le> vCurrentRevision (aVault a)"
    "cipher_bytes (from_revision k (wCipher (view s) (vID (aVault a)))) + int (length c) \<le> cfByteBudget cf"
    "view s' = upload_view ed cf clk (aVault a) h c (if raises prev h then hRevision h else k) (keepFrom cf h) w1"
    "acc = \<lparr>acHeader = uploadHeader ed cf clk (aVault a) h,
       acVault = (aVault a)\<lparr>vCurrentRevision := hRevision h, vUpdatedAt := clk 4\<rparr>,
       acReceipt = shReceipt (uploadHeader ed cf clk (aVault a) h)\<rparr>"
proof -
  obtain a s1 s2 l s3 prev s4 where s1: "signedActor T ed clk caller request s = (Inr a, s1)"
    and hf: "header_for a h c"
    and load: "loadList T ed (vID (aVault a)) s1 = (Inr l, s2)"
    and prev: "uploadPrevious T (aVault a) h s2 = (Inr prev, s3)"
    and vh: "VerifyHeader ed l prev h = Inr ()"
    and s4: "makeRoom T cf (aVault a) (int (length c)) s3 = (Inr (), s4)"
    and store: "uploadStore T ed cf (clk 4) (aVault a) prev h c s4 = (Inr acc, s')"
    using run unfolding uploadTx_def Let_def by (auto simp: txm_simps header_for_def)
  obtain s5 s6 s7 s8 where s5: "txInsertHeader T (uploadHeader ed cf clk (aVault a) h) s4 = Inr s5"
    and s6: "txPutCiphertext T (vID (aVault a)) (hRevision h) c s5 = Inr s6"
    and s7: "raises prev h \<and> txDeleteCiphertextsBefore T (vID (aVault a)) (hRevision h) s6 = Inr s7 \<or>
      \<not> raises prev h \<and> s7 = s6"
    and s8: "txUpdateVault T ((aVault a)\<lparr>vCurrentRevision := hRevision h, vUpdatedAt := clk 4\<rparr>) s7 = Inr s8"
    and s9: "cfHeaderRetention cf < hRevision h \<and>
        txPruneHeaders T (vID (aVault a)) (hRevision h - cfHeaderRetention cf + 1) s8 = Inr s' \<or>
      \<not> cfHeaderRetention cf < hRevision h \<and> s' = s8"
    and acc: "acc = \<lparr>acHeader = uploadHeader ed cf clk (aVault a) h,
       acVault = (aVault a)\<lparr>vCurrentRevision := hRevision h, vUpdatedAt := clk 4\<rparr>,
       acReceipt = shReceipt (uploadHeader ed cf clk (aVault a) h)\<rparr>"
    using store by (rule uploadStore_steps)
  let ?v = "vID (aVault a)" and ?r = "hRevision h"
  note v1 = signedActor_signed [OF inv s1]
  note tables = signed_tables [OF v1(2)]
  note l = signed_list [OF v1(1,2) lists load]
  note pv = uploadPrevious_ok [OF v1(1) prev [unfolded l(1)]]
  have s3: "s3 = s1" using pv by blast
  have latest: "follows_latest (view s) (aVault a) h prev" using pv unfolding follows_latest_def tables by blast
  obtain k where k: "inv s4" "k \<le> vCurrentRevision (aVault a)"
    "view s4 = (view s1)\<lparr>wCipher := (wCipher (view s1))(?v := from_revision k (wCipher (view s1) ?v))\<rparr>"
    "cipher_bytes (from_revision k (wCipher (view s1) ?v)) + int (length c) \<le> cfByteBudget cf"
    by (rule makeRoom_ok [OF v1(1) s4 [unfolded s3]])
  have hv: "hVaultID h = ?v" "hVaultID (shHeader (uploadHeader ed cf clk (aVault a) h)) = ?v"
    "hRevision (shHeader (uploadHeader ed cf clk (aVault a) h)) = ?r"
    using hf by (simp_all add: header_for_def uploadHeader_def)
  have rev: "vCurrentRevision (aVault a) < ?r"
    using hf next_above by (auto simp: header_for_def checkedNext_eq)
  have w5: "inv s5 \<and> view s5 = (view s4)\<lparr>wHeader := (wHeader (view s4))(?v :=
      (wHeader (view s4) ?v)(?r \<mapsto> uploadHeader ed cf clk (aVault a) h))\<rparr>"
    using InsertHeader_ok [OF k(1) s5] unfolding hv by blast
  note v6 = PutCiphertext_ok [OF conjunct1 [OF w5] s6]
  let ?from = "if raises prev h then ?r else k"
  have w7: "inv s7 \<and> view s7 = (view s5)\<lparr>wCipher := (wCipher (view s5))(?v :=
      (from_revision ?from (wCipher (view s1) ?v))(?r \<mapsto> c))\<rparr>"
  proof -
    have c5: "wCipher (view s5) ?v = from_revision k (wCipher (view s1) ?v)" using w5 k(3) by simp
    have "k \<le> ?r" using k(2) rev by simp
    have c6: "wCipher (view s6) ?v = (from_revision k (wCipher (view s1) ?v))(?r \<mapsto> c)" using v6 c5 by simp
    have cut: "(\<lambda>r. if r < ?r then None else wCipher (view s6) ?v r) =
        (from_revision ?r (wCipher (view s1) ?v))(?r \<mapsto> c)"
      unfolding c6 from_revision_def [of ?r, symmetric]
      by (simp only: from_revision_update [OF less_irrefl] from_revision_twice [OF \<open>k \<le> ?r\<close>])
    show ?thesis
      using s7
    proof (elim disjE conjE)
      assume r: "raises prev h" and del: "txDeleteCiphertextsBefore T ?v ?r s6 = Inr s7"
      show ?thesis
        using DeleteCiphertextsBefore_ok [OF conjunct1 [OF v6] del] v6 r unfolding cut by simp
    next
      assume "\<not> raises prev h" "s7 = s6"
      then show ?thesis using v6 by (simp add: c5)
    qed
  qed
  have "wVault (view s7) (vID ((aVault a)\<lparr>vCurrentRevision := ?r, vUpdatedAt := clk 4\<rparr>)) = Some (aVault a)"
    using w7 w5 k(3) tables(1) signed_vault [OF v1(2)] by simp
  note v8 = UpdateVault_ok [OF conjunct1 [OF w7] this _ s8]
  have w8: "inv s8" "view s8 = put_vault ((aVault a)\<lparr>vCurrentRevision := ?r, vUpdatedAt := clk 4\<rparr>) (view s7)"
    using v8 by simp_all
  have w9: "inv s' \<and> view s' = (view s8)\<lparr>wHeader := (wHeader (view s8))(?v := from_revision (keepFrom cf h) (wHeader (view s8) ?v))\<rparr>"
    using s9 PruneHeaders_ok [OF w8(1), of ?v "?r - cfHeaderRetention cf + 1" s'] w8(1)
    by (auto simp: keepFrom_def from_revision_def)
  have final: "view s' = upload_view ed cf clk (aVault a) h c ?from (keepFrom cf h) (view s1)"
    unfolding upload_view_def Let_def using w9 w8(2) w7 w5 k(3) by (simp add: fun_upd_def cong: if_cong)
  show ?thesis
    by (rule that [OF conjunct1 [OF w9] v1(2,4) hf l(2) latest vh k(2) k(4) [unfolded tables] final acc])
qed

lemma putCheckpoint_ok:
  assumes inv: "inv s" and run: "putCheckpointTx T ed clk caller request c s = (Inr sc, s')"
  obtains a w1 where "inv s'" "signed ed clk caller request a (view s) w1"
    "accepts T view ed clk caller request s a w1" "requireActivated a = Inr ()"
    "cVaultID c = vID (aVault a)" "cDeviceID c = dDeviceID (aDevice a)"
    "checkpointVerify ed c (dSigningKey (aDevice a)) = Inr ()" "WithinRequestSkew (cObservedAt c) (unix (clk 4))"
    "\<And>p. wCheckpoint (view s) (vID (aVault a)) (dDeviceID (aDevice a)) = Some p \<Longrightarrow>
       cObservedAt (scCheckpoint p) < cObservedAt c \<and> cDeviceListIndex (scCheckpoint p) \<le> cDeviceListIndex c \<and>
       cHeaderRevision (scCheckpoint p) \<le> cHeaderRevision c"
    "sc = \<lparr>scCheckpoint = c, scAcceptedAt = clk 5\<rparr>" "view s' = put_checkpoint sc w1"
proof -
  obtain a s1 where s1: "signedActor T ed clk caller request s = (Inr a, s1)" and act: "requireActivated a = Inr ()"
    and ids: "cVaultID c = vID (aVault a)" "cDeviceID c = dDeviceID (aDevice a)"
    and cv: "checkpointVerify ed c (dSigningKey (aDevice a)) = Inr ()"
    and skew: "WithinRequestSkew (cObservedAt c) (unix (clk 4))"
    and prev: "txCheckpoint T (vID (aVault a)) (dDeviceID (aDevice a)) s1 = Inl ErrNotFound \<or>
      (\<exists>p. txCheckpoint T (vID (aVault a)) (dDeviceID (aDevice a)) s1 = Inr p \<and>
       cObservedAt (scCheckpoint p) < cObservedAt c \<and> cDeviceListIndex (scCheckpoint p) \<le> cDeviceListIndex c \<and>
       cHeaderRevision (scCheckpoint p) \<le> cHeaderRevision c)"
    and s2: "txPutCheckpoint T \<lparr>scCheckpoint = c, scAcceptedAt = clk 5\<rparr> s1 = Inr s'"
    and sc: "sc = \<lparr>scCheckpoint = c, scAcceptedAt = clk 5\<rparr>"
    using run unfolding putCheckpointTx_def Let_def by (auto simp: txm_simps not_le not_less)
  note v1 = signedActor_signed [OF inv s1]
  have mono: "cObservedAt (scCheckpoint p) < cObservedAt c \<and> cDeviceListIndex (scCheckpoint p) \<le> cDeviceListIndex c \<and>
       cHeaderRevision (scCheckpoint p) \<le> cHeaderRevision c"
    if row: "wCheckpoint (view s) (vID (aVault a)) (dDeviceID (aDevice a)) = Some p" for p
    using prev
  proof (elim disjE exE conjE)
    assume "txCheckpoint T (vID (aVault a)) (dDeviceID (aDevice a)) s1 = Inl ErrNotFound"
    from Checkpoint_missing [OF v1(1,3) this] row signed_tables(8) [OF v1(2)] show ?thesis by simp
  next
    fix q
    assume "txCheckpoint T (vID (aVault a)) (dDeviceID (aDevice a)) s1 = Inr q"
      and q: "cObservedAt (scCheckpoint q) < cObservedAt c" "cDeviceListIndex (scCheckpoint q) \<le> cDeviceListIndex c"
        "cHeaderRevision (scCheckpoint q) \<le> cHeaderRevision c"
    from Checkpoint_ok [OF v1(1,3) this(1)] row signed_tables(8) [OF v1(2)] have "q = p" by simp
    with q show ?thesis by simp
  qed
  have "opaqueID (cVaultID (scCheckpoint sc))" "opaqueID (cDeviceID (scCheckpoint sc))"
    using checkpointVerifyD(1,2) [OF cv] by (simp_all add: sc)
  from PutCheckpoint_ok [OF v1(1) this s2 [folded sc]]
  show ?thesis using that [OF _ v1(2,4) act ids cv skew mono sc] by blast
qed

lemma reset_ok:
  assumes inv: "inv s" and run: "resetTx T ed clk caller request epoch s = (Inr u, s')"
  obtains a w1 where "inv s'" "signed ed clk caller request a (view s) w1"
    "accepts T view ed clk caller request s a w1" "requireApproved a = Inr ()"
    "epoch = vEpoch (aVault a)" "view s' = drop_vault (vID (aVault a)) w1"
proof -
  obtain a s1 where s1: "signedActor T ed clk caller request s = (Inr a, s1)" and ap: "requireApproved a = Inr ()"
    and ep: "epoch = vEpoch (aVault a)" and s2: "txDeleteVault T (vID (aVault a)) s1 = Inr s'"
    using run by (auto simp: resetTx_def txm_simps)
  note v1 = signedActor_signed [OF inv s1]
  show ?thesis using that [OF _ v1(2,4) ap ep] DeleteVault_ok [OF v1(1,3) s2] by blast
qed

lemma maintain_ok:
  assumes "inv s" "maintainTx T clk s = (Inr u, s')"
  shows "inv s' \<and> view s' = purge_expired (clk 0) (view s)"
proof -
  have "txPurgeExpired T (clk 0) s = Inr s'" using assms(2) by (simp add: maintainTx_def writeT_ok)
  from PurgeExpired_ok [OF assms(1) this] show ?thesis .
qed

lemma adminReset_ok:
  assumes inv: "inv s" and run: "adminResetTx T owner s = (Inr u, s')"
  obtains x where "inv s'" "wVault (view s) (vID x) = Some x" "vOwnerKey x = owner"
    "view s' = drop_vault (vID x) (view s)"
proof -
  obtain x where x: "txVaultByOwner T owner s = Inr x" and s1: "txDeleteVault T (vID x) s = Inr s'"
    using run by (auto simp: adminResetTx_def txm_simps)
  note v = VaultByOwner_ok [OF inv x]
  have "opaqueID (vID x)" using vault_key [OF inv] v by blast
  from DeleteVault_ok [OF inv this s1] show ?thesis using that v by blast
qed

end

end
