(* ===== verification/Service_Inv.thy ===== *)
theory Service_Inv
  imports Service_Spec3
begin

text \<open>
  The invariant of a stored vault, as predicates on the rows of its tables, and that the writes of
  the handlers keep it.  The stored device list verifies and the device rows are its members; the
  stored headers form a linked chain that ends at the current revision and verify against the
  list; the ciphertexts match their headers and fit the budget; key packages are of the current
  epoch and addressed to members; pairings are few, belong to no device and follow their states.
\<close>

section \<open>The invariant\<close>

definition device_member :: "Device \<Rightarrow> DeviceListMember \<Rightarrow> bool" where
  "device_member d m \<longleftrightarrow> dSigningKey d = mSigningKey m \<and> dPackageKey d = mPackageKey m \<and>
     dAddedIndex d = mAddedIndex m \<and> dState d = (if mRemovedIndex m = 0 then DeviceApproved else DeviceRevoked)"

definition current :: "DeviceList \<Rightarrow> string \<Rightarrow> DeviceListMember \<Rightarrow> bool" where
  "current l i m \<longleftrightarrow> map_of (lMembers l) i = Some m \<and> mRemovedIndex m = 0"

definition list_inv :: "string \<Rightarrow> Vault \<Rightarrow> DeviceList \<Rightarrow> (string \<Rightarrow> Device option) \<Rightarrow> bool" where
  "list_inv v x l dev \<longleftrightarrow> vID x = v \<and> lVaultID l = v \<and> lDigests l \<noteq> [] \<and> vHeadIndex x = Head l \<and> vEpoch x = Epoch l \<and>
     (\<forall>i. rel_option device_member (dev i) (map_of (lMembers l) i))"

definition header_inv :: "ed25519 \<Rightarrow> u64 \<Rightarrow> DeviceList \<Rightarrow> (u64 \<Rightarrow> StoredHeader option) \<Rightarrow> bool" where
  "header_inv ed cur l hs \<longleftrightarrow>
     (\<forall>r h. hs r = Some h \<longrightarrow> r \<noteq> 0 \<and> r \<le> cur \<and> hRevision (shHeader h) = r \<and> shDigest h = headerDigest (shHeader h) \<and>
        (\<exists>prev. VerifyHeader ed l prev (shHeader h) = Inr ())) \<and>
     (\<forall>r g h. r \<noteq> -1 \<and> hs r = Some g \<and> hs (r + 1) = Some h \<longrightarrow> verifyLink (shHeader g) (shHeader h) = Inr ()) \<and>
     (\<forall>r q. hs r \<noteq> None \<and> r \<le> q \<and> q \<le> cur \<longrightarrow> hs q \<noteq> None) \<and>
     (cur \<noteq> 0 \<longrightarrow> hs cur \<noteq> None)"

definition cipher_inv :: "Config \<Rightarrow> u64 \<Rightarrow> (u64 \<Rightarrow> StoredHeader option) \<Rightarrow> (u64 \<Rightarrow> bytes option) \<Rightarrow> bool" where
  "cipher_inv cf cur hs ct \<longleftrightarrow>
     (\<forall>r. ct r \<noteq> None \<longrightarrow> r \<noteq> 0 \<and> r \<le> cur) \<and> (cur \<noteq> 0 \<longrightarrow> ct cur \<noteq> None) \<and>
     (\<forall>r h c. hs r = Some h \<and> ct r = Some c \<longrightarrow> VerifyCiphertext (shHeader h) c = Inr ()) \<and>
     finite (dom ct) \<and> cipher_bytes ct \<le> cfByteBudget cf"

definition package_inv :: "ed25519 \<Rightarrow> Vault \<Rightarrow> DeviceList \<Rightarrow> (string \<Rightarrow> KeyPackage option) \<Rightarrow> bool" where
  "package_inv ed x l pk \<longleftrightarrow>
     (\<forall>i p. pk i = Some p \<longrightarrow> pVaultID (kPackage p) = vID x \<and> pRecipientDeviceID (kPackage p) = i \<and>
        pVaultEpoch (kPackage p) = vEpoch x \<and> (\<exists>m. current l i m) \<and>
        (\<exists>m. map_of (lMembers l) (pSenderDeviceID (kPackage p)) = Some m \<and>
           packageVerify ed (kPackage p) (mSigningKey m) = Inr ()))"

definition pairing_state_ok :: "Pairing \<Rightarrow> bool" where
  "pairing_state_ok g \<longleftrightarrow> \<not> badMessage (gOffer g) \<and>
     (gState g = PairingOffered \<and> gAnswer g = [] \<and> gConfirm g = [] \<or>
      gState g = PairingAnswered \<and> \<not> badMessage (gAnswer g) \<and> gConfirm g = [] \<or>
      gState g = PairingConfirmed \<and> \<not> badMessage (gAnswer g) \<and> \<not> badMessage (gConfirm g))"

definition pairing_inv :: "(string \<Rightarrow> Device option) \<Rightarrow> (string \<Rightarrow> Pairing option) \<Rightarrow> bool" where
  "pairing_inv dev pr \<longleftrightarrow> finite (dom pr) \<and> card (dom pr) \<le> MaxPendingPairings \<and>
     (\<forall>i g. pr i = Some g \<longrightarrow> gDeviceID g = i \<and> dev i = None \<and> pairing_state_ok g) \<and>
     (\<forall>i j g h. pr i = Some g \<and> pr j = Some h \<and> gTokenDeviceID g = gTokenDeviceID h \<longrightarrow> i = j) \<and>
     (\<forall>i j g d. pr i = Some g \<and> dev j = Some d \<and> dTokenDeviceID d = gTokenDeviceID g \<longrightarrow> dState d = DeviceRevoked)"

definition checkpoint_inv :: "ed25519 \<Rightarrow> DeviceList \<Rightarrow> (string \<Rightarrow> StoredCheckpoint option) \<Rightarrow> bool" where
  "checkpoint_inv ed l cp \<longleftrightarrow>
     (\<forall>i c. cp i = Some c \<longrightarrow> cVaultID (scCheckpoint c) = lVaultID l \<and> cDeviceID (scCheckpoint c) = i \<and>
        (\<exists>m. current l i m \<and> checkpointVerify ed (scCheckpoint c) (mSigningKey m) = Inr ()))"

definition vault_inv :: "ed25519 \<Rightarrow> Config \<Rightarrow> sview \<Rightarrow> string \<Rightarrow> Vault \<Rightarrow> DeviceList \<Rightarrow> bool" where
  "vault_inv ed cf w v x l \<longleftrightarrow>
     VerifyDeviceList ed (wEntries w v) = Inr l \<and> list_inv v x l (wDevice w v) \<and>
     header_inv ed (vCurrentRevision x) l (wHeader w v) \<and>
     cipher_inv cf (vCurrentRevision x) (wHeader w v) (wCipher w v) \<and>
     package_inv ed x l (wPackage w v) \<and> pairing_inv (wDevice w v) (wPairing w v) \<and>
     checkpoint_inv ed l (wCheckpoint w v)"

definition no_vault :: "sview \<Rightarrow> string \<Rightarrow> bool" where
  "no_vault w v \<longleftrightarrow> wEntries w v = [] \<and> wDevice w v = (\<lambda>_. None) \<and> wPackage w v = (\<lambda>_. None) \<and>
     wHeader w v = (\<lambda>_. None) \<and> wCipher w v = (\<lambda>_. None) \<and> wPairing w v = (\<lambda>_. None) \<and> wCheckpoint w v = (\<lambda>_. None)"

definition sinv :: "ed25519 \<Rightarrow> Config \<Rightarrow> sview \<Rightarrow> bool" where
  "sinv ed cf w \<longleftrightarrow>
     (\<forall>v x. wVault w v = Some x \<longrightarrow> (\<exists>l. vault_inv ed cf w v x l)) \<and> (\<forall>v. wVault w v = None \<longrightarrow> no_vault w v)"

lemma sinv_vault: "sinv ed cf w \<Longrightarrow> wVault w v = Some x \<Longrightarrow> \<exists>l. vault_inv ed cf w v x l"
  by (simp add: sinv_def)

lemma sinv_lists: "sinv ed cf w \<Longrightarrow> lists_verify ed w"
  unfolding sinv_def lists_verify_def vault_inv_def by blast

text \<open>A write that touches one vault keeps the invariant of the others.\<close>

definition same_vault :: "sview \<Rightarrow> sview \<Rightarrow> string \<Rightarrow> bool" where
  "same_vault w w' v \<longleftrightarrow> wVault w' v = wVault w v \<and> wDevice w' v = wDevice w v \<and> wEntries w' v = wEntries w v \<and>
     wPackage w' v = wPackage w v \<and> wHeader w' v = wHeader w v \<and> wCipher w' v = wCipher w v \<and>
     wPairing w' v = wPairing w v \<and> wCheckpoint w' v = wCheckpoint w v"

lemma same_vault_inv: "same_vault w w' v \<Longrightarrow> vault_inv ed cf w' v x l \<longleftrightarrow> vault_inv ed cf w v x l"
  by (simp add: same_vault_def vault_inv_def)

lemma same_vault_none: "same_vault w w' v \<Longrightarrow> no_vault w' v \<longleftrightarrow> no_vault w v"
  by (simp add: same_vault_def no_vault_def)

lemma sinv_one:
  assumes inv: "sinv ed cf w" and others: "\<And>u. u \<noteq> v \<Longrightarrow> same_vault w w' u"
    and this_vault: "wVault w' v = Some x'" "vault_inv ed cf w' v x' l'"
  shows "sinv ed cf w'"
  unfolding sinv_def
proof (intro conjI allI impI)
  fix u y
  assume y: "wVault w' u = Some y"
  show "\<exists>l. vault_inv ed cf w' u y l"
  proof (cases "u = v")
    case True
    then show ?thesis using y this_vault by auto
  next
    case False
    then have "wVault w u = Some y" using others y by (simp add: same_vault_def)
    then show ?thesis using sinv_vault [OF inv] same_vault_inv [OF others [OF False]] by blast
  qed
next
  fix u
  assume n: "wVault w' u = None"
  then have "u \<noteq> v" using this_vault by auto
  then have "wVault w u = None" using others n by (simp add: same_vault_def)
  then show "no_vault w' u" using inv same_vault_none [OF others [OF \<open>u \<noteq> v\<close>]] by (simp add: sinv_def)
qed

lemma sinv_drop:
  assumes inv: "sinv ed cf w" and others: "\<And>u. u \<noteq> v \<Longrightarrow> same_vault w w' u"
    and gone: "wVault w' v = None" "no_vault w' v"
  shows "sinv ed cf w'"
  unfolding sinv_def
proof (intro conjI allI impI)
  fix u y
  assume y: "wVault w' u = Some y"
  then have u: "u \<noteq> v" using gone by auto
  then have "wVault w u = Some y" using others y by (simp add: same_vault_def)
  then show "\<exists>l. vault_inv ed cf w' u y l" using sinv_vault [OF inv] same_vault_inv [OF others [OF u]] by blast
next
  fix u
  assume n: "wVault w' u = None"
  show "no_vault w' u"
  proof (cases "u = v")
    case False
    then have "wVault w u = None" using others n by (simp add: same_vault_def)
    then show ?thesis using inv same_vault_none [OF others [OF False]] by (simp add: sinv_def)
  qed (use gone in simp)
qed

section \<open>The device list grows\<close>

lemma Extend_members:
  assumes "Extend ed l e = Inr l'" "list_wf l"
  obtains (create) "eKind e = EntryCreate" "l = l\<lparr>lMembers := [], lDigests := [], lEpochs := []\<rparr>"
      "map_of (lMembers l') = [eSubjectDeviceID e \<mapsto> memberFromEntry e]"
  | (add) "eKind e = EntryAdd" "map_of (lMembers l) (eSubjectDeviceID e) = None"
      "map_of (lMembers l') = (map_of (lMembers l))(eSubjectDeviceID e \<mapsto> memberFromEntry e)"
  | (remove) m where "eKind e = EntryRemove" "current l (eSubjectDeviceID e) m"
      "map_of (lMembers l') = (map_of (lMembers l))(eSubjectDeviceID e \<mapsto> m\<lparr>mRemovedIndex := eIndex e\<rparr>)"
  | (key) m where "eKind e = EntryKey" "current l (eSignerDeviceID e) m"
      "map_of (lMembers l') = (map_of (lMembers l))(eSignerDeviceID e \<mapsto>
         m\<lparr>mReplaced := mReplaced m @ [\<lparr>changeIndex = eIndex e, changePrevious = mPackageKey m\<rparr>],
           mPackageKey := eSubjectPackageKey e\<rparr>)"
  | (rotate) "eKind e = EntryRotate" "map_of (lMembers l') = map_of (lMembers l)"
  using assms(1)
proof (cases rule: ExtendE)
  case create
  then have em: "lDigests l = []" using unat_Head [OF assms(2)] by simp
  then have "lMembers l = []" "lEpochs l = []" using assms(2) by (auto simp: list_wf_def)
  with create em that(1) show ?thesis by simp
next
  case (add signer)
  with that(2) show ?thesis by (simp add: go_simps)
next
  case (remove signer subject)
  with that(3) [of subject] show ?thesis by (simp add: go_simps current_def)
next
  case (key signer)
  have "mDeviceID signer = eSignerDeviceID e"
    using followsD(7) [OF key(1) assms(2)] by (simp add: member_wf_def)
  with key that(4) [of signer] show ?thesis by (simp add: go_simps current_def follows_def)
next
  case (rotate signer)
  with that(5) show ?thesis by simp
qed

lemma member_extend:
  assumes "Extend ed l e = Inr l'" "list_wf l" "map_of (lMembers l) i = Some m"
  shows "\<exists>m'. map_of (lMembers l') i = Some m' \<and> mSigningKey m' = mSigningKey m"
  using assms(1,2)
proof (cases rule: Extend_members)
  case create
  then have "lMembers l = []" by (metis DeviceList.select_convs(2) DeviceList.surjective DeviceList.update_convs(2-4))
  with assms(3) show ?thesis by simp
qed (use assms(3) in \<open>auto simp: current_def\<close>)

lemma current_extend:
  assumes "Extend ed l e = Inr l'" "list_wf l" "current l i m" "eKind e = EntryRemove \<Longrightarrow> i \<noteq> eSubjectDeviceID e"
  shows "\<exists>m'. current l' i m' \<and> mSigningKey m' = mSigningKey m"
  using assms(1,2)
proof (cases rule: Extend_members)
  case create
  then have "lMembers l = []" by (metis DeviceList.select_convs(2) DeviceList.surjective DeviceList.update_convs(2-4))
  with assms(3) show ?thesis by (simp add: current_def)
qed (use assms(3,4) in \<open>auto simp: current_def\<close>)

lemma header_inv_extend:
  assumes "header_inv ed cur l hs" "Extend ed l e = Inr l'" "list_wf l"
  shows "header_inv ed cur l' hs"
proof -
  have "VerifyHeader ed l prev h = Inr () \<Longrightarrow> VerifyHeader ed l' prev h = Inr ()" for prev h
    using assms(2,3) by (auto intro!: VerifyHeader_stable [where es = "[e]" and ed' = ed])
  with assms(1) show ?thesis unfolding header_inv_def by blast
qed

lemma package_inv_extend:
  assumes "package_inv ed x l pk" "Extend ed l e = Inr l'" "list_wf l" "eKind e \<noteq> EntryRemove"
    and "vID x' = vID x" "vEpoch x' = vEpoch x"
  shows "package_inv ed x' l' pk"
  unfolding package_inv_def
proof (intro allI impI)
  fix i p
  assume "pk i = Some p"
  with assms(1) have p: "pVaultID (kPackage p) = vID x" "pRecipientDeviceID (kPackage p) = i"
    "pVaultEpoch (kPackage p) = vEpoch x" "\<exists>m. current l i m"
    "\<exists>m. map_of (lMembers l) (pSenderDeviceID (kPackage p)) = Some m \<and> packageVerify ed (kPackage p) (mSigningKey m) = Inr ()"
    unfolding package_inv_def by blast+
  have "\<exists>m. current l' i m" using p(4) current_extend [OF assms(2,3)] assms(4) by blast
  moreover have "\<exists>m. map_of (lMembers l') (pSenderDeviceID (kPackage p)) = Some m \<and>
      packageVerify ed (kPackage p) (mSigningKey m) = Inr ()"
    using p(5) member_extend [OF assms(2,3)] by metis
  ultimately show "pVaultID (kPackage p) = vID x' \<and> pRecipientDeviceID (kPackage p) = i \<and>
      pVaultEpoch (kPackage p) = vEpoch x' \<and> (\<exists>m. current l' i m) \<and>
      (\<exists>m. map_of (lMembers l') (pSenderDeviceID (kPackage p)) = Some m \<and>
         packageVerify ed (kPackage p) (mSigningKey m) = Inr ())"
    using p(1-3) assms(5,6) by simp
qed

lemma checkpoint_inv_extend:
  assumes "checkpoint_inv ed l cp" "Extend ed l e = Inr l'" "list_wf l" "lDigests l \<noteq> []"
    and "eKind e = EntryRemove \<Longrightarrow> cp' (eSubjectDeviceID e) = None" "cp' \<subseteq>\<^sub>m cp"
  shows "checkpoint_inv ed l' cp'"
  unfolding checkpoint_inv_def
proof (intro allI impI)
  fix i c
  assume c: "cp' i = Some c"
  then have "cp i = Some c" using assms(6) by (auto simp: map_le_def dom_def)
  then obtain m where m: "current l i m" "checkpointVerify ed (scCheckpoint c) (mSigningKey m) = Inr ()"
    and ids: "cVaultID (scCheckpoint c) = lVaultID l" "cDeviceID (scCheckpoint c) = i"
    using assms(1) by (auto simp: checkpoint_inv_def)
  have "eKind e = EntryRemove \<Longrightarrow> i \<noteq> eSubjectDeviceID e" using assms(5) c by auto
  from current_extend [OF assms(2,3) m(1) this] m(2) ids Extend_appends(4) [OF assms(2,3,4)]
  show "cVaultID (scCheckpoint c) = lVaultID l' \<and> cDeviceID (scCheckpoint c) = i \<and>
      (\<exists>m. current l' i m \<and> checkpointVerify ed (scCheckpoint c) (mSigningKey m) = Inr ())"
    by fastforce
qed

lemma list_inv_extend:
  assumes "list_inv v x l dev" "Extend ed l e = Inr l'" "list_wf l"
    and "vID x' = v" "vHeadIndex x' = eIndex e" "vEpoch x' = eEpochAfter e"
    and "\<And>i. rel_option device_member (dev' i) (map_of (lMembers l') i)"
  shows "list_inv v x' l' dev'"
proof -
  have ne: "lDigests l \<noteq> []" and v: "lVaultID l = v" using assms(1) by (simp_all add: list_inv_def)
  have "lEpochs l' \<noteq> []" "lDigests l' \<noteq> []" "last (lEpochs l') = eEpochAfter e"
    using Extend_appends(1,2) [OF assms(2,3)] by simp_all
  then have "Epoch l' = eEpochAfter e" "lDigests l' \<noteq> []" using Epoch_last by simp_all
  moreover have "eIndex e = Head l'"
    using Extend_appends(1,5) [OF assms(2,3)] by (simp add: Head_def add.commute)
  ultimately show ?thesis
    using assms(4-7) Extend_appends(4) [OF assms(2,3) ne] v by (simp add: list_inv_def)
qed

section \<open>The writes keep the invariant\<close>

lemma sinv_same:
  assumes "\<And>v. same_vault w w' v" "sinv ed cf w"
  shows "sinv ed cf w'"
proof -
  have "wVault w' v = wVault w v" "no_vault w' v = no_vault w v" "vault_inv ed cf w' v x l = vault_inv ed cf w v x l"
    for v x l
    using same_vault_inv [OF assms(1)] same_vault_none [OF assms(1)] assms(1) [of v, unfolded same_vault_def] by simp_all
  with assms(2) show ?thesis by (simp add: sinv_def)
qed

lemma spends_same: "spends clk sc n w w1 \<Longrightarrow> same_vault w w1 v"
  by (simp add: same_vault_def spends_tables)

lemma signed_same: "signed ed clk caller request a w w1 \<Longrightarrow> same_vault w w1 v"
  by (simp add: same_vault_def)

lemma vault_invD:
  assumes "vault_inv ed cf w v x l"
  shows "VerifyDeviceList ed (wEntries w v) = Inr l" "list_wf l" "list_inv v x l (wDevice w v)"
    "header_inv ed (vCurrentRevision x) l (wHeader w v)"
    "cipher_inv cf (vCurrentRevision x) (wHeader w v) (wCipher w v)"
    "package_inv ed x l (wPackage w v)" "pairing_inv (wDevice w v) (wPairing w v)"
    "checkpoint_inv ed l (wCheckpoint w v)" "lDigests l \<noteq> []" "lVaultID l = v" "vID x = v"
  using assms VerifyDeviceList_wf by (auto simp: vault_inv_def list_inv_def)

text \<open>A new vault: one entry, one device, nothing else.\<close>

lemma sinv_create:
  assumes inv: "sinv ed cf w" and fresh: "wVault w (eVaultID e) = None" and l: "VerifyDeviceList ed [e] = Inr l"
    and budget: "0 \<le> cfByteBudget cf"
  shows "sinv ed cf (put_device (createdDevice clk caller e) (add_entry e (put_vault (createdVault clk caller e) w)))"
    (is "sinv ed cf ?w'")
proof (rule sinv_one [OF inv, of "eVaultID e" _ "createdVault clk caller e" l])
  show "same_vault w ?w' u" if "u \<noteq> eVaultID e" for u
    using that by (simp add: same_vault_def createdVault_def createdDevice_def)
  show "wVault ?w' (eVaultID e) = Some (createdVault clk caller e)" by (simp add: createdVault_def)
  have empty: "no_vault w (eVaultID e)" using inv fresh by (simp add: sinv_def)
  have ext: "Extend ed NewDeviceList e = Inr l" using l VerifyDeviceList_snoc [of ed "[]" e l] by simp
  have mem: "map_of (lMembers l) = [eSubjectDeviceID e \<mapsto> memberFromEntry e]"
    using ext NewDeviceList_wf single_entry(6) [OF l] by (cases rule: Extend_members) simp_all
  have ne: "lDigests l \<noteq> []" using Extend_appends(1) [OF ext NewDeviceList_wf] by simp
  have li: "list_inv (eVaultID e) (createdVault clk caller e) l ([eSubjectDeviceID e \<mapsto> createdDevice clk caller e])"
    using single_entry [OF l] ne
    by (simp add: list_inv_def createdVault_def mem device_member_def createdDevice_def memberFromEntry_def)
  have "header_inv ed 0 l (\<lambda>_. None)" "cipher_inv cf 0 (\<lambda>_. None) (\<lambda>_. None)"
    "package_inv ed (createdVault clk caller e) l (\<lambda>_. None)"
    "pairing_inv [eSubjectDeviceID e \<mapsto> createdDevice clk caller e] (\<lambda>_. None)" "checkpoint_inv ed l (\<lambda>_. None)"
    using budget
    by (simp_all add: header_inv_def cipher_inv_def package_inv_def pairing_inv_def checkpoint_inv_def cipher_bytes_def)
  with li empty l show "vault_inv ed cf ?w' (eVaultID e) (createdVault clk caller e) l"
    by (simp add: vault_inv_def no_vault_def createdDevice_def createdVault_def)
qed

text \<open>Writes that change only the pairings of one vault.\<close>

lemma sinv_pairings:
  assumes inv: "sinv ed cf w" and x: "wVault w v = Some x"
    and pr: "pairing_inv (wDevice w v) (wPairing w v) \<Longrightarrow> pairing_inv (wDevice w v) (pr v)"
    and others: "\<And>u. u \<noteq> v \<Longrightarrow> pr u = wPairing w u"
  shows "sinv ed cf (w\<lparr>wPairing := pr\<rparr>)"
proof -
  obtain l where l: "vault_inv ed cf w v x l" using sinv_vault [OF inv x] by blast
  show ?thesis
    by (rule sinv_one [OF inv, of v _ x l]) (use l pr others x in \<open>simp_all add: same_vault_def vault_inv_def\<close>)
qed

lemma pairing_invD:
  assumes "pairing_inv dev pr"
  shows "finite (dom pr)" "card (dom pr) \<le> MaxPendingPairings" "pr i = Some g \<Longrightarrow> gDeviceID g = i"
    "pr i = Some g \<Longrightarrow> dev i = None" "pr i = Some g \<Longrightarrow> pairing_state_ok g"
    "pr i = Some g \<Longrightarrow> pr j = Some h \<Longrightarrow> gTokenDeviceID g = gTokenDeviceID h \<Longrightarrow> i = j"
    "pr i = Some g \<Longrightarrow> dev j = Some d \<Longrightarrow> dTokenDeviceID d = gTokenDeviceID g \<Longrightarrow> dState d = DeviceRevoked"
  using assms unfolding pairing_inv_def by blast+

lemma pairing_invI:
  assumes "finite (dom pr)" "card (dom pr) \<le> MaxPendingPairings"
    and "\<And>i g. pr i = Some g \<Longrightarrow> gDeviceID g = i \<and> dev i = None \<and> pairing_state_ok g"
    and "\<And>i j g h. pr i = Some g \<Longrightarrow> pr j = Some h \<Longrightarrow> gTokenDeviceID g = gTokenDeviceID h \<Longrightarrow> i = j"
    and "\<And>i j g d. pr i = Some g \<Longrightarrow> dev j = Some d \<Longrightarrow> dTokenDeviceID d = gTokenDeviceID g \<Longrightarrow> dState d = DeviceRevoked"
  shows "pairing_inv dev pr"
  using assms unfolding pairing_inv_def by (intro conjI allI impI) (assumption | blast)+

lemma pairing_inv_less:
  assumes "pairing_inv dev pr" "pr' \<subseteq>\<^sub>m pr"
  shows "pairing_inv dev pr'"
proof (rule pairing_invI)
  note inv = pairing_invD [OF assms(1)]
  have sub: "pr' i = Some g \<Longrightarrow> pr i = Some g" for i g using assms(2) by (auto simp: map_le_def dom_def)
  have dom: "dom pr' \<subseteq> dom pr" using sub by auto
  show "finite (dom pr')" by (rule finite_subset [OF dom inv(1)])
  show "card (dom pr') \<le> MaxPendingPairings" using card_mono [OF inv(1) dom] inv(2) by linarith
  show "gDeviceID g = i \<and> dev i = None \<and> pairing_state_ok g" if "pr' i = Some g" for i g
    using inv(3-5) [OF sub [OF that]] by simp
  show "i = j" if "pr' i = Some g" "pr' j = Some h" "gTokenDeviceID g = gTokenDeviceID h" for i j g h
    by (rule inv(6) [OF sub [OF that(1)] sub [OF that(2)] that(3)])
  show "dState d = DeviceRevoked" if "pr' i = Some g" "dev j = Some d" "dTokenDeviceID d = gTokenDeviceID g" for i j g d
    by (rule inv(7) [OF sub [OF that(1)] that(2,3)])
qed

lemma sinv_fewer_pairings:
  assumes inv: "sinv ed cf w" and less: "\<And>v. pr v \<subseteq>\<^sub>m wPairing w v"
  shows "sinv ed cf (w\<lparr>wPairing := pr\<rparr>)"
proof -
  have "vault_inv ed cf (w\<lparr>wPairing := pr\<rparr>) v x l" if "vault_inv ed cf w v x l" for v x l
    using that pairing_inv_less [OF _ less] by (simp add: vault_inv_def)
  moreover have "no_vault (w\<lparr>wPairing := pr\<rparr>) v" if "no_vault w v" for v
    using that less [of v] by (simp add: no_vault_def map_le_def) (metis domIff ext)
  ultimately show ?thesis using inv unfolding sinv_def by simp blast
qed

lemma sinv_purge: "sinv ed cf w \<Longrightarrow> sinv ed cf (purge_expired now w)"
proof -
  assume inv: "sinv ed cf w"
  have "sinv ed cf (w\<lparr>wPairing := wPairing (purge_expired now w)\<rparr>)"
    by (rule sinv_fewer_pairings [OF inv]) (auto simp: map_le_def dom_def split: option.splits if_splits)
  then show ?thesis by (rule sinv_same [rotated]) (simp add: same_vault_def)
qed

lemma sinv_drop_pairing: "sinv ed cf w \<Longrightarrow> sinv ed cf (drop_pairing v i w)"
  by (rule sinv_fewer_pairings) (auto simp: map_le_def)

lemma sinv_drop_vault: "sinv ed cf w \<Longrightarrow> sinv ed cf (drop_vault v w)"
  by (rule sinv_drop [of _ _ w v]) (auto simp: same_vault_def no_vault_def)

lemma pairing_inv_update:
  assumes "pairing_inv dev pr" "pr i = Some g"
    and "gDeviceID g' = gDeviceID g" "gTokenDeviceID g' = gTokenDeviceID g" "pairing_state_ok g'"
  shows "pairing_inv dev (pr(i \<mapsto> g'))"
proof (rule pairing_invI)
  note inv = pairing_invD [OF assms(1)]
  have d: "dom (pr(i \<mapsto> g')) = dom pr" using assms(2) by auto
  show "finite (dom (pr(i \<mapsto> g')))" "card (dom (pr(i \<mapsto> g'))) \<le> MaxPendingPairings"
    using inv(1,2) by (simp_all only: d)
  have old: "\<exists>h. pr j = Some h \<and> gDeviceID f = gDeviceID h \<and> gTokenDeviceID f = gTokenDeviceID h \<and>
      pairing_state_ok f" if "(pr(i \<mapsto> g')) j = Some f" for j f
    using that assms(2-5) inv(5) [of j f] by (auto split: if_splits)
  show "gDeviceID f = j \<and> dev j = None \<and> pairing_state_ok f" if "(pr(i \<mapsto> g')) j = Some f" for j f
    using old [OF that] inv(3,4) [of j] by auto
  show "j = k" if "(pr(i \<mapsto> g')) j = Some f" "(pr(i \<mapsto> g')) k = Some h" "gTokenDeviceID f = gTokenDeviceID h" for j k f h
    using old [OF that(1)] old [OF that(2)] that(3) inv(6) [of j _ k] by auto
  show "dState d = DeviceRevoked"
    if "(pr(i \<mapsto> g')) j = Some f" "dev k = Some d" "dTokenDeviceID d = gTokenDeviceID f" for j k f d
    using old [OF that(1)] that(2,3) inv(7) [of j _ k d] by auto
qed

lemma sinv_put_pairing:
  assumes inv: "sinv ed cf w" and x: "wVault w v = Some x" and g: "wPairing w v i = Some g"
    and g': "gVaultID g' = v" "gDeviceID g' = gDeviceID g" "gTokenDeviceID g' = gTokenDeviceID g"
    and ok: "pairing_state_ok g \<Longrightarrow> pairing_state_ok g'"
  shows "sinv ed cf (put_pairing g' w)"
proof (rule sinv_pairings [OF inv x])
  assume p: "pairing_inv (wDevice w v) (wPairing w v)"
  then have "gDeviceID g = i" "pairing_state_ok g" using g unfolding pairing_inv_def by blast+
  with pairing_inv_update [OF p g g'(2,3)] ok
  show "pairing_inv (wDevice w v) (((wPairing w)(gVaultID g' := (wPairing w (gVaultID g'))(gDeviceID g' \<mapsto> g'))) v)"
    by (simp add: g')
qed (simp add: g')

lemma pairing_inv_offer:
  assumes "pairing_inv dev pr" "card (dom pr) < MaxPendingPairings"
    and new: "gDeviceID g' = i" "dev i = None" "pairing_state_ok g'"
    and tok: "\<And>j g. pr j = Some g \<Longrightarrow> gTokenDeviceID g \<noteq> gTokenDeviceID g'"
    and dev: "\<And>j d. dev j = Some d \<Longrightarrow> dTokenDeviceID d = gTokenDeviceID g' \<Longrightarrow> dState d = DeviceRevoked"
  shows "pairing_inv dev (pr(i \<mapsto> g'))"
proof (rule pairing_invI)
  note inv = pairing_invD [OF assms(1)]
  show "finite (dom (pr(i \<mapsto> g')))" using inv(1) by simp
  have "card (insert i (dom pr)) \<le> Suc (card (dom pr))" by (cases "i \<in> dom pr") (simp_all add: inv(1) insert_absorb)
  then show "card (dom (pr(i \<mapsto> g'))) \<le> MaxPendingPairings" using assms(2) by simp
  show "gDeviceID f = j \<and> dev j = None \<and> pairing_state_ok f" if "(pr(i \<mapsto> g')) j = Some f" for j f
    using that new inv(3-5) [of j f] by (auto split: if_splits)
  show "j = k" if "(pr(i \<mapsto> g')) j = Some f" "(pr(i \<mapsto> g')) k = Some h" "gTokenDeviceID f = gTokenDeviceID h" for j k f h
    using that tok [of j f] tok [of k h] inv(6) [of j f k h] by (auto split: if_splits)
  show "dState d = DeviceRevoked"
    if "(pr(i \<mapsto> g')) j = Some f" "dev k = Some d" "dTokenDeviceID d = gTokenDeviceID f" for j k f d
    using that dev [of k d] inv(7) [of j f k d] by (auto split: if_splits)
qed

end
