(* ===== verification/Service_Inv2.thy ===== *)
theory Service_Inv2
  imports Service_Inv
begin

text \<open>
  The writes of the handlers that change a vault keep its invariant: an offer, the approval of a
  device, its activation, a key upgrade, a removal or rotation, an upload and a checkpoint.
\<close>

section \<open>Pairing and approval\<close>

lemma sinv_offer:
  assumes inv: "sinv ed cf w" and x: "wVault w v = Some x" and wp: "withoutPrevious v tok w w2"
    and room: "card {i. wPairing (purge_expired now w2) v i \<noteq> None} < MaxPendingPairings"
    and free: "wDevice w v (gDeviceID g) = None"
    and revoked: "\<And>j d. wDevice w v j = Some d \<Longrightarrow> dTokenDeviceID d = tok \<Longrightarrow> dState d = DeviceRevoked"
    and g: "gVaultID g = v" "gTokenDeviceID g = tok" "pairing_state_ok g"
  shows "sinv ed cf (put_pairing g (purge_expired now w2))"
proof -
  obtain l where l: "vault_inv ed cf w v x l" using sinv_vault [OF inv x] by blast
  note p = pairing_invD [OF vault_invD(7) [OF l]]
  have tables: "wVault w2 = wVault w" "wDevice w2 = wDevice w" using wp by (auto simp: withoutPrevious_def)
  have none: "gTokenDeviceID h \<noteq> tok" if "wPairing w2 v j = Some h" for j h
    using wp that p(6) [of j h] by (auto simp: withoutPrevious_def split: if_splits)
  have "sinv ed cf w2" using wp inv sinv_drop_pairing [OF inv] by (auto simp: withoutPrevious_def)
  then have inv3: "sinv ed cf (purge_expired now w2)" by (rule sinv_purge)
  have none3: "gTokenDeviceID h \<noteq> tok" if "wPairing (purge_expired now w2) v j = Some h" for j h
    using none [of j h] that by (auto split: option.splits if_splits)
  have d: "dom (wPairing (purge_expired now w2) v) = {i. wPairing (purge_expired now w2) v i \<noteq> None}" by auto
  have "sinv ed cf ((purge_expired now w2)\<lparr>wPairing := (wPairing (purge_expired now w2))
      (v := (wPairing (purge_expired now w2) v)(gDeviceID g \<mapsto> g))\<rparr>)"
  proof (rule sinv_pairings [OF inv3, of v x])
    assume "pairing_inv (wDevice (purge_expired now w2) v) (wPairing (purge_expired now w2) v)"
    then have "pairing_inv (wDevice (purge_expired now w2) v) ((wPairing (purge_expired now w2) v)(gDeviceID g \<mapsto> g))"
      by (rule pairing_inv_offer) (use room free revoked g none3 tables in \<open>simp_all only: d, simp_all\<close>)
    then show "pairing_inv (wDevice (purge_expired now w2) v)
        (((wPairing (purge_expired now w2))(v := (wPairing (purge_expired now w2) v)(gDeviceID g \<mapsto> g))) v)" by simp
  qed (use x tables in simp_all)
  then show ?thesis by (simp only: g(1))
qed

lemma pairing_inv_approved:
  assumes "pairing_inv dev pr" "pr i = Some g" "dTokenDeviceID d = gTokenDeviceID g"
  shows "pairing_inv (dev(i \<mapsto> d)) (pr(i := None))"
proof (rule pairing_invI)
  note inv = pairing_invD [OF assms(1)]
  have "card (dom pr - {i}) \<le> card (dom pr)" by (rule card_mono [OF inv(1)]) auto
  then show "finite (dom (pr(i := None)))" "card (dom (pr(i := None))) \<le> MaxPendingPairings" using inv(1,2) by simp_all
  show "gDeviceID f = j \<and> (dev(i \<mapsto> d)) j = None \<and> pairing_state_ok f" if "(pr(i := None)) j = Some f" for j f
    using that inv(3-5) [of j f] by (auto split: if_splits)
  show "j = k" if "(pr(i := None)) j = Some f" "(pr(i := None)) k = Some h" "gTokenDeviceID f = gTokenDeviceID h" for j k f h
    using that inv(6) [of j f k h] by (auto split: if_splits)
  show "dState d' = DeviceRevoked"
    if "(pr(i := None)) j = Some f" "(dev(i \<mapsto> d)) k = Some d'" "dTokenDeviceID d' = gTokenDeviceID f" for j k f d'
    using that assms(2,3) inv(6) [of j f i g] inv(7) [of j f k d'] by (auto split: if_splits)
qed

lemma package_inv_put:
  assumes "package_inv ed x l pk" "pVaultID (kPackage p) = vID x" "pVaultEpoch (kPackage p) = vEpoch x"
    and "current l (pRecipientDeviceID (kPackage p)) m" "map_of (lMembers l) (pSenderDeviceID (kPackage p)) = Some m'"
    and "packageVerify ed (kPackage p) (mSigningKey m') = Inr ()"
  shows "package_inv ed x l (pk(pRecipientDeviceID (kPackage p) \<mapsto> p))"
  unfolding package_inv_def
proof (intro allI impI)
  fix i q
  assume "(pk(pRecipientDeviceID (kPackage p) \<mapsto> p)) i = Some q"
  then have "pk i = Some q \<or> q = p \<and> i = pRecipientDeviceID (kPackage p)" by (auto split: if_splits)
  then show "pVaultID (kPackage q) = vID x \<and> pRecipientDeviceID (kPackage q) = i \<and>
        pVaultEpoch (kPackage q) = vEpoch x \<and> (\<exists>m. current l i m) \<and>
        (\<exists>m. map_of (lMembers l) (pSenderDeviceID (kPackage q)) = Some m \<and>
           packageVerify ed (kPackage q) (mSigningKey m) = Inr ())"
    using assms unfolding package_inv_def by blast
qed

lemma device_is_member:
  assumes "list_inv v x l dev" "dev i = Some d"
  obtains m where "map_of (lMembers l) i = Some m" "device_member d m"
proof -
  have "rel_option device_member (dev i) (map_of (lMembers l) i)" using assms(1) by (simp add: list_inv_def)
  with assms(2) that show thesis by (cases "map_of (lMembers l) i") auto
qed

lemma list_inv_rel: "list_inv v x l dev \<Longrightarrow> rel_option device_member (dev i) (map_of (lMembers l) i)"
  by (simp add: list_inv_def)

lemma sinv_approve:
  assumes inv: "sinv ed cf w" and x: "wVault w v = Some x" and e: "eKind e = EntryAdd" "eVaultID e = v"
    and g: "wPairing w v (eSubjectDeviceID e) = Some g"
    and l: "VerifyDeviceList ed (wEntries w v) = Inr l" "Extend ed l e = Inr l'"
    and sender: "wDevice w v (pSenderDeviceID p) = Some d" "packageVerify ed p (dSigningKey d) = Inr ()"
    and p: "pVaultID p = v" "pVaultEpoch p = vEpoch x" "pRecipientDeviceID p = eSubjectDeviceID e"
    and x': "x' = x\<lparr>vHeadIndex := eIndex e, vUpdatedAt := now\<rparr>"
  shows "sinv ed cf (put_vault x' (drop_pairing v (eSubjectDeviceID e)
      (put_package \<lparr>kPackage = p, kCreatedAt = now\<rparr> (put_device (approvedDevice clk e g) (add_entry e w)))))"
    (is "sinv ed cf ?w'")
proof -
  obtain k where "vault_inv ed cf w v x k" using sinv_vault [OF inv x] by blast
  then have vi: "vault_inv ed cf w v x l" using l(1) by (simp add: vault_inv_def)
  note vi = vault_invD [OF vi]
  have vid [simp]: "vID x' = v" "vID x = v" using vi(11) by (simp_all add: x')
  have mem: "map_of (lMembers l') = (map_of (lMembers l))(eSubjectDeviceID e \<mapsto> memberFromEntry e)"
    using l(2) vi(2) e(1) by (cases rule: Extend_members) simp_all
  have epoch: "vEpoch x' = eEpochAfter e"
    using l(2) vi(3) e(1) by (cases rule: ExtendE) (simp_all add: x' list_inv_def)
  have dm: "device_member (approvedDevice clk e g) (memberFromEntry e)"
    by (simp add: device_member_def approvedDevice_def memberFromEntry_def)
  have 1: "list_inv v x' l' ((wDevice w v)(eSubjectDeviceID e \<mapsto> approvedDevice clk e g))"
    by (rule list_inv_extend [OF vi(3) l(2) vi(2)]) (use list_inv_rel [OF vi(3)] epoch dm in \<open>simp_all add: mem x'\<close>)
  obtain m where m: "map_of (lMembers l) (pSenderDeviceID p) = Some m" "device_member d m"
    by (rule device_is_member [OF vi(3) sender(1)])
  obtain m' where m': "map_of (lMembers l') (pSenderDeviceID p) = Some m'" "mSigningKey m' = mSigningKey m"
    using member_extend [OF l(2) vi(2) m(1)] by blast
  have pk: "package_inv ed x' l' (wPackage w v)"
    by (rule package_inv_extend [OF vi(6) l(2) vi(2)]) (simp_all add: e x')
  have cur: "current l' (eSubjectDeviceID e) (memberFromEntry e)" by (simp add: current_def mem memberFromEntry_def)
  have 2: "package_inv ed x' l' ((wPackage w v)(eSubjectDeviceID e \<mapsto> \<lparr>kPackage = p, kCreatedAt = now\<rparr>))"
    using package_inv_put [OF pk, of "\<lparr>kPackage = p, kCreatedAt = now\<rparr>"] cur p m' m(2) sender(2)
    by (simp add: x' device_member_def)
  have 3: "checkpoint_inv ed l' (wCheckpoint w v)"
    by (rule checkpoint_inv_extend [OF vi(8) l(2) vi(2,9)]) (simp_all add: e)
  have 4: "header_inv ed (vCurrentRevision x') l' (wHeader w v)"
    using header_inv_extend [OF vi(4) l(2) vi(2)] by (simp add: x')
  have 5: "pairing_inv ((wDevice w v)(eSubjectDeviceID e \<mapsto> approvedDevice clk e g)) ((wPairing w v)(eSubjectDeviceID e := None))"
    by (rule pairing_inv_approved [OF vi(7) g]) (simp add: approvedDevice_def)
  have 6: "VerifyDeviceList ed (wEntries w v @ [e]) = Inr l'" using l by (auto simp: VerifyDeviceList_snoc)
  have ids: "dVaultID (approvedDevice clk e g) = v" "dDeviceID (approvedDevice clk e g) = eSubjectDeviceID e"
    by (simp_all add: approvedDevice_def e)
  show ?thesis
  proof (rule sinv_one [OF inv, of v _ x' l'])
    show "same_vault w ?w' u" if "u \<noteq> v" for u using that by (simp add: same_vault_def ids e p)
    show "wVault ?w' v = Some x'" by simp
    show "vault_inv ed cf ?w' v x' l'"
      using 1 2 3 4 5 6 vi(5) by (simp add: vault_inv_def ids e p) (simp add: x')
  qed
qed

section \<open>Activation and key upgrade\<close>

lemma pairing_inv_devices:
  assumes "pairing_inv dev pr"
    and same: "\<And>j d'. dev' j = Some d' \<Longrightarrow>
      \<exists>d. dev j = Some d \<and> dTokenDeviceID d' = dTokenDeviceID d \<and> (dState d = DeviceRevoked \<longrightarrow> dState d' = DeviceRevoked)"
  shows "pairing_inv dev' pr"
proof (rule pairing_invI)
  note inv = pairing_invD [OF assms(1)]
  show "finite (dom pr)" "card (dom pr) \<le> MaxPendingPairings" by (rule inv)+
  show "gDeviceID f = j \<and> dev' j = None \<and> pairing_state_ok f" if "pr j = Some f" for j f
    using that inv(3-5) [of j f] same [of j] by fastforce
  show "j = k" if "pr j = Some f" "pr k = Some h" "gTokenDeviceID f = gTokenDeviceID h" for j k f h
    using that inv(6) [of j f k h] by blast
  show "dState d = DeviceRevoked" if "pr j = Some f" "dev' k = Some d" "dTokenDeviceID d = gTokenDeviceID f" for j k f d
    using same [OF that(2)] that inv(7) [of j f k] by fastforce
qed

lemma sinv_activate:
  assumes inv: "sinv ed cf w" and x: "wVault w v = Some x" and d: "wDevice w v i = Some d"
    and d': "dVaultID d = v" "dDeviceID d = i"
  shows "sinv ed cf (put_device (d\<lparr>dActivatedEpoch := ep\<rparr>) w)" (is "sinv ed cf ?w'")
proof -
  obtain l where vi: "vault_inv ed cf w v x l" using sinv_vault [OF inv x] by blast
  let ?dev = "(wDevice w v)(i \<mapsto> d\<lparr>dActivatedEpoch := ep\<rparr>)"
  have "rel_option device_member (?dev j) (map_of (lMembers l) j)" for j
    using list_inv_rel [OF vault_invD(3) [OF vi], of j] d
    by (cases "map_of (lMembers l) j") (auto simp: device_member_def)
  with vault_invD(3) [OF vi] have 1: "list_inv v x l ?dev" unfolding list_inv_def by blast
  have 2: "pairing_inv ?dev (wPairing w v)"
    by (rule pairing_inv_devices [OF vault_invD(7) [OF vi]]) (use d in \<open>auto split: if_splits\<close>)
  show ?thesis
  proof (rule sinv_one [OF inv, of v _ x l])
    show "same_vault w ?w' u" if "u \<noteq> v" for u using that by (simp add: same_vault_def d')
    show "wVault ?w' v = Some x" using x by simp
    show "vault_inv ed cf ?w' v x l" using vi 1 2 by (simp add: vault_inv_def d')
  qed
qed

lemma sinv_upgrade:
  assumes inv: "sinv ed cf w" and x: "wVault w v = Some x" and e: "eKind e = EntryKey" "eVaultID e = v"
    and l: "VerifyDeviceList ed (wEntries w v) = Inr l" "Extend ed l e = Inr l'"
    and d: "wDevice w v (eSignerDeviceID e) = Some d" "dVaultID d = v" "dDeviceID d = eSignerDeviceID e"
    and x': "x' = x\<lparr>vHeadIndex := eIndex e, vUpdatedAt := now\<rparr>"
  shows "sinv ed cf (put_vault x' (put_device (d\<lparr>dPackageKey := eSubjectPackageKey e\<rparr>) (add_entry e w)))"
    (is "sinv ed cf ?w'")
proof -
  obtain k where "vault_inv ed cf w v x k" using sinv_vault [OF inv x] by blast
  then have vi: "vault_inv ed cf w v x l" using l(1) by (simp add: vault_inv_def)
  note vi = vault_invD [OF vi]
  let ?d' = "d\<lparr>dPackageKey := eSubjectPackageKey e\<rparr>" and ?i = "eSignerDeviceID e"
  have vid [simp]: "vID x' = v" "vID x = v" using vi(11) by (simp_all add: x')
  obtain m m' where m: "current l ?i m" "map_of (lMembers l') = (map_of (lMembers l))(?i \<mapsto> m')"
    and m': "mSigningKey m' = mSigningKey m" "mPackageKey m' = eSubjectPackageKey e"
      "mAddedIndex m' = mAddedIndex m" "mRemovedIndex m' = mRemovedIndex m"
    using l(2) vi(2) e(1) by (cases rule: Extend_members) simp_all
  have epoch: "vEpoch x' = eEpochAfter e"
    using l(2) vi(3) e(1) by (cases rule: ExtendE) (simp_all add: x' list_inv_def)
  have dm: "device_member ?d' m'"
    using list_inv_rel [OF vi(3), of ?i] d(1) m(1) m' by (simp add: device_member_def current_def)
  have 1: "list_inv v x' l' ((wDevice w v)(?i \<mapsto> ?d'))"
    by (rule list_inv_extend [OF vi(3) l(2) vi(2)])
      (use list_inv_rel [OF vi(3)] epoch dm in \<open>simp_all add: m(2) x'\<close>)
  have 2: "package_inv ed x' l' (wPackage w v)"
    by (rule package_inv_extend [OF vi(6) l(2) vi(2)]) (simp_all add: e x')
  have 3: "checkpoint_inv ed l' (wCheckpoint w v)"
    by (rule checkpoint_inv_extend [OF vi(8) l(2) vi(2,9)]) (simp_all add: e)
  have 4: "header_inv ed (vCurrentRevision x') l' (wHeader w v)"
    using header_inv_extend [OF vi(4) l(2) vi(2)] by (simp add: x')
  have 5: "pairing_inv ((wDevice w v)(?i \<mapsto> ?d')) (wPairing w v)"
    by (rule pairing_inv_devices [OF vi(7)]) (use d in \<open>auto split: if_splits\<close>)
  have 6: "VerifyDeviceList ed (wEntries w v @ [e]) = Inr l'" using l by (auto simp: VerifyDeviceList_snoc)
  show ?thesis
  proof (rule sinv_one [OF inv, of v _ x' l'])
    show "same_vault w ?w' u" if "u \<noteq> v" for u using that by (simp add: same_vault_def d e)
    show "wVault ?w' v = Some x'" by simp
    show "vault_inv ed cf ?w' v x' l'"
      using 1 2 3 4 5 6 vi(5) by (simp add: vault_inv_def d e) (simp add: x')
  qed
qed

section \<open>Removal and rotation\<close>

lemma Current_iff: "list_wf l \<Longrightarrow> m \<in> set (Current l) \<longleftrightarrow> current l (mDeviceID m) m"
proof -
  assume wf: "list_wf l"
  then have ok: "distinct (map fst (lMembers l))" by (simp add: list_wf_def gomap_ok_def)
  have key: "map_of (lMembers l) i = Some k \<Longrightarrow> mDeviceID k = i" for i k
    using wf by (simp add: list_wf_def member_wf_def)
  show ?thesis
  proof
    assume "m \<in> set (Current l)"
    then obtain i where i: "(i, m) \<in> set (lMembers l)" "mRemovedIndex m = 0" by (auto simp: Current_def)
    then have "map_of (lMembers l) i = Some m" using ok by simp
    with i key show "current l (mDeviceID m) m" by (simp add: current_def)
  next
    assume "current l (mDeviceID m) m"
    then show "m \<in> set (Current l)" by (force simp: current_def Current_def dest: map_of_SomeD)
  qed
qed

lemma package_rows_some:
  "package_rows now ps i = Some p \<Longrightarrow> \<exists>q \<in> set ps. p = \<lparr>kPackage = q, kCreatedAt = now\<rparr> \<and> pRecipientDeviceID q = i"
  unfolding package_rows_def by (auto dest!: map_of_SomeD)

lemma rekeyed_member:
  assumes "list_inv v x l dev" "Extend ed l e = Inr l'" "list_wf l" "eKind e = kind" "kind \<in> {EntryRemove, EntryRotate}"
    and ids: "\<And>i d. dev i = Some d \<Longrightarrow> dDeviceID d = i"
  shows "rel_option device_member (map_option (rekeyed kind e self) (dev i)) (map_of (lMembers l') i)"
proof -
  have rel: "rel_option device_member (dev j) (map_of (lMembers l) j)" for j using list_inv_rel [OF assms(1)] .
  have nz: "eIndex e \<noteq> 0" by (rule entryValidateD(4) [OF Extend_appends(8) [OF assms(2,3)]])
  show ?thesis
    using assms(2,3)
  proof (cases rule: Extend_members)
    case (remove m)
    show ?thesis
      using rel [of i] remove assms(4) ids [of i]
      by (cases "dev i"; cases "map_of (lMembers l) i")
        (auto simp: device_member_def rekeyed_def current_def nz)
  next
    case rotate
    then show ?thesis
      using rel [of i] assms(4) by (cases "dev i"; cases "map_of (lMembers l) i") (auto simp: device_member_def rekeyed_def)
  qed (use assms(4,5) in simp_all)
qed

lemma sinv_rekey:
  assumes inv: "sinv ed cf w" and x: "wVault w v = Some (aVault a)" "v = vID (aVault a)"
    and e: "eKind e = kind" "kind \<in> {EntryRemove, EntryRotate}" "eVaultID e = v"
    and l: "VerifyDeviceList ed (wEntries w v) = Inr l" "Extend ed l e = Inr l'"
    and d: "wDevice w v (dDeviceID (aDevice a)) = Some (aDevice a)"
    and ids: "\<And>i d. wDevice w v i = Some d \<Longrightarrow> dDeviceID d = i"
    and rs: "pRecipientDeviceID ` set ps \<subseteq> mDeviceID ` set (Current l')"
    and ps: "\<forall>p \<in> set ps. package_ok ed a e (eEpochAfter e) p"
  shows "sinv ed cf (rekey_view kind e a ps now w)" (is "sinv ed cf ?w'")
proof -
  obtain k where "vault_inv ed cf w v (aVault a) k" using sinv_vault [OF inv x(1)] by blast
  then have vi: "vault_inv ed cf w v (aVault a) l" using l(1) by (simp add: vault_inv_def)
  note vi = vault_invD [OF vi]
  let ?x = "(aVault a)\<lparr>vHeadIndex := eIndex e, vEpoch := eEpochAfter e, vUpdatedAt := now\<rparr>"
  let ?cp = "if kind = EntryRemove then (wCheckpoint w v)(eSubjectDeviceID e := None) else wCheckpoint w v"
  have wf': "list_wf l'" by (rule Extend_wf [OF l(2) vi(2)])
  have 1: "list_inv v ?x l' (\<lambda>i. map_option (rekeyed kind e (dDeviceID (aDevice a))) (wDevice w v i))"
  proof (rule list_inv_extend [OF vi(3) l(2) vi(2)])
    show "rel_option device_member (map_option (rekeyed kind e (dDeviceID (aDevice a))) (wDevice w v i))
        (map_of (lMembers l') i)" for i
      by (rule rekeyed_member [OF vi(3) l(2) vi(2) e(1,2)]) (rule ids)
  qed (simp_all add: x(2))
  obtain m where m: "map_of (lMembers l) (dDeviceID (aDevice a)) = Some m" "device_member (aDevice a) m"
    by (rule device_is_member [OF vi(3) d])
  obtain m' where m': "map_of (lMembers l') (dDeviceID (aDevice a)) = Some m'" "mSigningKey m' = mSigningKey m"
    using member_extend [OF l(2) vi(2) m(1)] by blast
  have 2: "package_inv ed ?x l' (package_rows now ps)"
    unfolding package_inv_def
  proof (intro allI impI)
    fix i p
    assume "package_rows now ps i = Some p"
    then obtain q where q: "q \<in> set ps" "p = \<lparr>kPackage = q, kCreatedAt = now\<rparr>" "pRecipientDeviceID q = i"
      using package_rows_some by blast
    have ok: "package_ok ed a e (eEpochAfter e) q" using ps q(1) by blast
    have "i \<in> mDeviceID ` set (Current l')" using rs imageI [OF q(1), of pRecipientDeviceID] unfolding q(3) by (rule subsetD)
    then obtain n where "n \<in> set (Current l')" "mDeviceID n = i" by (elim imageE) simp
    then have "current l' i n" using Current_iff [OF wf'] by blast
    with ok q m' m(2) show "pVaultID (kPackage p) = vID ?x \<and> pRecipientDeviceID (kPackage p) = i \<and>
        pVaultEpoch (kPackage p) = vEpoch ?x \<and> (\<exists>m. current l' i m) \<and>
        (\<exists>m. map_of (lMembers l') (pSenderDeviceID (kPackage p)) = Some m \<and>
           packageVerify ed (kPackage p) (mSigningKey m) = Inr ())"
      by (auto simp: package_ok_def device_member_def)
  qed
  have 3: "checkpoint_inv ed l' ?cp"
    by (rule checkpoint_inv_extend [OF vi(8) l(2) vi(2,9)]) (auto simp: e(1) map_le_def)
  have 4: "header_inv ed (vCurrentRevision ?x) l' (wHeader w v)"
    using header_inv_extend [OF vi(4) l(2) vi(2)] by simp
  have 5: "pairing_inv dev (\<lambda>_. None)" for dev by (simp add: pairing_inv_def)
  have 6: "VerifyDeviceList ed (wEntries w v @ [e]) = Inr l'" using l by (auto simp: VerifyDeviceList_snoc)
  show ?thesis
  proof (rule sinv_one [OF inv, of v _ ?x l'])
    show "same_vault w ?w' u" if "u \<noteq> v" for u using that by (simp add: same_vault_def rekey_view_def Let_def x(2))
    show "wVault ?w' v = Some ?x" by (simp add: rekey_view_def Let_def x(2))
    show "vault_inv ed cf ?w' v ?x l'"
      using 1 2 3 4 5 6 vi(5) by (simp add: vault_inv_def rekey_view_def Let_def x(2) [symmetric] split: if_splits)
  qed
qed

section \<open>Upload and checkpoint\<close>

lemma header_inv_upload:
  assumes inv: "header_inv ed cur l hs" and cur: "cur \<noteq> -1" "hRevision (shHeader sh) = cur + 1"
    and sh: "shDigest sh = headerDigest (shHeader sh)" "VerifyHeader ed l prev (shHeader sh) = Inr ()"
    and prev: "cur \<noteq> 0 \<Longrightarrow> \<exists>g. prev = Some (shHeader g) \<and> hs cur = Some g" and keep: "keep \<le> cur + 1"
  shows "header_inv ed (cur + 1) l (from_revision keep (hs(cur + 1 \<mapsto> sh)))" (is "header_inv ed _ l ?hs")
proof -
  note above = next_above [OF cur(1)]
  have old: "r \<noteq> 0" "r \<le> cur" if "hs r \<noteq> None" for r using inv that unfolding header_inv_def by blast+
  have at: "?hs r = Some h \<longleftrightarrow> \<not> r < keep \<and> (r = cur + 1 \<and> h = sh \<or> r \<noteq> cur + 1 \<and> hs r = Some h)" for r h
    by (auto simp: from_revision_def)
  have "r \<noteq> 0 \<and> r \<le> cur + 1 \<and> hRevision (shHeader h) = r \<and> shDigest h = headerDigest (shHeader h) \<and>
      (\<exists>prev. VerifyHeader ed l prev (shHeader h) = Inr ())" if "?hs r = Some h" for r h
  proof (cases "r = cur + 1")
    case True
    then show ?thesis using that at above sh cur by (auto simp: not_less)
  next
    case False
    then have "hs r = Some h" using that at by blast
    with inv have "r \<noteq> 0 \<and> r \<le> cur \<and> hRevision (shHeader h) = r \<and> shDigest h = headerDigest (shHeader h) \<and>
      (\<exists>prev. VerifyHeader ed l prev (shHeader h) = Inr ())" unfolding header_inv_def by blast
    with above show ?thesis by (meson less_imp_le order_trans)
  qed
  moreover have "verifyLink (shHeader g) (shHeader h) = Inr ()"
    if "r \<noteq> -1" "?hs r = Some g" "?hs (r + 1) = Some h" for r g h
  proof (cases "r = cur")
    case True
    then have g: "hs cur = Some g" and h: "h = sh" using that at above by auto
    then have "cur \<noteq> 0" using old [of cur] by auto
    with prev g have "prev = Some (shHeader g)" by auto
    with VerifyHeaderD(6) [OF sh(2)] h show ?thesis by (simp add: verifyPrevious_def)
  next
    case False
    then have h: "hs (r + 1) = Some h" using that(3) at by auto
    have "r \<noteq> cur + 1"
    proof
      assume r: "r = cur + 1"
      with old(2) [of "r + 1"] h have "r + 1 \<le> cur" by simp
      with next_above [OF that(1)] above r show False by (meson less_le_trans not_less order_less_imp_le)
    qed
    then have "hs r = Some g" using that(2) at by auto
    with inv h that(1) show ?thesis unfolding header_inv_def by blast
  qed
  moreover have "?hs q \<noteq> None" if "?hs r \<noteq> None" "r \<le> q" "q \<le> cur + 1" for r q
  proof (cases "q = cur + 1")
    case True
    then show ?thesis using keep by (simp add: from_revision_def not_less)
  next
    case False
    then have q: "q \<le> cur" using that(3) u64_less_Suc [OF above, of q] by (simp add: order_less_le)
    then have "r \<noteq> cur + 1" using that(2) above by (meson leD order_trans)
    then have "hs r \<noteq> None" "\<not> r < keep" using that(1) by (auto simp: from_revision_def split: if_splits)
    then have "hs q \<noteq> None" using inv q that(2) unfolding header_inv_def by blast
    then show ?thesis using \<open>\<not> r < keep\<close> that(2) by (auto simp: from_revision_def)
  qed
  moreover have "?hs (cur + 1) \<noteq> None" using keep by (simp add: from_revision_def not_less)
  ultimately show ?thesis unfolding header_inv_def by blast
qed

lemma cipher_bytes_mono:
  assumes "finite (dom m)" "k \<le> n"
  shows "cipher_bytes (from_revision n m) \<le> cipher_bytes (from_revision k m)"
proof -
  have sub: "dom (from_revision n m) \<subseteq> dom (from_revision k m)" "finite (dom (from_revision k m))"
    using assms by (auto simp: from_revision_def dom_def intro: finite_subset [OF _ assms(1)] split: if_splits)
  have "cipher_bytes (from_revision n m) = (\<Sum>r \<in> dom (from_revision n m). int (length (the (from_revision k m r))))"
    unfolding cipher_bytes_def using assms(2)
    by (intro sum.cong) (auto simp: from_revision_def dom_def split: if_splits)
  also have "\<dots> \<le> cipher_bytes (from_revision k m)"
    unfolding cipher_bytes_def by (rule sum_mono2) (use sub in auto)
  finally show ?thesis .
qed

lemma cipher_bytes_put:
  assumes "finite (dom m)" "m r = None"
  shows "cipher_bytes (m(r \<mapsto> c)) = cipher_bytes m + int (length c)"
proof -
  have "cipher_bytes (m(r \<mapsto> c)) = int (length c) + (\<Sum>q \<in> dom m. int (length (the ((m(r \<mapsto> c)) q))))"
    unfolding cipher_bytes_def using assms by (simp add: domIff)
  also have "(\<Sum>q \<in> dom m. int (length (the ((m(r \<mapsto> c)) q)))) = cipher_bytes m"
    unfolding cipher_bytes_def using assms(2) by (intro sum.cong) auto
  finally show ?thesis by (simp only: add.commute)
qed

lemma cipher_inv_upload:
  assumes inv: "cipher_inv cf cur hs ct" and cur: "cur \<noteq> -1"
    and c: "VerifyCiphertext (shHeader sh) c = Inr ()" and fit: "cipher_bytes (from_revision k ct) + int (length c) \<le> cfByteBudget cf"
    and n: "k \<le> n"
  shows "cipher_inv cf (cur + 1) (from_revision keep (hs(cur + 1 \<mapsto> sh))) ((from_revision n ct)(cur + 1 \<mapsto> c))"
proof -
  note above = next_above [OF cur]
  have old: "r \<noteq> 0" "r \<le> cur" if "ct r \<noteq> None" for r using inv that unfolding cipher_inv_def by blast+
  have fin: "finite (dom ct)" using inv by (simp add: cipher_inv_def)
  have fresh: "from_revision n ct (cur + 1) = None" using old(2) [of "cur + 1"] above
    by (cases "ct (cur + 1)") (auto simp: from_revision_def)
  have fin': "finite (dom (from_revision n ct))"
    by (rule finite_subset [OF _ fin]) (auto simp: from_revision_def split: if_splits)
  have "cipher_bytes ((from_revision n ct)(cur + 1 \<mapsto> c)) \<le> cfByteBudget cf"
    using cipher_bytes_put [OF fin' fresh, of c] cipher_bytes_mono [OF fin n] fit by linarith
  moreover have "r \<noteq> 0 \<and> r \<le> cur + 1" if "((from_revision n ct)(cur + 1 \<mapsto> c)) r \<noteq> None" for r
  proof (cases "r = cur + 1")
    case True
    then show ?thesis using above by auto
  next
    case False
    then have "ct r \<noteq> None" using that by (auto simp: from_revision_def split: if_splits)
    then show ?thesis using old [of r] above by (meson less_imp_le order_trans)
  qed
  moreover have "VerifyCiphertext (shHeader h) b = Inr ()"
    if "from_revision keep (hs(cur + 1 \<mapsto> sh)) r = Some h" "((from_revision n ct)(cur + 1 \<mapsto> c)) r = Some b" for r h b
  proof (cases "r = cur + 1")
    case True
    then show ?thesis using that c by (auto simp: from_revision_def split: if_splits)
  next
    case False
    then have "hs r = Some h" "ct r = Some b" using that by (auto simp: from_revision_def split: if_splits)
    then show ?thesis using inv unfolding cipher_inv_def by blast
  qed
  moreover have "finite (dom ((from_revision n ct)(cur + 1 \<mapsto> c)))" "((from_revision n ct)(cur + 1 \<mapsto> c)) (cur + 1) \<noteq> None"
    using fin' by simp_all
  ultimately show ?thesis unfolding cipher_inv_def by blast
qed

lemma follows_latest_current:
  assumes "header_inv ed (vCurrentRevision x) l (wHeader w (vID x))" "follows_latest w x h prev" "vCurrentRevision x \<noteq> 0"
  shows "\<exists>g. prev = Some (shHeader g) \<and> wHeader w (vID x) (vCurrentRevision x) = Some g"
proof -
  obtain g where g: "prev = Some (shHeader g)" "wHeader w (vID x) (hRevision (shHeader g)) = Some g"
    and last: "\<forall>r k. wHeader w (vID x) r = Some k \<longrightarrow> r \<le> hRevision (shHeader g)"
    using assms(2,3) by (auto simp: follows_latest_def)
  have "wHeader w (vID x) (vCurrentRevision x) \<noteq> None" "hRevision (shHeader g) \<le> vCurrentRevision x"
    using assms(1,3) g(2) unfolding header_inv_def by blast+
  then have "hRevision (shHeader g) = vCurrentRevision x" using last by (auto intro: antisym)
  with g show ?thesis by auto
qed

lemma sinv_upload:
  assumes inv: "sinv ed cf w" and x: "wVault w (vID x) = Some x" and l: "VerifyDeviceList ed (wEntries w (vID x)) = Inr l"
    and next_rev: "vCurrentRevision x \<noteq> -1" "hRevision h = vCurrentRevision x + 1"
    and h: "VerifyHeader ed l prev h = Inr ()" "follows_latest w x h prev" "VerifyCiphertext h c = Inr ()"
    and fit: "cipher_bytes (from_revision k (wCipher w (vID x))) + int (length c) \<le> cfByteBudget cf" "k \<le> n"
    and keep: "keep \<le> hRevision h"
  shows "sinv ed cf (upload_view ed cf clk x h c n keep w)" (is "sinv ed cf ?w'")
proof -
  let ?v = "vID x" and ?x = "x\<lparr>vCurrentRevision := hRevision h, vUpdatedAt := clk 4\<rparr>"
  let ?sh = "uploadHeader ed cf clk x h"
  obtain k' where "vault_inv ed cf w ?v x k'" using sinv_vault [OF inv x] by blast
  then have vi: "vault_inv ed cf w ?v x l" using l(1) by (simp add: vault_inv_def)
  note vi = vault_invD [OF vi]
  have 1: "list_inv ?v ?x l (wDevice w ?v)" using vi(3) by (simp add: list_inv_def)
  have 2: "package_inv ed ?x l (wPackage w ?v)" using vi(6) by (simp add: package_inv_def)
  have 3: "header_inv ed (hRevision h) l (from_revision keep ((wHeader w ?v)(hRevision h \<mapsto> ?sh)))"
    unfolding next_rev(2)
  proof (rule header_inv_upload [OF vi(4) next_rev(1), of _ prev])
    show "\<exists>g. prev = Some (shHeader g) \<and> wHeader w ?v (vCurrentRevision x) = Some g" if "vCurrentRevision x \<noteq> 0"
      by (rule follows_latest_current [OF vi(4) h(2) that])
  qed (use h next_rev keep in \<open>simp_all add: uploadHeader_def\<close>)
  have 4: "cipher_inv cf (hRevision h) (from_revision keep ((wHeader w ?v)(hRevision h \<mapsto> ?sh)))
      ((from_revision n (wCipher w ?v))(hRevision h \<mapsto> c))"
    unfolding next_rev(2)
    by (rule cipher_inv_upload [OF vi(5) next_rev(1) _ fit]) (simp add: uploadHeader_def h)
  show ?thesis
  proof (rule sinv_one [OF inv, of ?v _ ?x l])
    show "same_vault w ?w' u" if "u \<noteq> ?v" for u using that by (simp add: same_vault_def upload_view_def Let_def)
    show "wVault ?w' ?v = Some ?x" by (simp add: upload_view_def Let_def)
    show "vault_inv ed cf ?w' ?v ?x l"
      using vi(1,7,8) 1 2 3 4 by (simp add: vault_inv_def upload_view_def Let_def)
  qed
qed

lemma sinv_checkpoint:
  assumes inv: "sinv ed cf w" and x: "wVault w v = Some x" and d: "wDevice w v i = Some d" "dState d = DeviceApproved"
    and c: "cVaultID (scCheckpoint c) = v" "cDeviceID (scCheckpoint c) = i"
    and ok: "checkpointVerify ed (scCheckpoint c) (dSigningKey d) = Inr ()"
  shows "sinv ed cf (put_checkpoint c w)" (is "sinv ed cf ?w'")
proof -
  obtain l where vi: "vault_inv ed cf w v x l" using sinv_vault [OF inv x] by blast
  obtain m where m: "map_of (lMembers l) i = Some m" "device_member d m"
    by (rule device_is_member [OF vault_invD(3) [OF vi] d(1)])
  then have "current l i m" "mSigningKey m = dSigningKey d"
    using d(2) by (auto simp: device_member_def current_def split: if_splits)
  with vault_invD(8,10) [OF vi] c ok have "checkpoint_inv ed l ((wCheckpoint w v)(i \<mapsto> c))"
    by (auto simp: checkpoint_inv_def)
  with vi have "vault_inv ed cf ?w' v x l" by (simp add: vault_inv_def c)
  then show ?thesis
    by (rule sinv_one [OF inv, rotated 2]) (use x in \<open>simp_all add: same_vault_def c\<close>)
qed

end
