(* ===== verification/Service_Run.thy ===== *)
theory Service_Run
  imports Service_Inv2
begin

text \<open>
  Runs of the service: the calls a client or the operator can make, one step per call with its
  own clock readings, and the states that sequences of calls reach.  Every call, whether it
  succeeds or fails, keeps the invariant of the stored vaults.
\<close>

section \<open>Calls and runs\<close>

datatype call =
    CreateVault Caller SignedRequest DeviceListEntry
  | BeginPairing Caller SignedRequest PairingOffer
  | AnswerPairing Caller SignedRequest string bytes
  | ConfirmPairing Caller SignedRequest bytes
  | CancelPairing Caller SignedRequest string
  | Approve Caller SignedRequest DeviceListEntry KeyPackageV3
  | Activate Caller SignedRequest string
  | Remove Caller SignedRequest DeviceListEntry "KeyPackageV3 list"
  | Rotate Caller SignedRequest DeviceListEntry "KeyPackageV3 list"
  | UpgradeKey Caller SignedRequest DeviceListEntry
  | Upload Caller SignedRequest Header bytes
  | PutCheckpoint Caller SignedRequest Checkpoint
  | Reset Caller SignedRequest u64
  | Maintain
  | AdminReset string

definition outcome :: "(svc_error + 'a) \<times> 's \<Rightarrow> (svc_error + unit) \<times> 's" where
  "outcome r = (case fst r of Inl e \<Rightarrow> Inl e | Inr _ \<Rightarrow> Inr (), snd r)"

fun perform :: "'s Tx \<Rightarrow> ed25519 \<Rightarrow> Config \<Rightarrow> (nat \<Rightarrow> gotime) \<Rightarrow> call \<Rightarrow> 's \<Rightarrow> (svc_error + unit) \<times> 's" where
  "perform T ed cf clk (CreateVault ca rq e) s = outcome (svcCreateVault T ed clk ca rq e s)"
| "perform T ed cf clk (BeginPairing ca rq offer) s = outcome (svcBeginPairing T ed clk ca rq offer s)"
| "perform T ed cf clk (AnswerPairing ca rq i msg) s = outcome (svcAnswerPairing T ed clk ca rq i msg s)"
| "perform T ed cf clk (ConfirmPairing ca rq msg) s = outcome (svcConfirmPairing T ed clk ca rq msg s)"
| "perform T ed cf clk (CancelPairing ca rq i) s = outcome (svcCancelPairing T ed clk ca rq i s)"
| "perform T ed cf clk (Approve ca rq e p) s = outcome (svcApprove T ed clk ca rq e p s)"
| "perform T ed cf clk (Activate ca rq dg) s = outcome (svcActivate T ed clk ca rq dg s)"
| "perform T ed cf clk (Remove ca rq e ps) s = outcome (svcRemove T ed clk ca rq e ps s)"
| "perform T ed cf clk (Rotate ca rq e ps) s = outcome (svcRotate T ed clk ca rq e ps s)"
| "perform T ed cf clk (UpgradeKey ca rq e) s = outcome (svcUpgradeKey T ed clk ca rq e s)"
| "perform T ed cf clk (Upload ca rq h c) s = outcome (svcUpload T ed cf clk ca rq h c s)"
| "perform T ed cf clk (PutCheckpoint ca rq cp) s = outcome (svcPutCheckpoint T ed clk ca rq cp s)"
| "perform T ed cf clk (Reset ca rq ep) s = outcome (svcReset T ed clk ca rq ep s)"
| "perform T ed cf clk Maintain s = outcome (svcMaintain T clk s)"
| "perform T ed cf clk (AdminReset owner) s = outcome (svcAdminReset T owner s)"

text \<open>The readings of the clock during one call lie between the times before and after it.\<close>

definition ticks :: "gotime \<Rightarrow> (nat \<Rightarrow> gotime) \<Rightarrow> gotime \<Rightarrow> bool" where
  "ticks now clk now' \<longleftrightarrow> mono clk \<and> now \<le> clk 0 \<and> (\<forall>i. clk i \<le> now')"

inductive reaches :: "'s Tx \<Rightarrow> ed25519 \<Rightarrow> Config \<Rightarrow> gotime \<times> 's \<Rightarrow> gotime \<times> 's \<Rightarrow> bool"
  for T :: "'s Tx" and ed :: ed25519 and cf :: Config and start :: "gotime \<times> 's" where
  reaches_start: "reaches T ed cf start start"
| reaches_call: "reaches T ed cf start (now, s) \<Longrightarrow> ticks now clk now' \<Longrightarrow>
    perform T ed cf clk c s = (r, s') \<Longrightarrow> reaches T ed cf start (now', s')"

definition config_ok :: "Config \<Rightarrow> bool" where
  "config_ok cf \<longleftrightarrow> cfHeaderRetention cf \<noteq> 0 \<and> 0 < cfByteBudget cf"

section \<open>Committed transactions keep the invariant\<close>

definition keeps :: "('s \<Rightarrow> sview) \<Rightarrow> ('s \<Rightarrow> bool) \<Rightarrow> ed25519 \<Rightarrow> Config \<Rightarrow> ('s, svc_error, 'a) txm \<Rightarrow> bool" where
  "keeps view ok ed cf fn \<longleftrightarrow>
     (\<forall>s x s'. ok s \<and> sinv ed cf (view s) \<and> fn s = (Inr x, s') \<longrightarrow> ok s' \<and> sinv ed cf (view s'))"

lemma keepsI:
  "(\<And>s x s'. ok s \<Longrightarrow> sinv ed cf (view s) \<Longrightarrow> fn s = (Inr x, s') \<Longrightarrow> ok s' \<and> sinv ed cf (view s')) \<Longrightarrow> keeps view ok ed cf fn"
  unfolding keeps_def by blast

lemma signed_sinv: "signed ed' clk caller request a w w1 \<Longrightarrow> sinv ed cf w \<Longrightarrow> sinv ed cf w1"
  using sinv_same signed_same by blast

lemma spends_sinv: "spends clk sc n w w1 \<Longrightarrow> sinv ed cf w \<Longrightarrow> sinv ed cf w1"
  using sinv_same spends_same by blast

lemma activated_approved: "requireActivated a = Inr () \<Longrightarrow> aPairing a = None \<and> dState (aDevice a) = DeviceApproved"
  by (simp add: requireActivated_ok)

lemma entry_by_device: "entry_by a kind e \<Longrightarrow> aPairing a = None"
  using activated_approved [of a] unfolding entry_by_def by blast

lemma keepFrom_le:
  assumes "config_ok cf"
  shows "keepFrom cf h \<le> hRevision h"
proof (cases "cfHeaderRetention cf < hRevision h")
  case True
  moreover have "0 < unat (cfHeaderRetention cf)"
    using assms by (simp add: config_ok_def unat_gt_0)
  ultimately have "hRevision h - cfHeaderRetention cf < hRevision h"
    by (simp add: word_less_nat_alt unat_sub word_le_nat_alt)
  from u64_Suc_le [OF this] show ?thesis using True by (simp add: keepFrom_def)
qed (simp add: keepFrom_def)

context sync_tx
begin

lemma createVault_keeps: "config_ok cf \<Longrightarrow> keeps view inv ed cf (createVaultTx T ed clk caller request e)"
proof (rule keepsI)
  fix s x s'
  assume cf: "config_ok cf" and inv: "inv s" and si: "sinv ed cf (view s)"
    and run: "createVaultTx T ed clk caller request e s = (Inr x, s')"
  from inv run show "inv s' \<and> sinv ed cf (view s')"
  proof (rule createVault_ok)
    fix w1 l
    assume "inv s'" "VerifyDeviceList ed [e] = Inr l"
      and sp: "spends clk (ownerScope caller) (rqNonce request) (view s) w1"
      and n: "wVault (view s) (eVaultID e) = None" and x: "x = createdVault clk caller e"
      and w: "view s' = put_device (createdDevice clk caller e) (add_entry e (put_vault x w1))"
    have "wVault w1 (eVaultID e) = None" using n spends_tables [OF sp] by simp
    with cf \<open>inv s'\<close> \<open>VerifyDeviceList ed [e] = Inr l\<close> sinv_create [OF spends_sinv [OF sp si]]
    show ?thesis unfolding w x by (simp add: config_ok_def)
  qed
qed

lemma beginPairing_keeps: "keeps view inv ed cf (beginPairingTx T ed clk caller request offer)"
proof (rule keepsI)
  fix s x s'
  assume inv: "inv s" and si: "sinv ed cf (view s)" and run: "beginPairingTx T ed clk caller request offer s = (Inr x, s')"
  from inv run show "inv s' \<and> sinv ed cf (view s')"
  proof (rule beginPairing_ok)
    fix vault w1 w2
    assume s': "inv s'" and v: "wVault (view s) (vID vault) = Some vault" and msg: "\<not> badMessage (ofMessage offer)"
      and sp: "spends clk (ownerScope caller) (rqNonce request) (view s) w1"
      and rev: "\<And>i d. wDevice (view s) (vID vault) i = Some d \<Longrightarrow> dTokenDeviceID d = caTokenDeviceID caller \<Longrightarrow> dState d = DeviceRevoked"
      and free: "wDevice (view s) (vID vault) (ofDeviceID offer) = None"
      and wp: "withoutPrevious (vID vault) (caTokenDeviceID caller) w1 w2"
      and room: "card {i. wPairing (purge_expired (clk 4) w2) (vID vault) i \<noteq> None} < MaxPendingPairings"
      and w: "view s' = put_pairing (offeredPairing clk vault caller offer) (purge_expired (clk 4) w2)"
    note tb = spends_tables [OF sp]
    have "sinv ed cf (put_pairing (offeredPairing clk vault caller offer) (purge_expired (clk 4) w2))"
      by (rule sinv_offer [OF spends_sinv [OF sp si] _ wp room, of vault])
        (use v free rev msg in \<open>simp_all add: tb offeredPairing_def pairing_state_ok_def\<close>)
    with s' show ?thesis by (simp only: w)
  qed
qed

lemma answerPairing_keeps: "keeps view inv ed cf (answerPairingTx T ed clk caller request i msg)"
proof (rule keepsI)
  fix s x s'
  assume inv: "inv s" and si: "sinv ed cf (view s)" and run: "answerPairingTx T ed clk caller request i msg s = (Inr x, s')"
  from inv run show "inv s' \<and> sinv ed cf (view s')"
  proof (rule answerPairing_ok)
    fix a w1 g
    assume s': "inv s'" and sg: "signed ed clk caller request a (view s) w1" and msg: "\<not> badMessage msg"
      and g: "wPairing (view s) (vID (aVault a)) i = Some g" "gState g = PairingOffered"
      and w: "view s' = put_pairing (g\<lparr>gAnswer := msg, gState := PairingAnswered\<rparr>) w1"
    have "sinv ed cf (put_pairing (g\<lparr>gAnswer := msg, gState := PairingAnswered\<rparr>) w1)"
      by (rule sinv_put_pairing [OF signed_sinv [OF sg si], of "vID (aVault a)" "aVault a" i g])
        (use signed_vault [OF sg] pairing_key [OF inv g(1)] g msg in \<open>simp_all add: signed_tables [OF sg] pairing_state_ok_def\<close>)
    with s' show ?thesis by (simp only: w)
  qed
qed

lemma confirmPairing_keeps: "keeps view inv ed cf (confirmPairingTx T ed clk caller request msg)"
proof (rule keepsI)
  fix s x s'
  assume inv: "inv s" and si: "sinv ed cf (view s)" and run: "confirmPairingTx T ed clk caller request msg s = (Inr x, s')"
  from inv run show "inv s' \<and> sinv ed cf (view s')"
  proof (rule confirmPairing_ok)
    fix a w1 g
    assume s': "inv s'" and sg: "signed ed clk caller request a (view s) w1" and msg: "\<not> badMessage msg"
      and g: "wPairing (view s) (vID (aVault a)) (gDeviceID g) = Some g" "gState g = PairingAnswered"
      and w: "view s' = put_pairing (g\<lparr>gConfirm := msg, gState := PairingConfirmed\<rparr>) w1"
    have "sinv ed cf (put_pairing (g\<lparr>gConfirm := msg, gState := PairingConfirmed\<rparr>) w1)"
      by (rule sinv_put_pairing [OF signed_sinv [OF sg si], of "vID (aVault a)" "aVault a" "gDeviceID g" g])
        (use signed_vault [OF sg] pairing_key [OF inv g(1)] g msg in \<open>simp_all add: signed_tables [OF sg] pairing_state_ok_def\<close>)
    with s' show ?thesis by (simp only: w)
  qed
qed

lemma cancelPairing_keeps: "keeps view inv ed cf (cancelPairingTx T ed clk caller request i)"
proof (rule keepsI)
  fix s x s'
  assume inv: "inv s" and si: "sinv ed cf (view s)" and run: "cancelPairingTx T ed clk caller request i s = (Inr x, s')"
  from inv run show "inv s' \<and> sinv ed cf (view s')"
  proof (rule cancelPairing_ok)
    fix a w1 j
    assume s': "inv s'" and sg: "signed ed clk caller request a (view s) w1" and w: "view s' = drop_pairing (vID (aVault a)) j w1"
    from s' sinv_drop_pairing [OF signed_sinv [OF sg si]] show ?thesis by (simp only: w)
  qed
qed

lemma approve_keeps: "keeps view inv ed cf (approveTx T ed clk caller request e p)"
proof (rule keepsI)
  fix s x s'
  assume inv: "inv s" and si: "sinv ed cf (view s)" and run: "approveTx T ed clk caller request e p s = (Inr x, s')"
  from inv sinv_lists [OF si] run show "inv s' \<and> sinv ed cf (view s')"
  proof (rule approve_ok)
    fix a w1 l l' g
    assume s': "inv s'" and sg: "signed ed clk caller request a (view s) w1" and e: "entry_by a EntryAdd e"
      and g: "wPairing (view s) (vID (aVault a)) (eSubjectDeviceID e) = Some g"
      and l: "VerifyDeviceList ed (wEntries (view s) (vID (aVault a))) = Inr l" "Extend ed l e = Inr l'"
      and p: "package_ok ed a e (vEpoch (aVault a)) p" "pRecipientDeviceID p = eSubjectDeviceID e"
      and w: "view s' = put_vault ((aVault a)\<lparr>vHeadIndex := eIndex e, vUpdatedAt := clk 5\<rparr>)
       (drop_pairing (vID (aVault a)) (eSubjectDeviceID e)
       (put_package \<lparr>kPackage = p, kCreatedAt = clk 5\<rparr>
       (put_device (approvedDevice clk e g) (add_entry e w1))))"
    have act: "aPairing a = None" by (rule entry_by_device [OF e])
    note tb = signed_tables [OF sg] and sv = signed_vault [OF sg] and sd = signed_device [OF sg act]
    have "sinv ed cf (view s')" unfolding w
      by (rule sinv_approve [OF signed_sinv [OF sg si], of "vID (aVault a)" "aVault a" e g l l' p "aDevice a"])
        (use sv sd g l p e in \<open>simp_all add: tb entry_by_def package_ok_def\<close>)
    with s' show ?thesis by simp
  qed
qed

lemma activate_keeps: "keeps view inv ed cf (activateTx T ed clk caller request dg)"
proof (rule keepsI)
  fix s x s'
  assume inv: "inv s" and si: "sinv ed cf (view s)" and run: "activateTx T ed clk caller request dg s = (Inr x, s')"
  from inv run show "inv s' \<and> sinv ed cf (view s')"
  proof (rule activate_ok)
    fix a w1 p
    assume s': "inv s'" and sg: "signed ed clk caller request a (view s) w1" and ap: "requireApproved a = Inr ()"
      and w: "view s' = put_device ((aDevice a)\<lparr>dActivatedEpoch := vEpoch (aVault a)\<rparr>) w1"
    have act: "aPairing a = None" using ap by (simp add: requireApproved_ok)
    have sd: "wDevice (view s) (vID (aVault a)) (dDeviceID (aDevice a)) = Some (aDevice a)"
      using signed_device [OF sg act] by simp
    have "sinv ed cf (view s')" unfolding w
      by (rule sinv_activate [OF signed_sinv [OF sg si], of "vID (aVault a)" "aVault a" "dDeviceID (aDevice a)" "aDevice a"])
        (use signed_vault [OF sg] sd device_key [OF inv sd] in \<open>simp_all add: signed_tables [OF sg]\<close>)
    with s' show ?thesis by simp
  qed
qed

lemma upgradeKey_keeps: "keeps view inv ed cf (upgradeKeyTx T ed clk caller request e)"
proof (rule keepsI)
  fix s x s'
  assume inv: "inv s" and si: "sinv ed cf (view s)" and run: "upgradeKeyTx T ed clk caller request e s = (Inr x, s')"
  from inv sinv_lists [OF si] run show "inv s' \<and> sinv ed cf (view s')"
  proof (rule upgradeKey_ok)
    fix a w1 l l'
    assume s': "inv s'" and sg: "signed ed clk caller request a (view s) w1" and e: "entry_by a EntryKey e"
      and l: "VerifyDeviceList ed (wEntries (view s) (vID (aVault a))) = Inr l" "Extend ed l e = Inr l'"
      and w: "view s' = put_vault ((aVault a)\<lparr>vHeadIndex := eIndex e, vUpdatedAt := clk 4\<rparr>)
       (put_device ((aDevice a)\<lparr>dPackageKey := eSubjectPackageKey e\<rparr>) (add_entry e w1))"
    have act: "aPairing a = None" by (rule entry_by_device [OF e])
    have sd: "wDevice (view s) (vID (aVault a)) (dDeviceID (aDevice a)) = Some (aDevice a)"
      using signed_device [OF sg act] by simp
    have "sinv ed cf (view s')" unfolding w
      by (rule sinv_upgrade [OF signed_sinv [OF sg si], of "vID (aVault a)" "aVault a" e l l'])
        (use signed_vault [OF sg] sd device_key [OF inv sd] l e in \<open>simp_all add: signed_tables [OF sg] entry_by_def\<close>)
    with s' show ?thesis by simp
  qed
qed

lemma rekey_keeps:
  assumes "kind \<in> {EntryRemove, EntryRotate}"
  shows "keeps view inv ed cf (rekeyTx T ed clk caller request kind e ps)"
proof (rule keepsI)
  fix s x s'
  assume inv: "inv s" and si: "sinv ed cf (view s)" and run: "rekeyTx T ed clk caller request kind e ps s = (Inr x, s')"
  from inv sinv_lists [OF si] run show "inv s' \<and> sinv ed cf (view s')"
  proof (rule rekey_ok)
    fix a w1 l l'
    assume s': "inv s'" and sg: "signed ed clk caller request a (view s) w1" and e: "entry_by a kind e"
      and l: "VerifyDeviceList ed (wEntries (view s) (vID (aVault a))) = Inr l" "Extend ed l e = Inr l'"
      and rs: "pRecipientDeviceID ` set ps = mDeviceID ` set (Current l') - {dDeviceID (aDevice a)}"
      and ps: "\<forall>p \<in> set ps. package_ok ed a e (eEpochAfter e) p"
      and w: "view s' = rekey_view kind e a ps (clk 4) w1"
    note tb = signed_tables [OF sg]
    have act: "aPairing a = None" by (rule entry_by_device [OF e])
    have ids: "dDeviceID d = i" if "wDevice w1 (vID (aVault a)) i = Some d" for i d
      using device_key [OF inv, of "vID (aVault a)" i d] that tb(2) by simp
    have rs': "pRecipientDeviceID ` set ps \<subseteq> mDeviceID ` set (Current l')" unfolding rs by (rule Diff_subset)
    have "sinv ed cf (view s')" unfolding w
    proof (rule sinv_rekey [OF signed_sinv [OF sg si] _ refl, of a e kind l l' ps])
      show "wVault w1 (vID (aVault a)) = Some (aVault a)" using signed_vault [OF sg] tb(1) by simp
      show "eKind e = kind" "eVaultID e = vID (aVault a)" using e by (simp_all add: entry_by_def)
      show "VerifyDeviceList ed (wEntries w1 (vID (aVault a))) = Inr l" using l(1) tb(3) by simp
      show "wDevice w1 (vID (aVault a)) (dDeviceID (aDevice a)) = Some (aDevice a)"
        using signed_device [OF sg act] tb(2) by simp
    qed (rule assms l(2) ids rs' ps | assumption)+
    with s' show ?thesis by simp
  qed
qed

lemma upload_keeps:
  assumes "config_ok cf"
  shows "keeps view inv ed cf (uploadTx T ed cf clk caller request h c)"
proof (rule keepsI)
  fix s x s'
  assume inv: "inv s" and si: "sinv ed cf (view s)" and run: "uploadTx T ed cf clk caller request h c s = (Inr x, s')"
  from inv sinv_lists [OF si] run show "inv s' \<and> sinv ed cf (view s')"
  proof (rule upload_ok)
    fix a w1 l prev k
    assume s': "inv s'" and sg: "signed ed clk caller request a (view s) w1" and hf: "header_for a h c"
      and l: "VerifyDeviceList ed (wEntries (view s) (vID (aVault a))) = Inr l"
      and fl: "follows_latest (view s) (aVault a) h prev" and vh: "VerifyHeader ed l prev h = Inr ()"
      and k: "k \<le> vCurrentRevision (aVault a)"
      and fit: "cipher_bytes (from_revision k (wCipher (view s) (vID (aVault a)))) + int (length c) \<le> cfByteBudget cf"
      and w: "view s' = upload_view ed cf clk (aVault a) h c (if raises prev h then hRevision h else k) (keepFrom cf h) w1"
    note tb = signed_tables [OF sg]
    have next_rev: "vCurrentRevision (aVault a) \<noteq> -1" "hRevision h = vCurrentRevision (aVault a) + 1"
      and vc: "VerifyCiphertext h c = Inr ()" using hf by (auto simp: header_for_def checkedNext_eq)
    have kh: "k \<le> hRevision h" using k next_above [OF next_rev(1)] next_rev(2) by (metis order_trans less_imp_le)
    have "sinv ed cf (view s')" unfolding w
    proof (rule sinv_upload [OF signed_sinv [OF sg si] _ _ next_rev vh _ vc, of k])
      show "wVault w1 (vID (aVault a)) = Some (aVault a)" using signed_vault [OF sg] tb(1) by simp
      show "VerifyDeviceList ed (wEntries w1 (vID (aVault a))) = Inr l" using l(1) tb(3) by simp
      show "follows_latest w1 (aVault a) h prev" using fl tb by (simp add: follows_latest_def)
      show "cipher_bytes (from_revision k (wCipher w1 (vID (aVault a)))) + int (length c) \<le> cfByteBudget cf"
        using fit tb by simp
      show "k \<le> (if raises prev h then hRevision h else k)" using kh by simp
      show "keepFrom cf h \<le> hRevision h" by (rule keepFrom_le [OF assms])
    qed
    with s' show ?thesis by simp
  qed
qed

lemma putCheckpoint_keeps: "keeps view inv ed cf (putCheckpointTx T ed clk caller request cp)"
proof (rule keepsI)
  fix s x s'
  assume inv: "inv s" and si: "sinv ed cf (view s)" and run: "putCheckpointTx T ed clk caller request cp s = (Inr x, s')"
  from inv run show "inv s' \<and> sinv ed cf (view s')"
  proof (rule putCheckpoint_ok)
    fix a w1
    assume s': "inv s'" and sg: "signed ed clk caller request a (view s) w1" and ra: "requireActivated a = Inr ()"
      and c: "cVaultID cp = vID (aVault a)" "cDeviceID cp = dDeviceID (aDevice a)"
        "checkpointVerify ed cp (dSigningKey (aDevice a)) = Inr ()"
      and w: "x = \<lparr>scCheckpoint = cp, scAcceptedAt = clk 5\<rparr>" "view s' = put_checkpoint x w1"
    note tb = signed_tables [OF sg] and act = activated_approved [OF ra]
    have "sinv ed cf (view s')" unfolding w(2)
      by (rule sinv_checkpoint [OF signed_sinv [OF sg si], of "vID (aVault a)" "aVault a" "dDeviceID (aDevice a)" "aDevice a"])
        (use signed_vault [OF sg] signed_device [OF sg] act c in \<open>simp_all add: tb w(1)\<close>)
    with s' show ?thesis by simp
  qed
qed

lemma reset_keeps: "keeps view inv ed cf (resetTx T ed clk caller request ep)"
proof (rule keepsI)
  fix s x s'
  assume inv: "inv s" and si: "sinv ed cf (view s)" and run: "resetTx T ed clk caller request ep s = (Inr x, s')"
  from inv run show "inv s' \<and> sinv ed cf (view s')"
  proof (rule reset_ok)
    fix a w1
    assume s': "inv s'" and sg: "signed ed clk caller request a (view s) w1" and w: "view s' = drop_vault (vID (aVault a)) w1"
    from s' sinv_drop_vault [OF signed_sinv [OF sg si]] show ?thesis by (simp only: w)
  qed
qed

lemma maintain_keeps: "keeps view inv ed cf (maintainTx T clk)"
  by (rule keepsI) (use maintain_ok sinv_purge in fastforce)

lemma adminReset_keeps: "keeps view inv ed cf (adminResetTx T owner)"
proof (rule keepsI)
  fix s x s'
  assume inv: "inv s" and si: "sinv ed cf (view s)" and run: "adminResetTx T owner s = (Inr x, s')"
  from inv run show "inv s' \<and> sinv ed cf (view s')"
  proof (rule adminReset_ok)
    fix y
    assume s': "inv s'" and w: "view s' = drop_vault (vID y) (view s)"
    from s' sinv_drop_vault [OF si] show ?thesis by (simp only: w)
  qed
qed

section \<open>Every call keeps the invariant\<close>

lemma same_but_nonces: "w' = w\<lparr>wNonce := f\<rparr> \<Longrightarrow> same_vault w w' v"
  by (simp add: same_vault_def)

lemma respend_same:
  assumes "inv s" "storeUpdate (respendNonce T sp) s = (r, s')"
  shows "inv s' \<and> (\<forall>v. same_vault (view s) (view s') v)"
proof (cases "txRecordNonce T (snScope sp) (snNonce sp) (snNow sp) (snExpires sp) s")
  case (Inl e)
  then have "s' = s" using assms(2) by (simp add: storeUpdate_def respendNonce_def)
  with assms(1) show ?thesis by (simp add: same_vault_def)
next
  case (Inr p)
  obtain fresh s1 where p: "p = (fresh, s1)" by (cases p)
  then have s': "s' = s1" using Inr assms(2) by (simp add: storeUpdate_def respendNonce_def)
  from RecordNonce_ok [OF assms(1) Inr [unfolded p]] have "inv s1" "view s1 = (view s)\<lparr>wNonce := wNonce (view s1)\<rparr>"
    by blast+
  with s' show ?thesis by (simp only: same_but_nonces) blast
qed

text \<open>A call that returns an error leaves every vault as it was; at most its nonce is recorded.\<close>

lemma keeperUpdate_err:
  assumes inv: "inv s" and run: "keeperUpdate T fn s = (Inl e, s')"
  shows "inv s' \<and> (\<forall>v. same_vault (view s) (view s') v)"
proof -
  obtain r t sp where fn: "fn (s, None) = (r, (t, sp))" by (metis prod.collapse)
  then obtain e' where r: "r = Inl e'"
    using run by (cases r) (auto simp: keeperUpdate_def storeUpdate_def trackNonce_def)
  show ?thesis
  proof (cases sp)
    case None
    with fn r run have "s' = s" by (simp add: keeperUpdate_def storeUpdate_def trackNonce_def)
    with inv show ?thesis by (simp add: same_vault_def)
  next
    case (Some n)
    with fn r run have "s' = snd (storeUpdate (respendNonce T n) s)"
      by (auto simp: keeperUpdate_def storeUpdate_def [of "trackNonce fn"] trackNonce_def)
    then show ?thesis using respend_same [OF inv, of n "fst (storeUpdate (respendNonce T n) s)" s'] by simp
  qed
qed

lemma keeperUpdate_ok:
  "keeperUpdate T fn s = (Inr x, s') \<longleftrightarrow> (\<exists>sp. fn (s, None) = (Inr x, (s', sp)))"
  by (cases "fn (s, None)")
    (auto simp: keeperUpdate_def storeUpdate_def trackNonce_def split: sum.splits option.splits prod.splits)

lemma keeperUpdate_keeps:
  assumes k: "keeps (view \<circ> fst) (inv \<circ> fst) ed cf fn" and inv: "inv s" and si: "sinv ed cf (view s)"
    and run: "outcome (keeperUpdate T fn s) = (r, s')"
  shows "inv s' \<and> sinv ed cf (view s')"
proof -
  obtain q where q: "keeperUpdate T fn s = (q, s')" using run by (cases "keeperUpdate T fn s") (auto simp: outcome_def)
  show ?thesis
  proof (cases q)
    case (Inl e)
    have e: "inv s'" "\<And>v. same_vault (view s) (view s') v"
      using keeperUpdate_err [OF inv q [unfolded Inl]] by simp_all
    from e(1) sinv_same [OF e(2) si] show ?thesis by (rule conjI)
  next
    case (Inr x)
    then obtain sp where "fn (s, None) = (Inr x, (s', sp))" using q by (auto simp: keeperUpdate_ok)
    then show ?thesis using k [unfolded keeps_def, rule_format, of "(s, None)" x "(s', sp)"] inv si by simp
  qed
qed

lemmas nonce_keeps =
  sync_tx.createVault_keeps [OF nonce_sync_tx] sync_tx.beginPairing_keeps [OF nonce_sync_tx]
  sync_tx.answerPairing_keeps [OF nonce_sync_tx] sync_tx.confirmPairing_keeps [OF nonce_sync_tx]
  sync_tx.cancelPairing_keeps [OF nonce_sync_tx] sync_tx.approve_keeps [OF nonce_sync_tx]
  sync_tx.activate_keeps [OF nonce_sync_tx] sync_tx.upgradeKey_keeps [OF nonce_sync_tx]
  sync_tx.rekey_keeps [OF nonce_sync_tx] sync_tx.upload_keeps [OF nonce_sync_tx]
  sync_tx.putCheckpoint_keeps [OF nonce_sync_tx] sync_tx.reset_keeps [OF nonce_sync_tx]
  sync_tx.maintain_keeps [OF nonce_sync_tx] sync_tx.adminReset_keeps [OF nonce_sync_tx]

lemmas svc_defs = svcCreateVault_def svcBeginPairing_def svcAnswerPairing_def svcConfirmPairing_def
  svcCancelPairing_def svcApprove_def svcActivate_def svcUpgradeKey_def svcUpload_def svcPutCheckpoint_def
  svcReset_def svcMaintain_def svcAdminReset_def svcRemove_def svcRotate_def rekey_def

lemma perform_keeps:
  assumes cf: "config_ok cf" and inv: "inv s" and si: "sinv ed cf (view s)" and run: "perform T ed cf clk c s = (r, s')"
  shows "inv s' \<and> sinv ed cf (view s')"
  using run
  apply (cases c; hypsubst; unfold perform.simps svc_defs)
  by (erule keeperUpdate_keeps [OF _ inv si, rotated], rule nonce_keeps, ((rule cf insertI1 insertI2 singletonI)+)?)+

lemma reaches_keeps:
  assumes "reaches T ed cf (t0, s0) (t, s)" "config_ok cf" "inv s0" "sinv ed cf (view s0)"
  shows "inv s \<and> sinv ed cf (view s)"
proof -
  have "inv (snd q) \<and> sinv ed cf (view (snd q))" if "reaches T ed cf (t0, s0) q" for q
    using that
  proof induction
    case (reaches_call now s clk now' c r s')
    then show ?case using perform_keeps [OF assms(2) _ _ reaches_call.hyps(3)] by simp
  qed (use assms in simp)
  from this [OF assms(1)] show ?thesis by simp
qed

end

section \<open>The in-memory store\<close>

lemma sinv_newState: "sinv ed cf (mview newState)"
  by (simp add: sinv_def no_vault_def mview_def newState_def entriesOf_def headersOf_def ciphertextsOf_def rows_at_def fun_eq_iff)

lemma mem_reaches:
  "reaches memTx ed cf (t0, newState) (t, s) \<Longrightarrow> config_ok cf \<Longrightarrow> minv s \<and> sinv ed cf (mview s)"
  by (rule mem.reaches_keeps [OF _ _ minv_newState sinv_newState])

end
