(* ===== verification/Service_Nonce.thy ===== *)
theory Service_Nonce
  imports Service_Run
begin

text \<open>
  Replay protection.  The nonce of a request that was verified stays recorded until it expires,
  whether the call succeeds or fails, through every later call; so the same request is not
  accepted twice.
\<close>

section \<open>The spent field of a tracked transaction\<close>

definition keeps_spent :: "('s \<times> spentNonce option, 'e, 'a) txm \<Rightarrow> bool" where
  "keeps_spent m \<longleftrightarrow> (\<forall>t. snd (snd (m t)) = snd t)"

lemma keeps_spent_ret [intro!]: "keeps_spent (ret x)"
  by (simp add: keeps_spent_def ret_def)

lemma keeps_spent_raise [intro!]: "keeps_spent (raise e)"
  by (simp add: keeps_spent_def raise_def)

lemma keeps_spent_liftE [intro!]: "keeps_spent (liftE r)"
  by (simp add: keeps_spent_def liftE_def)

lemma keeps_spent_readT [intro!]: "keeps_spent (readT f)"
  by (simp add: keeps_spent_def readT_def)

lemma keeps_spent_rejectIf [intro!]: "keeps_spent (rejectIf c e)"
  by (simp add: keeps_spent_def rejectIf_def raise_def ret_def)

lemma keeps_spent_writeT [intro!]: "keeps_spent (writeT (innerWrite f))"
  by (auto simp: keeps_spent_def writeT_def innerWrite_def split: sum.splits)

lemma keeps_spent_bindE [intro!]: "keeps_spent m \<Longrightarrow> (\<And>x. keeps_spent (f x)) \<Longrightarrow> keeps_spent (bindE m f)"
  unfolding keeps_spent_def bindE_def by (auto split: prod.splits sum.splits) (metis snd_conv)+

lemma keeps_spent_tryE [intro!]: "keeps_spent m \<Longrightarrow> (\<And>x. keeps_spent (f x)) \<Longrightarrow> keeps_spent (tryE m f)"
  unfolding keeps_spent_def tryE_def by (auto split: prod.splits) (metis snd_conv)+

lemma keeps_spent_if [intro!]: "keeps_spent m \<Longrightarrow> keeps_spent n \<Longrightarrow> keeps_spent (if c then m else n)"
  by simp

lemma keeps_spent_sum [intro!]: "(\<And>x. keeps_spent (f x)) \<Longrightarrow> (\<And>x. keeps_spent (g x)) \<Longrightarrow> keeps_spent (case_sum f g r)"
  by (cases r) auto

lemma keeps_spent_option [intro!]: "keeps_spent m \<Longrightarrow> (\<And>x. keeps_spent (g x)) \<Longrightarrow> keeps_spent (case_option m g r)"
  by (cases r) auto

lemma keeps_spent_prod [intro!]: "(\<And>x y. keeps_spent (f x y)) \<Longrightarrow> keeps_spent (case_prod f r)"
  by (cases r) auto

lemma keeps_spent_forE [intro!]: "(\<And>x. keeps_spent (f x)) \<Longrightarrow> keeps_spent (forE xs f)"
  by (induction xs) auto

lemma keeps_spent_loadLoop: "keeps_spent (loadLoop (nonceTx T) ed v fuel l after)"
  by (induction fuel arbitrary: l after) (subst loadLoop.simps, auto)+

lemma keeps_spent_loadList [intro!]: "keeps_spent (loadList (nonceTx T) ed v)"
  unfolding loadList_def by (rule keeps_spent_loadLoop)

lemma keeps_spent_putPackages [intro!]: "keeps_spent (putPackages (nonceTx T) ed a e now expected ps)"
  by (induction ps arbitrary: expected) auto

lemma keeps_spent_evictLoop: "keeps_spent (evictLoop (nonceTx T) cf v n fuel stored)"
  by (induction fuel arbitrary: stored) (subst evictLoop.simps, auto)+

lemma keeps_spent_makeRoom [intro!]: "keeps_spent (makeRoom (nonceTx T) cf v n)"
  unfolding makeRoom_def using keeps_spent_evictLoop by auto

lemma keeps_spent_uploadPrevious [intro!]: "keeps_spent (uploadPrevious (nonceTx T) v h)"
  unfolding uploadPrevious_def by auto

lemma keeps_spent_uploadStore [intro!]: "keeps_spent (uploadStore (nonceTx T) ed cf now v prev h c)"
  unfolding uploadStore_def Let_def by auto

lemma keeps_spent_rekeyDevice [intro!]: "keeps_spent (rekeyDevice (nonceTx T) kind e self d)"
  unfolding rekeyDevice_def by auto

text \<open>
  A transaction that ends with a spent nonce has recorded it as fresh from the state it began
  in.
\<close>

definition spends_from :: "'s Tx \<Rightarrow> (nat \<Rightarrow> gotime) \<Rightarrow> 's \<Rightarrow> spentNonce option \<Rightarrow> bool" where
  "spends_from T clk s sp \<longleftrightarrow> (\<forall>n. sp = Some n \<longrightarrow>
     snNow n = clk 3 \<and> snExpires n = clk 2 + RequestNonceRetention * second \<and>
     (\<exists>s1. txRecordNonce T (snScope n) (snNonce n) (snNow n) (snExpires n) s = Inr (True, s1)))"

definition records :: "'s Tx \<Rightarrow> (nat \<Rightarrow> gotime) \<Rightarrow> ('s \<times> spentNonce option, 'e, 'a) txm \<Rightarrow> bool" where
  "records T clk fn \<longleftrightarrow> (\<forall>s. spends_from T clk s (snd (snd (fn (s, None)))))"

definition reads_only :: "('s, 'e, 'a) txm \<Rightarrow> bool" where
  "reads_only m \<longleftrightarrow> (\<forall>s. snd (m s) = s)"

lemma reads_only_simple [intro!]:
  "reads_only (ret x)" "reads_only (raise e)" "reads_only (liftE r)" "reads_only (readT f)" "reads_only (rejectIf c e)"
  by (simp_all add: reads_only_def ret_def raise_def liftE_def readT_def rejectIf_def)

lemma reads_only_bindE [intro!]: "reads_only m \<Longrightarrow> (\<And>x. reads_only (f x)) \<Longrightarrow> reads_only (bindE m f)"
  unfolding reads_only_def bindE_def by (auto split: prod.splits sum.splits) (metis snd_conv)+

lemma reads_only_tryE [intro!]: "reads_only m \<Longrightarrow> (\<And>x. reads_only (f x)) \<Longrightarrow> reads_only (tryE m f)"
  unfolding reads_only_def tryE_def by (auto split: prod.splits) (metis snd_conv)+

lemma reads_only_cases [intro!]:
  "reads_only m \<Longrightarrow> reads_only n \<Longrightarrow> reads_only (if c then m else n)"
  "(\<And>x. reads_only (f x)) \<Longrightarrow> (\<And>x. reads_only (g x)) \<Longrightarrow> reads_only (case_sum f g r)"
  "reads_only m \<Longrightarrow> (\<And>x. reads_only (h x)) \<Longrightarrow> reads_only (case_option m h q)"
  by (auto split: sum.splits option.splits)

lemma reads_only_actorFor [intro!]: "reads_only (actorFor T clk caller)"
  unfolding actorFor_def by auto

lemma spends_from_None [simp]: "spends_from T clk s None"
  by (simp add: spends_from_def)

lemma records_rest: "keeps_spent fn \<Longrightarrow> records T clk fn"
  by (simp add: keeps_spent_def records_def)

lemma records_then: "records T clk m \<Longrightarrow> (\<And>x. keeps_spent (f x)) \<Longrightarrow> records T clk (bindE m f)"
  unfolding records_def keeps_spent_def bindE_def by (auto split: prod.splits sum.splits) (metis snd_conv)+

lemma records_after: "reads_only m \<Longrightarrow> (\<And>x. records T clk (f x)) \<Longrightarrow> records T clk (bindE m f)"
  unfolding records_def reads_only_def bindE_def
  by (auto split: prod.splits sum.splits) (metis snd_conv spends_from_None)+

lemma records_try: "reads_only m \<Longrightarrow> (\<And>x. records T clk (f x)) \<Longrightarrow> records T clk (tryE m f)"
  unfolding records_def reads_only_def tryE_def by (auto split: prod.splits) (metis snd_conv)+

lemma records_cases:
  "records T clk m \<Longrightarrow> records T clk n \<Longrightarrow> records T clk (if c then m else n)"
  "(\<And>x. records T clk (f x)) \<Longrightarrow> (\<And>x. records T clk (g x)) \<Longrightarrow> records T clk (case_sum f g r)"
  by (auto split: sum.splits)

lemma records_verifyRequest: "records T clk (verifyRequest (nonceTx T) ed clk sc k caller request)"
  unfolding records_def verifyRequest_def Let_def spends_from_def
  by (auto simp: bindE_def raise_def ret_def rejectIf_def recordNonce_def nonceRecordNonce_def split: sum.splits prod.splits)

lemma records_signedActor: "records T clk (signedActor (nonceTx T) ed clk caller request)"
  unfolding signedActor_def
  by (intro records_after reads_only_actorFor records_then records_verifyRequest keeps_spent_ret)

lemmas records_handler = records_then [OF records_signedActor]

lemma records_createVault: "records T clk (createVaultTx (nonceTx T) ed clk caller request e)"
  unfolding createVaultTx_def Let_def
  by (intro records_try records_cases records_after [OF reads_only_simple(3)] records_then [OF records_verifyRequest]
      reads_only_simple records_rest [OF keeps_spent_raise]) auto

lemma records_beginPairing: "records T clk (beginPairingTx (nonceTx T) ed clk caller request offer)"
  unfolding beginPairingTx_def Let_def
  by (intro records_try records_cases records_after [OF reads_only_simple(3)] records_after [OF reads_only_simple(5)]
      records_then [OF records_verifyRequest] reads_only_simple records_rest [OF keeps_spent_raise]) auto

lemma records_handlers:
  "records T clk (answerPairingTx (nonceTx T) ed clk caller request i msg)"
  "records T clk (confirmPairingTx (nonceTx T) ed clk caller request msg)"
  "records T clk (cancelPairingTx (nonceTx T) ed clk caller request i)"
  "records T clk (approveTx (nonceTx T) ed clk caller request e p)"
  "records T clk (activateTx (nonceTx T) ed clk caller request dg)"
  "records T clk (upgradeKeyTx (nonceTx T) ed clk caller request e)"
  "records T clk (rekeyTx (nonceTx T) ed clk caller request kind e ps)"
  "records T clk (uploadTx (nonceTx T) ed cf clk caller request h c)"
  "records T clk (putCheckpointTx (nonceTx T) ed clk caller request cp)"
  "records T clk (resetTx (nonceTx T) ed clk caller request ep)"
  unfolding answerPairingTx_def confirmPairingTx_def cancelPairingTx_def approveTx_def activateTx_def upgradeKeyTx_def
    rekeyTx_def uploadTx_def putCheckpointTx_def resetTx_def Let_def
  by (rule records_handler; auto)+

lemma records_unsigned: "records T clk (maintainTx (nonceTx T) clk)" "records T clk (adminResetTx (nonceTx T) owner)"
  unfolding maintainTx_def adminResetTx_def by (rule records_rest; auto)+

lemmas records_all = records_createVault records_beginPairing records_handlers records_unsigned

section \<open>Live nonces stay recorded\<close>

lemma keeps_live_refl [simp]: "keeps_live now w w"
  by (simp add: keeps_live_def)

lemma keeps_live_trans: "keeps_live now w w1 \<Longrightarrow> keeps_live now w1 w2 \<Longrightarrow> keeps_live now w w2"
  by (simp add: keeps_live_def)

lemma keeps_live_mono: "keeps_live now w w' \<Longrightarrow> now \<le> later \<Longrightarrow> keeps_live later w w'"
  unfolding keeps_live_def by fastforce

lemma keeps_live_same: "wNonce w' = wNonce w \<Longrightarrow> keeps_live now w w'"
  by (simp add: keeps_live_def)

lemma keeps_live_purge: "now \<le> later \<Longrightarrow> keeps_live later w (purge_expired now w)"
  by (auto simp: keeps_live_def)

lemma spends_live: "spends clk sc n w w1 \<Longrightarrow> clk 3 \<le> later \<Longrightarrow> keeps_live later w w1"
  unfolding spends_def by (blast intro: keeps_live_mono)

lemma signed_live: "signed ed clk caller request a w w1 \<Longrightarrow> clk 3 \<le> later \<Longrightarrow> keeps_live later w w1"
  unfolding signed_def by (blast intro: spends_live)

lemma spends_write:
  "spends clk sc n w w1 \<Longrightarrow> clk 3 \<le> later \<Longrightarrow> wNonce w' = wNonce w1 \<Longrightarrow> keeps_live later w w'"
  by (rule keeps_live_trans [OF spends_live keeps_live_same])

lemma signed_write:
  "signed ed clk caller request a w w1 \<Longrightarrow> clk 3 \<le> later \<Longrightarrow> wNonce w' = wNonce w1 \<Longrightarrow> keeps_live later w w'"
  by (rule keeps_live_trans [OF signed_live keeps_live_same])

definition lives :: "('s \<Rightarrow> sview) \<Rightarrow> ('s \<Rightarrow> bool) \<Rightarrow> ed25519 \<Rightarrow> Config \<Rightarrow> gotime \<Rightarrow> ('s, svc_error, 'a) txm \<Rightarrow> bool" where
  "lives view ok ed cf later fn \<longleftrightarrow>
     (\<forall>s x s'. ok s \<and> sinv ed cf (view s) \<and> fn s = (Inr x, s') \<longrightarrow> keeps_live later (view s) (view s'))"

lemma livesI:
  "(\<And>s x s'. ok s \<Longrightarrow> sinv ed cf (view s) \<Longrightarrow> fn s = (Inr x, s') \<Longrightarrow> keeps_live later (view s) (view s')) \<Longrightarrow>
   lives view ok ed cf later fn"
  unfolding lives_def by blast

context sync_tx
begin

lemma createVault_lives: "clk 3 \<le> later \<Longrightarrow> lives view inv ed cf later (createVaultTx T ed clk caller request e)"
  by (rule livesI, erule createVault_ok, assumption) (erule spends_write, simp_all)

lemma beginPairing_lives:
  assumes "clk 3 \<le> later" "clk 4 \<le> later"
  shows "lives view inv ed cf later (beginPairingTx T ed clk caller request offer)"
proof (rule livesI)
  fix s x s'
  assume inv: "inv s" and run: "beginPairingTx T ed clk caller request offer s = (Inr x, s')"
  from inv run show "keeps_live later (view s) (view s')"
  proof (rule beginPairing_ok)
    fix vault w1 w2
    assume sp: "spends clk (ownerScope caller) (rqNonce request) (view s) w1"
      and wp: "withoutPrevious (vID vault) (caTokenDeviceID caller) w1 w2"
      and w: "view s' = put_pairing (offeredPairing clk vault caller offer) (purge_expired (clk 4) w2)"
    have "keeps_live later (view s) w2"
      by (rule spends_write [OF sp assms(1)]) (use wp in \<open>auto simp: withoutPrevious_def\<close>)
    from keeps_live_trans [OF this keeps_live_purge [OF assms(2)]]
    show ?thesis by (rule keeps_live_trans) (simp add: w keeps_live_same)
  qed
qed

lemma maintain_lives: "clk 0 \<le> later \<Longrightarrow> lives view inv ed cf later (maintainTx T clk)"
  by (rule livesI, drule maintain_ok, assumption) (simp add: keeps_live_purge)

lemma adminReset_lives: "lives view inv ed cf later (adminResetTx T owner)"
  by (rule livesI, erule adminReset_ok, assumption) (simp add: keeps_live_same)

lemma signed_lives:
  assumes "clk 3 \<le> later"
  shows "lives view inv ed cf later (answerPairingTx T ed clk caller request i msg)"
    "lives view inv ed cf later (confirmPairingTx T ed clk caller request msg)"
    "lives view inv ed cf later (cancelPairingTx T ed clk caller request i)"
    "lives view inv ed cf later (activateTx T ed clk caller request dg)"
    "lives view inv ed cf later (putCheckpointTx T ed clk caller request cp)"
    "lives view inv ed cf later (resetTx T ed clk caller request ep)"
  by (rule livesI, erule answerPairing_ok confirmPairing_ok cancelPairing_ok activate_ok putCheckpoint_ok reset_ok,
      assumption, erule signed_write, rule assms, simp)+

lemma rekey_view_nonces [simp]: "wNonce (rekey_view kind e a ps now w) = wNonce w"
  by (simp add: rekey_view_def Let_def)

lemma upload_view_nonces [simp]: "wNonce (upload_view ed cf clk x h c n keep w) = wNonce w"
  by (simp add: upload_view_def Let_def)

lemma list_lives:
  assumes "clk 3 \<le> later"
  shows "lives view inv ed cf later (approveTx T ed clk caller request e p)"
    "lives view inv ed cf later (upgradeKeyTx T ed clk caller request e)"
    "lives view inv ed cf later (rekeyTx T ed clk caller request kind e ps)"
    "lives view inv ed cf later (uploadTx T ed cf clk caller request h c)"
  by (rule livesI, drule sinv_lists, erule approve_ok upgradeKey_ok rekey_ok upload_ok,
      assumption, assumption, erule signed_write, rule assms, simp)+

lemmas nonce_lives =
  sync_tx.createVault_lives [OF nonce_sync_tx] sync_tx.beginPairing_lives [OF nonce_sync_tx]
  sync_tx.signed_lives [OF nonce_sync_tx] sync_tx.list_lives [OF nonce_sync_tx]
  sync_tx.maintain_lives [OF nonce_sync_tx] sync_tx.adminReset_lives [OF nonce_sync_tx]

text \<open>What a call with an error leaves behind: the state it began in, with its nonce recorded.\<close>

lemma keeperUpdate_failed:
  assumes rec: "records T clk fn" and run: "keeperUpdate T fn s = (Inl e, s')"
  shows "s' = s \<or> (\<exists>sc n. fn (s, None) = (Inl e, (fst (snd (fn (s, None))),
       Some \<lparr>snScope = sc, snNonce = n, snNow = clk 3, snExpires = clk 2 + RequestNonceRetention * second\<rparr>)) \<and>
     txRecordNonce T sc n (clk 3) (clk 2 + RequestNonceRetention * second) s = Inr (True, s'))"
proof -
  obtain r t sp where fn: "fn (s, None) = (r, (t, sp))" by (metis prod.collapse)
  have r: "r = Inl e"
    using run fn by (cases r) (auto simp: keeperUpdate_def storeUpdate_def trackNonce_def split: option.splits)
  show ?thesis
  proof (cases sp)
    case None
    with fn r run show ?thesis by (simp add: keeperUpdate_def storeUpdate_def trackNonce_def)
  next
    case (Some n)
    have "spends_from T clk s (Some n)" using rec fn Some unfolding records_def by (metis snd_conv)
    then obtain s1 where n: "snNow n = clk 3" "snExpires n = clk 2 + RequestNonceRetention * second"
      and s1: "txRecordNonce T (snScope n) (snNonce n) (snNow n) (snExpires n) s = Inr (True, s1)"
      by (auto simp: spends_from_def)
    have "s' = s1" using fn r run s1 Some
      by (simp add: keeperUpdate_def storeUpdate_def trackNonce_def respendNonce_def)
    moreover have "n = \<lparr>snScope = snScope n, snNonce = snNonce n, snNow = clk 3,
        snExpires = clk 2 + RequestNonceRetention * second\<rparr>" using n by simp
    ultimately show ?thesis using s1 n fn r Some by auto
  qed
qed

lemma keeperUpdate_live:
  assumes rec: "records T clk fn" and live: "lives (view \<circ> fst) (inv \<circ> fst) ed cf later fn" and later: "clk 3 \<le> later"
    and inv: "inv s" and si: "sinv ed cf (view s)" and run: "outcome (keeperUpdate T fn s) = (r, s')"
  shows "keeps_live later (view s) (view s')"
proof -
  obtain q where q: "keeperUpdate T fn s = (q, s')" using run by (cases "keeperUpdate T fn s") (auto simp: outcome_def)
  show ?thesis
  proof (cases q)
    case (Inl e)
    from keeperUpdate_failed [OF rec q [unfolded Inl]] show ?thesis
    proof (elim disjE exE conjE)
      fix sc n
      assume "txRecordNonce T sc n (clk 3) (clk 2 + RequestNonceRetention * second) s = Inr (True, s')"
      from RecordNonce_ok [OF inv this] have "keeps_live (clk 3) (view s) (view s')" by blast
      then show ?thesis by (rule keeps_live_mono [OF _ later])
    qed simp
  next
    case (Inr x)
    then obtain sp where "fn (s, None) = (Inr x, (s', sp))" using q by (auto simp: keeperUpdate_ok)
    then show ?thesis using live [unfolded lives_def, rule_format, of "(s, None)" x "(s', sp)"] inv si by simp
  qed
qed

lemma perform_live:
  assumes inv: "inv s" and si: "sinv ed cf (view s)" and run: "perform T ed cf clk c s = (r, s')" and t: "\<And>i. clk i \<le> later"
  shows "keeps_live later (view s) (view s')"
  using run
  apply (cases c; hypsubst; unfold perform.simps svc_defs)
  by (erule keeperUpdate_live [where clk = clk, OF _ _ t inv si, rotated 2], rule records_all, rule nonce_lives, ((rule t)+)?)+

lemma reaches_live:
  assumes "reaches T ed cf (t0, s0) (t, s)" "config_ok cf" "inv s0" "sinv ed cf (view s0)"
  shows "t0 \<le> t \<and> keeps_live t (view s0) (view s)"
proof -
  have "t0 \<le> fst q \<and> keeps_live (fst q) (view s0) (view (snd q))" if "reaches T ed cf (t0, s0) q" for q
    using that
  proof induction
    case (reaches_call now s clk now' c r s')
    have ok: "inv s" "sinv ed cf (view s)" using reaches_keeps [OF reaches_call.hyps(1) assms(2-4)] by simp_all
    have clk: "clk i \<le> now'" "now \<le> now'" for i using reaches_call.hyps(2) by (auto simp: ticks_def intro: order_trans)
    have "keeps_live now' (view s) (view s')" by (rule perform_live [OF ok reaches_call.hyps(3) clk(1)])
    moreover have "keeps_live now' (view s0) (view s)" using reaches_call.IH clk(2) by (auto intro: keeps_live_mono)
    ultimately show ?case using reaches_call.IH clk(2) by (auto intro: keeps_live_trans)
  qed simp
  from this [OF assms(1)] show ?thesis by simp
qed

end

end
