(* ===== verification/Service_Replay.thy ===== *)
theory Service_Replay
  imports Service_Nonce
begin

text \<open>
  The device calls: those that begin with \<open>signedActor\<close>.  Once such a request was verified, its
  nonce is recorded after the call, whatever the call returns, and a second request with the same
  scope, nonce and timestamp is not verified in any state reached from there.
\<close>

fun device_call :: "call \<Rightarrow> (Caller \<times> SignedRequest) option" where
  "device_call (AnswerPairing ca rq i msg) = Some (ca, rq)"
| "device_call (ConfirmPairing ca rq msg) = Some (ca, rq)"
| "device_call (CancelPairing ca rq i) = Some (ca, rq)"
| "device_call (Approve ca rq e p) = Some (ca, rq)"
| "device_call (Activate ca rq dg) = Some (ca, rq)"
| "device_call (Remove ca rq e ps) = Some (ca, rq)"
| "device_call (Rotate ca rq e ps) = Some (ca, rq)"
| "device_call (UpgradeKey ca rq e) = Some (ca, rq)"
| "device_call (Upload ca rq h c) = Some (ca, rq)"
| "device_call (PutCheckpoint ca rq cp) = Some (ca, rq)"
| "device_call (Reset ca rq ep) = Some (ca, rq)"
| "device_call _ = None"

text \<open>The request of a device call was verified: \<open>signedActor\<close> returned the actor \<open>a\<close>.\<close>

definition verified :: "'s Tx \<Rightarrow> ed25519 \<Rightarrow> (nat \<Rightarrow> gotime) \<Rightarrow> Caller \<Rightarrow> SignedRequest \<Rightarrow> 's \<Rightarrow> Actor \<Rightarrow> bool" where
  "verified T ed clk ca rq s a \<longleftrightarrow> fst (signedActor (nonceTx T) ed clk ca rq (s, None)) = Inr a"

abbreviation nonceExpiry :: "(nat \<Rightarrow> gotime) \<Rightarrow> gotime" where
  "nonceExpiry clk \<equiv> clk 2 + RequestNonceRetention * second"

section \<open>The nonce is recorded whatever the call returns\<close>

definition remembers ::
  "'s Tx \<Rightarrow> ('s \<Rightarrow> sview) \<Rightarrow> ('s \<Rightarrow> bool) \<Rightarrow> ed25519 \<Rightarrow> Config \<Rightarrow> (nat \<Rightarrow> gotime) \<Rightarrow> Caller \<Rightarrow> SignedRequest \<Rightarrow>
   ('s, svc_error, 'a) txm \<Rightarrow> bool" where
  "remembers T view ok ed cf clk ca rq fn \<longleftrightarrow>
     (\<forall>s x s'. ok s \<and> sinv ed cf (view s) \<and> fn s = (Inr x, s') \<longrightarrow>
        (\<exists>a w1. accepts T view ed clk ca rq s a w1 \<and> wNonce (view s') = wNonce w1))"

lemma remembersI:
  "(\<And>s x s'. ok s \<Longrightarrow> sinv ed cf (view s) \<Longrightarrow> fn s = (Inr x, s') \<Longrightarrow>
      \<exists>a w1. accepts T view ed clk ca rq s a w1 \<and> wNonce (view s') = wNonce w1) \<Longrightarrow>
   remembers T view ok ed cf clk ca rq fn"
  unfolding remembers_def by blast

definition signed_then ::
  "'s Tx \<Rightarrow> ed25519 \<Rightarrow> (nat \<Rightarrow> gotime) \<Rightarrow> Caller \<Rightarrow> SignedRequest \<Rightarrow> ('s \<times> spentNonce option, svc_error, 'a) txm \<Rightarrow> bool" where
  "signed_then T ed clk ca rq fn \<longleftrightarrow>
     (\<exists>rest. fn = bindE (signedActor (nonceTx T) ed clk ca rq) rest \<and> (\<forall>a. keeps_spent (rest a)))"

lemma device_signed_then:
  "signed_then T ed clk ca rq (answerPairingTx (nonceTx T) ed clk ca rq i msg)"
  "signed_then T ed clk ca rq (confirmPairingTx (nonceTx T) ed clk ca rq msg)"
  "signed_then T ed clk ca rq (cancelPairingTx (nonceTx T) ed clk ca rq i)"
  "signed_then T ed clk ca rq (approveTx (nonceTx T) ed clk ca rq e p)"
  "signed_then T ed clk ca rq (activateTx (nonceTx T) ed clk ca rq dg)"
  "signed_then T ed clk ca rq (upgradeKeyTx (nonceTx T) ed clk ca rq e)"
  "signed_then T ed clk ca rq (rekeyTx (nonceTx T) ed clk ca rq kind e ps)"
  "signed_then T ed clk ca rq (uploadTx (nonceTx T) ed cf clk ca rq h c)"
  "signed_then T ed clk ca rq (putCheckpointTx (nonceTx T) ed clk ca rq cp)"
  "signed_then T ed clk ca rq (resetTx (nonceTx T) ed clk ca rq ep)"
  unfolding signed_then_def answerPairingTx_def confirmPairingTx_def cancelPairingTx_def approveTx_def
    activateTx_def upgradeKeyTx_def rekeyTx_def uploadTx_def putCheckpointTx_def resetTx_def Let_def
  by (rule exI, rule conjI, rule refl, auto)+

context sync_tx
begin

lemma device_remembers:
  "remembers T view inv ed cf clk ca rq (answerPairingTx T ed clk ca rq i msg)"
  "remembers T view inv ed cf clk ca rq (confirmPairingTx T ed clk ca rq msg)"
  "remembers T view inv ed cf clk ca rq (cancelPairingTx T ed clk ca rq i)"
  "remembers T view inv ed cf clk ca rq (activateTx T ed clk ca rq dg)"
  "remembers T view inv ed cf clk ca rq (putCheckpointTx T ed clk ca rq cp)"
  "remembers T view inv ed cf clk ca rq (resetTx T ed clk ca rq ep)"
  by (rule remembersI, erule answerPairing_ok confirmPairing_ok cancelPairing_ok activate_ok putCheckpoint_ok reset_ok,
      assumption, intro exI conjI, assumption, simp)+

lemma list_remembers:
  "remembers T view inv ed cf clk ca rq (approveTx T ed clk ca rq e p)"
  "remembers T view inv ed cf clk ca rq (upgradeKeyTx T ed clk ca rq e)"
  "remembers T view inv ed cf clk ca rq (rekeyTx T ed clk ca rq kind e ps)"
  "remembers T view inv ed cf clk ca rq (uploadTx T ed cf clk ca rq h c)"
  by (rule remembersI, drule sinv_lists, erule approve_ok upgradeKey_ok rekey_ok upload_ok,
      assumption, assumption, intro exI conjI, assumption, simp)+

lemmas nonce_remembers =
  sync_tx.device_remembers [OF nonce_sync_tx] sync_tx.list_remembers [OF nonce_sync_tx]

lemma signedActor_records:
  assumes "signedActor (nonceTx T) ed clk ca rq (s, None) = (Inr a, t)"
  shows "snd t = Some \<lparr>snScope = actorScope a, snNonce = rqNonce rq, snNow = clk 3, snExpires = nonceExpiry clk\<rparr>"
    "txRecordNonce T (actorScope a) (rqNonce rq) (clk 3) (nonceExpiry clk) s = Inr (True, fst t)"
proof -
  have "snd (actorFor (nonceTx T) clk ca (s, None)) = (s, None)"
    using reads_only_actorFor [of "nonceTx T" clk ca, unfolded reads_only_def, rule_format, of "(s, None)"] .
  then have *: "verifyRequest (nonceTx T) ed clk (actorScope a) (dSigningKey (aDevice a)) ca rq (s, None) = (Inr (), t)"
    using assms by (auto simp: signedActor_def txm_simps)
  then obtain t' where "recordNonce (nonceTx T) (actorScope a) (rqNonce rq) (clk 3) (nonceExpiry clk) (s, None) = (Inr True, t)"
    by (auto simp: verifyRequest_def txm_simps Let_def split: if_splits)
  then have "nonceRecordNonce T (actorScope a) (rqNonce rq) (clk 3) (nonceExpiry clk) (s, None) = Inr (True, t)"
    by (auto simp: recordNonce_def split: sum.splits prod.splits)
  then show "snd t = Some \<lparr>snScope = actorScope a, snNonce = rqNonce rq, snNow = clk 3, snExpires = nonceExpiry clk\<rparr>"
    "txRecordNonce T (actorScope a) (rqNonce rq) (clk 3) (nonceExpiry clk) s = Inr (True, fst t)"
    unfolding nonceRecordNonce_ok by simp_all
qed

lemma handler_recorded:
  assumes inv: "inv s" and si: "sinv ed cf (view s)" and ver: "verified T ed clk ca rq s a"
    and fn: "signed_then T ed clk ca rq fn"
    and mem: "remembers (nonceTx T) (view \<circ> fst) (inv \<circ> fst) ed cf clk ca rq fn"
    and run: "outcome (keeperUpdate T fn s) = (r, s')"
  shows "wNonce (view s') (actorScope a) (rqNonce rq) = Some (nonceExpiry clk)"
proof -
  obtain t where t: "signedActor (nonceTx T) ed clk ca rq (s, None) = (Inr a, t)"
    using ver by (cases "signedActor (nonceTx T) ed clk ca rq (s, None)") (auto simp: verified_def)
  note rec = signedActor_records [OF t]
  have new: "wNonce (view (fst t)) (actorScope a) (rqNonce rq) = Some (nonceExpiry clk)"
    using RecordNonce_ok [OF inv rec(2)] by simp
  obtain q where q: "keeperUpdate T fn s = (q, s')" using run by (cases "keeperUpdate T fn s") (auto simp: outcome_def)
  show ?thesis
  proof (cases q)
    case (Inl e)
    obtain rest where fn': "fn = bindE (signedActor (nonceTx T) ed clk ca rq) rest" and rest: "\<And>a. keeps_spent (rest a)"
      using fn by (auto simp: signed_then_def)
    obtain q' t' where q': "rest a t = (q', t')" by (cases "rest a t")
    then have run': "fn (s, None) = (q', t')" using t by (simp add: fn' bindE_def)
    have sp: "snd t' = snd t" using rest [of a, unfolded keeps_spent_def, rule_format, of t] q' by simp
    have "s' = fst t"
      using q Inl run' sp rec
      by (cases q'; cases t') (auto simp: keeperUpdate_def storeUpdate_def trackNonce_def respendNonce_def)
    then show ?thesis using new by simp
  next
    case (Inr x)
    then obtain sp where "fn (s, None) = (Inr x, (s', sp))" using q by (auto simp: keeperUpdate_ok)
    with mem [unfolded remembers_def, rule_format, of "(s, None)" x "(s', sp)"] inv si
    obtain b w1 where b: "accepts (nonceTx T) (view \<circ> fst) ed clk ca rq (s, None) b w1" "wNonce (view s') = wNonce w1"
      by auto
    then have "w1 = view (fst t)" using t by (auto simp: accepts_def)
    then show ?thesis using b(2) new by simp
  qed
qed

lemma perform_recorded:
  assumes inv: "inv s" and si: "sinv ed cf (view s)" and c: "device_call c = Some (ca, rq)"
    and ver: "verified T ed clk ca rq s a" and run: "perform T ed cf clk c s = (r, s')"
  shows "wNonce (view s') (actorScope a) (rqNonce rq) = Some (nonceExpiry clk)"
  using run c
  apply (cases c; simp only: device_call.simps option.inject prod.inject option.distinct; elim conjE; hypsubst;
      unfold perform.simps svc_defs)
  by (erule handler_recorded [OF inv si ver, rotated -1], rule device_signed_then, rule nonce_remembers)+

section \<open>No request is verified twice\<close>

lemma verified_fresh:
  assumes inv: "inv s" and ver: "verified T ed clk ca rq s a" and live: "wNonce (view s) (actorScope a) (rqNonce rq) = Some u"
  shows "\<not> clk 3 < u"
proof -
  obtain t where t: "signedActor (nonceTx T) ed clk ca rq (s, None) = (Inr a, t)"
    using ver by (cases "signedActor (nonceTx T) ed clk ca rq (s, None)") (auto simp: verified_def)
  from RecordNonce_ok [OF inv signedActor_records(2) [OF t]] live show ?thesis by simp
qed

lemma verified_skew:
  assumes inv: "inv s" and ver: "verified T ed clk ca rq s a"
  shows "withinSkew (rqTimestamp rq) (unix (clk 1))"
proof -
  obtain t where t: "signedActor (nonceTx T) ed clk ca rq (s, None) = (Inr a, t)"
    using ver by (cases "signedActor (nonceTx T) ed clk ca rq (s, None)") (auto simp: verified_def)
  have "(inv \<circ> fst) (s, None)" using inv by simp
  from sync_tx.signedActor_signed(2) [OF nonce_sync_tx this t]
  have "isOk (requestVerify ed (signedBy ca rq) (dSigningKey (aDevice a)) (rqSignature rq) (unix (clk 1)))"
    by (simp add: signed_def)
  then obtain u where "requestVerify ed (signedBy ca rq) (dSigningKey (aDevice a)) (rqSignature rq) (unix (clk 1)) = Inr u"
    by (auto simp: isOk_def split: sum.splits)
  from requestVerifyD(1) [OF this] show ?thesis by (simp add: signedBy_def)
qed

end

lemma unat_unix:
  assumes "0 \<le> t" "t < 2 ^ 63 * second"
  shows "int (unat (unix t)) = t div second"
proof -
  have sec: "(0 :: int) < second" by (simp add: second_def)
  have "0 \<le> t div second" using assms(1) sec by (simp add: pos_imp_zdiv_nonneg_iff)
  moreover have "t div second < 2 ^ 63" using assms(2) unfolding second_def by linarith
  ultimately show ?thesis by (simp add: unix_def goUnix_def unsigned_of_int take_bit_int_eq_self)
qed

lemma skew_window:
  assumes "withinSkew ts (unix a)" "withinSkew ts (unix b)" "0 \<le> a" "0 \<le> b" "a < 2 ^ 63 * second" "b < 2 ^ 63 * second"
  shows "b < a + 601 * second"
proof -
  have "unat (unix b) \<le> unat (unix a) + 600"
    using assms(1,2) unfolding withinSkew_iff by linarith
  then have "int (unat (unix b)) \<le> int (unat (unix a)) + 600" by linarith
  then have "b div second \<le> a div second + 600"
    using unat_unix [of a] unat_unix [of b] assms(3-6) by simp
  moreover have "b < (b div second + 1) * second" "a div second * second \<le> a"
    by (simp_all add: second_def)
  moreover have "(b div second + 1) * second \<le> (a div second + 601) * second"
    using calculation(1) by (simp add: second_def)
  ultimately show ?thesis by (simp add: algebra_simps)
qed

context sync_tx
begin

lemma no_replay:
  assumes cf: "config_ok cf" and inv: "inv s" and si: "sinv ed cf (view s)"
    and c: "device_call c = Some (ca, rq)" and ver: "verified T ed clk ca rq s a"
    and run: "perform T ed cf clk c s = (r, s1)" and t0: "0 \<le> t0" "ticks t0 clk t1"
    and later: "reaches T ed cf (t1, s1) (t2, s2)" "ticks t2 clk' t3" "t3 < 2 ^ 63 * second"
    and prompt: "clk' 3 < clk' 1 + 59 * second"
    and ver': "verified T ed clk' ca' rq' s2 a'"
    and same: "actorScope a' = actorScope a" "rqNonce rq' = rqNonce rq" "rqTimestamp rq' = rqTimestamp rq"
  shows False
proof -
  have ok1: "inv s1" "sinv ed cf (view s1)" using perform_keeps [OF cf inv si run] by simp_all
  have ok2: "inv s2" using reaches_keeps [OF later(1) cf ok1] by simp
  have live: "t1 \<le> t2" "keeps_live t2 (view s1) (view s2)" using reaches_live [OF later(1) cf ok1] by simp_all
  have mono: "mono clk" "mono clk'" and b: "t0 \<le> clk 0" "clk 1 \<le> t1" "t2 \<le> clk' 0" "clk' 1 \<le> t3"
    using t0(2) later(2) by (simp_all add: ticks_def)
  have m: "clk 0 \<le> clk 1" "clk 1 \<le> clk 2" "clk' 0 \<le> clk' 1" "clk' 0 \<le> clk' 3" using mono by (simp_all add: monoD)
  have "clk' 1 < clk 1 + 601 * second"
  proof (rule skew_window)
    show "withinSkew (rqTimestamp rq) (unix (clk 1))" by (rule verified_skew [OF inv ver])
    show "withinSkew (rqTimestamp rq) (unix (clk' 1))" using verified_skew [OF ok2 ver'] by (simp only: same)
  qed (use t0(1) b m live(1) later(3) in linarith)+
  then have "clk' 3 < nonceExpiry clk" using prompt m by (simp add: RequestNonceRetention_def second_def)
  moreover have "wNonce (view s2) (actorScope a) (rqNonce rq) = Some (nonceExpiry clk)"
  proof -
    have "t2 < nonceExpiry clk" using calculation m b by linarith
    then show ?thesis
      using live(2) perform_recorded [OF inv si c ver run] unfolding keeps_live_def by blast
  qed
  ultimately show False using verified_fresh [OF ok2 ver'] unfolding same by blast
qed

end

end
