(* ===== verification/Service_Reads.thy ===== *)
theory Service_Reads
  imports Service_Replay
begin

text \<open>
  A storage without failures of its own: reads fail only because a row is missing.  The in-memory
  store is one.  On it the calls that only read are functions of the tables, which gives what a
  device gets back after an upload and what a removed device gets.
\<close>

locale reliable_tx = sync_tx T view inv for T :: "'s Tx" and view :: "'s \<Rightarrow> sview" and inv :: "'s \<Rightarrow> bool" +
  assumes VaultByOwner_only: "txVaultByOwner T own s = Inl e \<Longrightarrow> e = ErrNotFound"
    and DeviceByToken_only: "txDeviceByToken T v tok s = Inl e \<Longrightarrow> e = ErrNotFound"
    and PairingByToken_only: "txPairingByToken T v tok s = Inl e \<Longrightarrow> e = ErrNotFound"
    and KeyPackage_only: "txKeyPackage T v i s = Inl e \<Longrightarrow> e = ErrNotFound"
    and Header_only: "txHeader T v r s = Inl e \<Longrightarrow> e = ErrNotFound"
    and Ciphertext_only: "txCiphertext T v r s = Inl e \<Longrightarrow> e = ErrNotFound"
begin

lemma vault_read: "inv s \<Longrightarrow> wVault (view s) v = Some x \<Longrightarrow> txVaultByOwner T (vOwnerKey x) s = Inr x"
proof -
  assume inv: "inv s" and x: "wVault (view s) v = Some x"
  show ?thesis
  proof (cases "txVaultByOwner T (vOwnerKey x) s")
    case (Inl e)
    from VaultByOwner_missing [OF inv Inl [unfolded VaultByOwner_only [OF Inl]] x] show ?thesis by simp
  next
    case (Inr y)
    from VaultByOwner_ok [OF inv Inr] have y: "wVault (view s) (vID y) = Some y" "vOwnerKey y = vOwnerKey x" by simp_all
    from vault_owner [OF inv y(1) x y(2)] x y(1) Inr show ?thesis by simp
  qed
qed

lemma token_read:
  assumes inv: "inv s" and d: "wDevice (view s) v i = Some d" "dState d \<noteq> DeviceRevoked"
  shows "txDeviceByToken T v (dTokenDeviceID d) s = Inr d"
proof -
  have v: "opaqueID v" using device_key [OF inv d(1)] by simp
  show ?thesis
  proof (cases "txDeviceByToken T v (dTokenDeviceID d) s")
    case (Inl e)
    from DeviceByToken_missing [OF inv v Inl [unfolded DeviceByToken_only [OF Inl]] d(1)] show ?thesis by simp
  next
    case (Inr b)
    note b = DeviceByToken_ok [OF inv v Inr]
    then have live: "dState b \<noteq> DeviceRevoked" using d by blast
    from b have row: "wDevice (view s) v (dDeviceID b) = Some b" "dTokenDeviceID b = dTokenDeviceID d" by simp_all
    from device_token [OF inv row(1) d(1) row(2) live d(2)] row(1) d(1) Inr show ?thesis by simp
  qed
qed

lemma header_read: "inv s \<Longrightarrow> wHeader (view s) v r = Some h \<Longrightarrow> txHeader T v r s = Inr h"
  using Header_ok [of s v r] Header_missing [of s v r] Header_only [of v r s] by (cases "txHeader T v r s") fastforce+

lemma cipher_read: "inv s \<Longrightarrow> wCipher (view s) v r = Some c \<Longrightarrow> txCiphertext T v r s = Inr c"
  using Ciphertext_ok [of s v r] Ciphertext_missing [of s v r] Ciphertext_only [of v r s]
  by (cases "txCiphertext T v r s") fastforce+

lemma package_read: "inv s \<Longrightarrow> opaqueID v \<Longrightarrow> wPackage (view s) v i = Some p \<Longrightarrow> txKeyPackage T v i s = Inr p"
  using KeyPackage_ok [of s v i] KeyPackage_missing [of s v i] KeyPackage_only [of v i s]
  by (cases "txKeyPackage T v i s") fastforce+

lemma actor_read:
  assumes "inv s" "\<not> callerMissing ca" "wVault (view s) v = Some x" "vOwnerKey x = caOwnerKey ca"
    and "wDevice (view s) v i = Some d" "dTokenDeviceID d = caTokenDeviceID ca" "dState d \<noteq> DeviceRevoked"
  shows "actorFor T clk ca s = (Inr \<lparr>aVault = x, aDevice = d, aPairing = None\<rparr>, s)"
proof -
  have "txVaultByOwner T (caOwnerKey ca) s = Inr x" using vault_read [OF assms(1,3)] assms(4) by simp
  moreover have "txDeviceByToken T (vID x) (caTokenDeviceID ca) s = Inr d"
    using token_read [OF assms(1,5,7)] assms(6) vault_key [OF assms(1,3)] by simp
  ultimately show ?thesis using assms(2,7) by (simp add: actorFor_def tryE_def readT_def ret_def)
qed

lemma snapshot_read:
  assumes "actorFor T clk ca s = (Inr a, s)" "requireApproved a = Inr ()" "vCurrentRevision (aVault a) \<noteq> 0" "inv s"
    and "wHeader (view s) (vID (aVault a)) (vCurrentRevision (aVault a)) = Some h"
    and "wCipher (view s) (vID (aVault a)) (vCurrentRevision (aVault a)) = Some c"
  shows "snapshotTx T clk ca s = (Inr \<lparr>snapHeader = h, snapCiphertext = c, snapVault = aVault a\<rparr>, s)"
  using assms header_read [OF assms(4,5)] cipher_read [OF assms(4,6)]
  by (simp add: snapshotTx_def txm_simps)

text \<open>A caller none of whose devices is live and who is not pairing is refused.\<close>

lemma revoked_read:
  assumes inv: "inv s" and x: "wVault (view s) v = Some x" "vOwnerKey x = caOwnerKey ca"
    and revoked: "\<And>i d. wDevice (view s) v i = Some d \<Longrightarrow> dTokenDeviceID d = caTokenDeviceID ca \<Longrightarrow> dState d = DeviceRevoked"
    and no_pairing: "\<And>i g. wPairing (view s) v i = Some g \<Longrightarrow> gTokenDeviceID g \<noteq> caTokenDeviceID ca"
  shows "actorFor T clk ca s = (Inl ErrForbidden, s) \<or>
    (\<exists>a. actorFor T clk ca s = (Inr a, s) \<and> aVault a = x \<and> aPairing a = None \<and> dState (aDevice a) = DeviceRevoked)"
proof (cases "callerMissing ca")
  case True
  then show ?thesis by (simp add: actorFor_def raise_def)
next
  case False
  have v: "vID x = v" "opaqueID v" using vault_key [OF inv x(1)] by simp_all
  have vault: "txVaultByOwner T (caOwnerKey ca) s = Inr x" using vault_read [OF inv x(1)] x(2) by simp
  obtain e where pairing: "txPairingByToken T v (caTokenDeviceID ca) s = Inl e"
    using PairingByToken_ok [OF inv v(2), of "caTokenDeviceID ca"] no_pairing
    by (cases "txPairingByToken T v (caTokenDeviceID ca) s") blast+
  note pairing = pairing [unfolded PairingByToken_only [OF pairing]]
  show ?thesis
  proof (cases "txDeviceByToken T v (caTokenDeviceID ca) s")
    case (Inl e)
    with DeviceByToken_only [OF Inl] vault pairing False v(1) show ?thesis
      by (simp add: actorFor_def tryE_def readT_def raise_def)
  next
    case (Inr d)
    from DeviceByToken_ok [OF inv v(2) Inr] revoked have "dState d = DeviceRevoked" by blast
    with Inr vault pairing False v(1) show ?thesis by (simp add: actorFor_def tryE_def readT_def ret_def)
  qed
qed

end

interpretation memr: reliable_tx memTx mview minv
  by unfold_locales
    (auto simp: memTx_def memVaultByOwner_def memDeviceByToken_def memPairingByToken_def memKeyPackage_def memHeader_def
      memCiphertext_def found_def Let_def split: option.splits if_splits)

end
