(* ===== verification/Service_Effects.thy ===== *)
theory Service_Effects
  imports Service_Reads
begin

text \<open>
  What the calls of the service do to the stored vaults, stated for whole calls: the
  transaction functions of the theories \<open>Service_Spec\<close> to \<open>Service_Spec3\<close> run under the
  nonce keeper.
\<close>

lemma same_vault_refl [simp]: "same_vault w w v"
  by (simp add: same_vault_def)

lemma signed_same_vault: "signed ed clk ca rq a w w1 \<Longrightarrow> same_vault w w1 v"
  by (simp add: same_vault_def)

lemma requireActivatedD:
  "requireActivated a = Inr () \<Longrightarrow> aPairing a = None \<and> dState (aDevice a) = DeviceApproved \<and>
     dActivatedEpoch (aDevice a) = vEpoch (aVault a)"
  by (simp add: requireActivated_ok)

text \<open>The caller is an approved device of the vault that holds its current key.\<close>

definition acting_device :: "sview \<Rightarrow> Caller \<Rightarrow> string \<Rightarrow> string \<Rightarrow> Vault \<Rightarrow> Device \<Rightarrow> bool" where
  "acting_device w ca v i x d \<longleftrightarrow> wVault w v = Some x \<and> vOwnerKey x = caOwnerKey ca \<and> wDevice w v i = Some d \<and>
     dTokenDeviceID d = caTokenDeviceID ca \<and> dState d = DeviceApproved \<and> dActivatedEpoch d = vEpoch x"

lemma acting_deviceI:
  assumes "signed ed clk ca rq a w w1" "requireActivated a = Inr ()"
  shows "acting_device w ca (vID (aVault a)) (dDeviceID (aDevice a)) (aVault a) (aDevice a)"
  using signed_vault [OF assms(1)] signed_device [OF assms(1)] requireActivatedD [OF assms(2)]
  by (simp add: acting_device_def)

context sync_tx
begin

lemma svcUpload_ok:
  assumes inv: "inv s" and si: "sinv ed cf (view s)" and cf: "config_ok cf"
    and run: "svcUpload T ed cf clk ca rq h c s = (Inr acc, s')"
  obtains x d where "inv s'" "acting_device (view s) ca (hVaultID h) (hDeviceID h) x d"
    "vCurrentRevision x \<noteq> -1" "hRevision h = vCurrentRevision x + 1" "vID x = hVaultID h"
    "acVault acc = x\<lparr>vCurrentRevision := hRevision h, vUpdatedAt := clk 4\<rparr>" "shHeader (acHeader acc) = h"
    "wVault (view s') (hVaultID h) = Some (acVault acc)"
    "wHeader (view s') (hVaultID h) (hRevision h) = Some (acHeader acc)"
    "wCipher (view s') (hVaultID h) (hRevision h) = Some c"
    "wDevice (view s') = wDevice (view s)" "wEntries (view s') = wEntries (view s)"
    "\<And>u. u \<noteq> hVaultID h \<Longrightarrow> same_vault (view s) (view s') u"
proof -
  obtain sp where "uploadTx (nonceTx T) ed cf clk ca rq h c (s, None) = (Inr acc, (s', sp))"
    using run by (auto simp: svcUpload_def keeperUpdate_ok)
  then show ?thesis
  proof (rule sync_tx.upload_ok [OF nonce_sync_tx, rotated 2])
    show "(inv \<circ> fst) (s, None :: spentNonce option)" using inv by simp
    show "lists_verify ed ((view \<circ> fst) (s, None :: spentNonce option))" using sinv_lists [OF si] by simp
    fix a w1 l prev k
    assume *: "(inv \<circ> fst) (s', sp)" "signed ed clk ca rq a ((view \<circ> fst) (s, None :: spentNonce option)) w1" "header_for a h c"
      "(view \<circ> fst) (s', sp) = upload_view ed cf clk (aVault a) h c (if raises prev h then hRevision h else k) (keepFrom cf h) w1"
      "acc = \<lparr>acHeader = uploadHeader ed cf clk (aVault a) h,
         acVault = (aVault a)\<lparr>vCurrentRevision := hRevision h, vUpdatedAt := clk 4\<rparr>,
         acReceipt = shReceipt (uploadHeader ed cf clk (aVault a) h)\<rparr>"
    have sg: "signed ed clk ca rq a (view s) w1" using *(2) by simp
    have hf: "vID (aVault a) = hVaultID h" "dDeviceID (aDevice a) = hDeviceID h" "requireActivated a = Inr ()"
      "vCurrentRevision (aVault a) \<noteq> -1" "hRevision h = vCurrentRevision (aVault a) + 1"
      using *(3) by (auto simp: header_for_def checkedNext_eq)
    have w: "view s' = upload_view ed cf clk (aVault a) h c (if raises prev h then hRevision h else k) (keepFrom cf h) w1"
      using *(4) by simp
    have keep: "\<not> hRevision h < keepFrom cf h" using keepFrom_le [OF cf, of h] by simp
    show ?thesis
    proof (rule that [of "aVault a" "aDevice a"])
      show "acting_device (view s) ca (hVaultID h) (hDeviceID h) (aVault a) (aDevice a)"
        using acting_deviceI [OF sg hf(3)] by (simp only: hf)
      show "wHeader (view s') (hVaultID h) (hRevision h) = Some (acHeader acc)"
        using keep by (simp add: w upload_view_def Let_def *(5) hf(1) from_revision_def)
      show "same_vault (view s) (view s') u" if "u \<noteq> hVaultID h" for u
        using that sg by (simp add: w upload_view_def Let_def same_vault_def hf(1))
    qed (use *(1,5) hf sg in \<open>simp_all add: w upload_view_def Let_def uploadHeader_def\<close>)
  qed
qed

lemma svcRekey_ok:
  assumes inv: "inv s" and si: "sinv ed cf (view s)" and run: "rekey T ed clk ca rq kind e ps s = (Inr u, s')"
  obtains a l l' where "inv s'" "acting_device (view s) ca (vID (aVault a)) (dDeviceID (aDevice a)) (aVault a) (aDevice a)"
    "entry_by a kind e" "VerifyDeviceList ed (wEntries (view s) (vID (aVault a))) = Inr l" "Extend ed l e = Inr l'"
    "distinct (map pRecipientDeviceID ps)"
    "pRecipientDeviceID ` set ps = mDeviceID ` set (Current l') - {dDeviceID (aDevice a)}"
    "\<forall>p \<in> set ps. package_ok ed a e (eEpochAfter e) p"
    "view s' = (rekey_view kind e a ps (clk 4) (view s))\<lparr>wNonce := wNonce (view s')\<rparr>"
proof -
  obtain sp where "rekeyTx (nonceTx T) ed clk ca rq kind e ps (s, None) = (Inr u, (s', sp))"
    using run by (auto simp: rekey_def keeperUpdate_ok)
  then show ?thesis
  proof (rule sync_tx.rekey_ok [OF nonce_sync_tx, rotated 2])
    show "(inv \<circ> fst) (s, None :: spentNonce option)" using inv by simp
    show "lists_verify ed ((view \<circ> fst) (s, None :: spentNonce option))" using sinv_lists [OF si] by simp
    fix a w1 l l'
    assume *: "(inv \<circ> fst) (s', sp)" "signed ed clk ca rq a ((view \<circ> fst) (s, None :: spentNonce option)) w1" "entry_by a kind e"
      "VerifyDeviceList ed (wEntries ((view \<circ> fst) (s, None :: spentNonce option)) (vID (aVault a))) = Inr l" "Extend ed l e = Inr l'"
      "distinct (map pRecipientDeviceID ps)"
      "pRecipientDeviceID ` set ps = mDeviceID ` set (Current l') - {dDeviceID (aDevice a)}"
      "\<forall>p \<in> set ps. package_ok ed a e (eEpochAfter e) p" "(view \<circ> fst) (s', sp) = rekey_view kind e a ps (clk 4) w1"
    have sg: "signed ed clk ca rq a (view s) w1" using *(2) by simp
    have act: "requireActivated a = Inr ()" using *(3) by (simp add: entry_by_def)
    show ?thesis
    proof (rule that [OF _ acting_deviceI [OF sg act] *(3) _ *(5-8)])
      show "view s' = (rekey_view kind e a ps (clk 4) (view s))\<lparr>wNonce := wNonce (view s')\<rparr>"
        using *(9) sg by (simp add: rekey_view_def Let_def)
    qed (use *(1,4) in simp_all)
  qed
qed

lemma svcApprove_ok:
  assumes inv: "inv s" and si: "sinv ed cf (view s)" and run: "svcApprove T ed clk ca rq e p s = (Inr u, s')"
  obtains x d g l l' where "inv s'" "acting_device (view s) ca (eVaultID e) (eSignerDeviceID e) x d"
    "eKind e = EntryAdd" "wPairing (view s) (eVaultID e) (eSubjectDeviceID e) = Some g" "gState g = PairingConfirmed"
    "clk 4 < gExpiresAt g" "gSigningKey g = eSubjectSigningKey e" "gPackageKey g = eSubjectPackageKey e"
    "VerifyDeviceList ed (wEntries (view s) (eVaultID e)) = Inr l" "Extend ed l e = Inr l'"
    "wDevice (view s') (eVaultID e) (eSubjectDeviceID e) = Some (approvedDevice clk e g)"
    "wEntries (view s') (eVaultID e) = wEntries (view s) (eVaultID e) @ [e]"
    "wPairing (view s') (eVaultID e) (eSubjectDeviceID e) = None"
    "wPackage (view s') (eVaultID e) (eSubjectDeviceID e) = Some \<lparr>kPackage = p, kCreatedAt = clk 5\<rparr>"
    "packageVerify ed p (dSigningKey d) = Inr ()"
proof -
  obtain sp where "approveTx (nonceTx T) ed clk ca rq e p (s, None) = (Inr u, (s', sp))"
    using run by (auto simp: svcApprove_def keeperUpdate_ok)
  then show ?thesis
  proof (rule sync_tx.approve_ok [OF nonce_sync_tx, rotated 2])
    show "(inv \<circ> fst) (s, None :: spentNonce option)" using inv by simp
    show "lists_verify ed ((view \<circ> fst) (s, None :: spentNonce option))" using sinv_lists [OF si] by simp
    fix a w1 l l' g
    assume *: "(inv \<circ> fst) (s', sp)" "signed ed clk ca rq a ((view \<circ> fst) (s, None :: spentNonce option)) w1" "entry_by a EntryAdd e"
      "wPairing ((view \<circ> fst) (s, None :: spentNonce option)) (vID (aVault a)) (eSubjectDeviceID e) = Some g"
      "gState g = PairingConfirmed" "clk 4 < gExpiresAt g"
      "gSigningKey g = eSubjectSigningKey e" "gPackageKey g = eSubjectPackageKey e"
      "VerifyDeviceList ed (wEntries ((view \<circ> fst) (s, None :: spentNonce option)) (vID (aVault a))) = Inr l" "Extend ed l e = Inr l'"
      "package_ok ed a e (vEpoch (aVault a)) p" "pRecipientDeviceID p = eSubjectDeviceID e"
      "(view \<circ> fst) (s', sp) = put_vault ((aVault a)\<lparr>vHeadIndex := eIndex e, vUpdatedAt := clk 5\<rparr>)
       (drop_pairing (vID (aVault a)) (eSubjectDeviceID e)
       (put_package \<lparr>kPackage = p, kCreatedAt = clk 5\<rparr>
       (put_device (approvedDevice clk e g) (add_entry e w1))))"
    have sg: "signed ed clk ca rq a (view s) w1" using *(2) by simp
    have en: "requireActivated a = Inr ()" "eKind e = EntryAdd" "vID (aVault a) = eVaultID e"
      "dDeviceID (aDevice a) = eSignerDeviceID e" using *(3) by (simp_all add: entry_by_def)
    show ?thesis
      by (rule that [of "aVault a" "aDevice a" g l l'])
        (use * en acting_deviceI [OF sg en(1)] sg in \<open>simp_all add: package_ok_def approvedDevice_def\<close>)
  qed
qed

lemma svcPutCheckpoint_ok:
  assumes inv: "inv s" and run: "svcPutCheckpoint T ed clk ca rq c s = (Inr sc, s')"
  obtains x d where "scCheckpoint sc = c" "wCheckpoint (view s') (cVaultID c) (cDeviceID c) = Some sc"
    "acting_device (view s) ca (cVaultID c) (cDeviceID c) x d" "checkpointVerify ed c (dSigningKey d) = Inr ()"
    "\<And>p. wCheckpoint (view s) (cVaultID c) (cDeviceID c) = Some p \<Longrightarrow>
       cObservedAt (scCheckpoint p) < cObservedAt c \<and> cDeviceListIndex (scCheckpoint p) \<le> cDeviceListIndex c \<and>
       cHeaderRevision (scCheckpoint p) \<le> cHeaderRevision c"
proof -
  obtain sp where "putCheckpointTx (nonceTx T) ed clk ca rq c (s, None) = (Inr sc, (s', sp))"
    using run by (auto simp: svcPutCheckpoint_def keeperUpdate_ok)
  then show ?thesis
  proof (rule sync_tx.putCheckpoint_ok [OF nonce_sync_tx, rotated 1])
    show "(inv \<circ> fst) (s, None :: spentNonce option)" using inv by simp
    fix a w1
    assume *: "signed ed clk ca rq a ((view \<circ> fst) (s, None :: spentNonce option)) w1" "requireActivated a = Inr ()"
      "cVaultID c = vID (aVault a)" "cDeviceID c = dDeviceID (aDevice a)" "checkpointVerify ed c (dSigningKey (aDevice a)) = Inr ()"
      "\<And>p. wCheckpoint ((view \<circ> fst) (s, None :: spentNonce option)) (vID (aVault a)) (dDeviceID (aDevice a)) = Some p \<Longrightarrow>
         cObservedAt (scCheckpoint p) < cObservedAt c \<and> cDeviceListIndex (scCheckpoint p) \<le> cDeviceListIndex c \<and>
         cHeaderRevision (scCheckpoint p) \<le> cHeaderRevision c"
      "sc = \<lparr>scCheckpoint = c, scAcceptedAt = clk 5\<rparr>" "(view \<circ> fst) (s', sp) = put_checkpoint sc w1"
    have sg: "signed ed clk ca rq a (view s) w1" using *(1) by simp
    show ?thesis
    proof (rule that [of "aVault a" "aDevice a"])
      show "acting_device (view s) ca (cVaultID c) (cDeviceID c) (aVault a) (aDevice a)"
        unfolding *(3,4) by (rule acting_deviceI [OF sg *(2)])
      show "cObservedAt (scCheckpoint p) < cObservedAt c \<and> cDeviceListIndex (scCheckpoint p) \<le> cDeviceListIndex c \<and>
         cHeaderRevision (scCheckpoint p) \<le> cHeaderRevision c"
        if "wCheckpoint (view s) (cVaultID c) (cDeviceID c) = Some p" for p
        using *(6) [of p] that by (simp add: *(3,4))
    qed (use *(5,7,8) in simp_all)
  qed
qed

lemma rekey_reaches:
  assumes inv: "inv s" and si: "sinv ed cf (view s)" and kind: "kind = EntryRemove \<or> kind = EntryRotate"
    and run: "rekey T ed clk ca rq kind e ps s = (Inr u, s')"
  obtains x y d l where "acting_device (view s) ca (eVaultID e) (eSignerDeviceID e) x d"
    "wVault (view s') (eVaultID e) = Some y" "unat (vEpoch y) = unat (vEpoch x) + 1"
    "wEntries (view s') (eVaultID e) = wEntries (view s) (eVaultID e) @ [e]"
    "VerifyDeviceList ed (wEntries (view s') (eVaultID e)) = Inr l"
    "dom (wPackage (view s') (eVaultID e)) = mDeviceID ` set (Current l) - {eSignerDeviceID e}"
    "\<And>i k. wPackage (view s') (eVaultID e) i = Some k \<Longrightarrow>
       pVaultEpoch (kPackage k) = vEpoch y \<and> packageVerify ed (kPackage k) (dSigningKey d) = Inr ()"
    "wPairing (view s') (eVaultID e) = (\<lambda>_. None)"
    "\<And>i. i \<noteq> eSignerDeviceID e \<Longrightarrow>
       map_option dActivatedEpoch (wDevice (view s') (eVaultID e) i) = map_option dActivatedEpoch (wDevice (view s) (eVaultID e) i)"
  using inv si run
proof (rule svcRekey_ok)
  fix a l l'
  assume act: "acting_device (view s) ca (vID (aVault a)) (dDeviceID (aDevice a)) (aVault a) (aDevice a)"
    and en: "entry_by a kind e" and lst: "VerifyDeviceList ed (wEntries (view s) (vID (aVault a))) = Inr l"
    and exd: "Extend ed l e = Inr l'" and recipients: "pRecipientDeviceID ` set ps = mDeviceID ` set (Current l') - {dDeviceID (aDevice a)}"
    and pkg: "\<forall>p \<in> set ps. package_ok ed a e (eEpochAfter e) p"
    and w: "view s' = (rekey_view kind e a ps (clk 4) (view s))\<lparr>wNonce := wNonce (view s')\<rparr>"
  have ids: "vID (aVault a) = eVaultID e" "dDeviceID (aDevice a) = eSignerDeviceID e" "eKind e = kind"
    using en by (simp_all add: entry_by_def)
  have "wVault (view s) (eVaultID e) = Some (aVault a)" using act by (simp add: acting_device_def ids)
  then obtain l0 where l0: "vault_inv ed cf (view s) (eVaultID e) (aVault a) l0" using sinv_vault [OF si] by blast
  then have "l0 = l" "vEpoch (aVault a) = Epoch l0" using lst by (simp_all add: vault_inv_def list_inv_def ids)
  moreover have "Epoch l \<noteq> -1 \<and> eEpochAfter e = Epoch l + 1"
    using exd by (rule ExtendE) (use ids(3) kind in \<open>auto simp: kind_defs\<close>)
  ultimately have epoch: "unat (eEpochAfter e) = unat (vEpoch (aVault a)) + 1" by (simp add: unat_u64_Suc)
  let ?y = "(aVault a)\<lparr>vHeadIndex := eIndex e, vEpoch := eEpochAfter e, vUpdatedAt := clk 4\<rparr>"
  have es: "wEntries (view s') (eVaultID e) = wEntries (view s) (eVaultID e) @ [e]"
    by (subst w) (simp add: rekey_view_def Let_def ids)
  have pk: "wPackage (view s') (eVaultID e) = package_rows (clk 4) ps"
    by (subst w) (simp add: rekey_view_def Let_def ids)
  have row: "dDeviceID d = i" if "wDevice (view s) (eVaultID e) i = Some d" for i d
    using device_key [OF inv that] by simp
  show thesis
  proof (rule that [of "aVault a" "aDevice a" ?y l'])
    show "acting_device (view s) ca (eVaultID e) (eSignerDeviceID e) (aVault a) (aDevice a)" using act by (simp only: ids)
    show "wVault (view s') (eVaultID e) = Some ?y" by (subst w) (simp add: rekey_view_def Let_def ids)
    show "VerifyDeviceList ed (wEntries (view s') (eVaultID e)) = Inr l'"
      unfolding es VerifyDeviceList_snoc using lst exd by (auto simp: ids)
    show "dom (wPackage (view s') (eVaultID e)) = mDeviceID ` set (Current l') - {eSignerDeviceID e}"
      using recipients by (simp add: pk package_rows_def dom_map_of_conv_image_fst image_image ids)
    show "pVaultEpoch (kPackage k) = vEpoch ?y \<and> packageVerify ed (kPackage k) (dSigningKey (aDevice a)) = Inr ()"
      if "wPackage (view s') (eVaultID e) i = Some k" for i k
      using package_rows_some [OF that [unfolded pk]] pkg by (auto simp: package_ok_def)
    show "wPairing (view s') (eVaultID e) = (\<lambda>_. None)" by (subst w) (simp add: rekey_view_def Let_def ids)
    show "map_option dActivatedEpoch (wDevice (view s') (eVaultID e) i) = map_option dActivatedEpoch (wDevice (view s) (eVaultID e) i)"
      if "i \<noteq> eSignerDeviceID e" for i
      using that row [of i] by (subst w) (cases "wDevice (view s) (eVaultID e) i"; auto simp: rekey_view_def Let_def ids rekeyed_def)
  qed (use es epoch in simp_all)
qed

end

lemma approved_bound:
  assumes "vault_inv ed cf w v x l"
  shows "card {i. \<exists>d. wDevice w v i = Some d \<and> dState d = DeviceApproved} \<le> MaxDevicesPerVault"
proof -
  have inv: "VerifyDeviceList ed (wEntries w v) = Inr l" "\<forall>i. rel_option device_member (wDevice w v i) (map_of (lMembers l) i)"
    using assms unfolding vault_inv_def list_inv_def by blast+
  note wf = VerifyDeviceList_wf [OF inv(1)]
  have "{i. \<exists>d. wDevice w v i = Some d \<and> dState d = DeviceApproved} \<subseteq> mDeviceID ` set (Current l)"
  proof clarify
    fix i d
    assume d: "wDevice w v i = Some d" "dState d = DeviceApproved"
    then obtain m where m: "map_of (lMembers l) i = Some m" "device_member d m"
      using inv(2) [rule_format, of i] by (auto simp: option_rel_Some1)
    have "mDeviceID m = i" using wf m(1) by (simp add: list_wf_def member_wf_def)
    moreover have "mRemovedIndex m = 0" using m(2) d(2) by (auto simp: device_member_def split: if_splits)
    ultimately have "m \<in> set (Current l)" using m(1) by (simp add: Current_iff [OF wf] current_def)
    then show "i \<in> mDeviceID ` set (Current l)" using \<open>mDeviceID m = i\<close> by blast
  qed
  then have "card {i. \<exists>d. wDevice w v i = Some d \<and> dState d = DeviceApproved} \<le> card (mDeviceID ` set (Current l))"
    by (rule card_mono [rotated]) simp
  also have "\<dots> \<le> length (Current l)" by (rule order_trans [OF card_image_le card_length]) simp
  also have "\<dots> \<le> MaxDevicesPerVault" using wf by (simp only: list_wf_def)
  finally show ?thesis .
qed

end
