(* ===== verification/Service_Safety.thy ===== *)
theory Service_Safety
  imports Service_Effects
begin

text \<open>
  Who can act and on what: the devices whose calls succeed, the vaults a call can change, what a
  removed device can still do, and what a device reads back.
\<close>

section \<open>Only live callers act\<close>

definition live_caller :: "sview \<Rightarrow> gotime \<Rightarrow> Caller \<Rightarrow> bool" where
  "live_caller w now ca \<longleftrightarrow> (\<exists>a. is_actor w now ca a \<and> (aPairing a \<noteq> None \<or> dState (aDevice a) = DeviceApproved))"

definition needs_live ::
  "('s \<Rightarrow> sview) \<Rightarrow> ('s \<Rightarrow> bool) \<Rightarrow> ed25519 \<Rightarrow> Config \<Rightarrow> (nat \<Rightarrow> gotime) \<Rightarrow> Caller \<Rightarrow> ('s, svc_error, 'a) txm \<Rightarrow> bool" where
  "needs_live view ok ed cf clk ca fn \<longleftrightarrow>
     (\<forall>s x s'. ok s \<and> sinv ed cf (view s) \<and> fn s = (Inr x, s') \<longrightarrow> live_caller (view s) (clk 0) ca)"

lemma live_callerD:
  assumes "live_caller w now ca"
  shows "\<exists>x. wVault w (vID x) = Some x \<and> vOwnerKey x = caOwnerKey ca \<and>
    ((\<exists>d. wDevice w (vID x) (dDeviceID d) = Some d \<and> dTokenDeviceID d = caTokenDeviceID ca \<and> dState d = DeviceApproved) \<or>
     (\<exists>g. wPairing w (vID x) (gDeviceID g) = Some g \<and> gTokenDeviceID g = caTokenDeviceID ca \<and> now < gExpiresAt g))"
proof -
  obtain a where a: "is_actor w now ca a" "aPairing a \<noteq> None \<or> dState (aDevice a) = DeviceApproved"
    using assms unfolding live_caller_def by blast
  note v = actor_vault [OF a(1)]
  show ?thesis
  proof (cases "aPairing a")
    case None
    with a(2) actor_device [OF a(1) None] v show ?thesis by (intro exI [of _ "aVault a"] conjI disjI1 exI [of _ "aDevice a"]) simp_all
  next
    case (Some g)
    with actor_pairing [OF a(1) Some] v show ?thesis by (intro exI [of _ "aVault a"] conjI disjI2 exI [of _ g]) simp_all
  qed
qed

lemma needs_liveI:
  "(\<And>s x s'. ok s \<Longrightarrow> sinv ed cf (view s) \<Longrightarrow> fn s = (Inr x, s') \<Longrightarrow> live_caller (view s) (clk 0) ca) \<Longrightarrow>
   needs_live view ok ed cf clk ca fn"
  unfolding needs_live_def by blast

lemma live_approved:
  assumes "signed ed clk ca rq a w w1" "requireApproved a = Inr ()"
  shows "live_caller w (clk 0) ca"
  unfolding live_caller_def using signed_actor [OF assms(1)] assms(2)
  by (intro exI [of _ a] conjI disjI2) (simp_all add: requireApproved_def split: if_splits)

lemma live_activated: "signed ed clk ca rq a w w1 \<Longrightarrow> requireActivated a = Inr () \<Longrightarrow> live_caller w (clk 0) ca"
  by (erule live_approved) (simp add: requireActivated_ok requireApproved_ok)

lemma live_entry: "signed ed clk ca rq a w w1 \<Longrightarrow> entry_by a kind e \<Longrightarrow> live_caller w (clk 0) ca"
  by (erule live_activated) (simp add: entry_by_def)

lemma live_header: "signed ed clk ca rq a w w1 \<Longrightarrow> header_for a h c \<Longrightarrow> live_caller w (clk 0) ca"
  by (erule live_activated) (simp add: header_for_def)

lemma live_pairing: "signed ed clk ca rq a w w1 \<Longrightarrow> aPairing a = Some g \<Longrightarrow> live_caller w (clk 0) ca"
  unfolding live_caller_def using signed_actor by blast

lemma live_either:
  assumes "signed ed clk ca rq a w w1" "aPairing a = None \<Longrightarrow> dState (aDevice a) = DeviceApproved"
  shows "live_caller w (clk 0) ca"
  unfolding live_caller_def using signed_actor [OF assms(1)] assms(2) by blast

lemmas live_rules = live_pairing live_approved live_activated live_entry live_header

context sync_tx
begin

lemma device_needs_live:
  "needs_live view inv ed cf clk ca (answerPairingTx T ed clk ca rq i msg)"
  "needs_live view inv ed cf clk ca (confirmPairingTx T ed clk ca rq msg)"
  "needs_live view inv ed cf clk ca (activateTx T ed clk ca rq dg)"
  "needs_live view inv ed cf clk ca (putCheckpointTx T ed clk ca rq cp)"
  "needs_live view inv ed cf clk ca (resetTx T ed clk ca rq ep)"
  by (rule needs_liveI, erule answerPairing_ok confirmPairing_ok activate_ok putCheckpoint_ok reset_ok,
      assumption, erule live_rules, assumption)+

lemma cancel_needs_live: "needs_live view inv ed cf clk ca (cancelPairingTx T ed clk ca rq i)"
  by (rule needs_liveI, erule cancelPairing_ok, assumption, erule live_either, simp)

lemma list_needs_live:
  "needs_live view inv ed cf clk ca (approveTx T ed clk ca rq e p)"
  "needs_live view inv ed cf clk ca (upgradeKeyTx T ed clk ca rq e)"
  "needs_live view inv ed cf clk ca (rekeyTx T ed clk ca rq kind e ps)"
  "needs_live view inv ed cf clk ca (uploadTx T ed cf clk ca rq h c)"
  by (rule needs_liveI, drule sinv_lists, erule approve_ok upgradeKey_ok rekey_ok upload_ok,
      assumption, assumption, erule live_rules, assumption)+

lemmas nonce_needs_live = sync_tx.device_needs_live [OF nonce_sync_tx] sync_tx.cancel_needs_live [OF nonce_sync_tx]
  sync_tx.list_needs_live [OF nonce_sync_tx]

lemma handler_needs_live:
  assumes k: "needs_live (view \<circ> fst) (inv \<circ> fst) ed cf clk ca fn" and inv: "inv s" and si: "sinv ed cf (view s)"
    and run: "outcome (keeperUpdate T fn s) = (Inr u, s')"
  shows "live_caller (view s) (clk 0) ca"
proof -
  obtain x where "keeperUpdate T fn s = (Inr x, s')"
    using run by (cases "keeperUpdate T fn s") (auto simp: outcome_def split: sum.splits)
  then obtain sp where "fn (s, None) = (Inr x, (s', sp))" by (auto simp: keeperUpdate_ok)
  then show ?thesis using k [unfolded needs_live_def, rule_format, of "(s, None)" x "(s', sp)"] inv si by simp
qed

lemma perform_live_caller:
  assumes inv: "inv s" and si: "sinv ed cf (view s)" and c: "device_call c = Some (ca, rq)"
    and run: "perform T ed cf clk c s = (Inr u, s')"
  shows "live_caller (view s) (clk 0) ca"
  using run c
  apply (cases c; simp only: device_call.simps option.inject prod.inject option.distinct; elim conjE; hypsubst;
      unfold perform.simps svc_defs)
  by (erule handler_needs_live [OF _ inv si, rotated], rule nonce_needs_live)+

lemma handler_err:
  assumes inv: "inv s" and run: "outcome (keeperUpdate T fn s) = (Inl e, s')"
  shows "same_vault (view s) (view s') v"
proof -
  have "keeperUpdate T fn s = (Inl e, s')" using run by (cases "keeperUpdate T fn s") (auto simp: outcome_def split: sum.splits)
  from keeperUpdate_err [OF inv this] show ?thesis by simp
qed

lemma perform_err: "inv s \<Longrightarrow> perform T ed cf clk c s = (Inl e, s') \<Longrightarrow> same_vault (view s) (view s') v"
  by (cases c; hypsubst; unfold perform.simps svc_defs; erule (1) handler_err)

text \<open>After a removal the token of the removed device is not that of a live caller.\<close>

lemma remove_not_live:
  assumes inv: "inv s" and si: "sinv ed cf (view s)" and run: "svcRemove T ed clk ca rq e ps s = (Inr u, s')"
    and d: "wDevice (view s) (eVaultID e) (eSubjectDeviceID e) = Some d" "dTokenDeviceID d = caTokenDeviceID ca'"
    and own: "caOwnerKey ca' = caOwnerKey ca"
  obtains x where "inv s'" "wVault (view s') (eVaultID e) = Some x" "vOwnerKey x = caOwnerKey ca'"
    "\<And>i b. wDevice (view s') (eVaultID e) i = Some b \<Longrightarrow> dTokenDeviceID b = caTokenDeviceID ca' \<Longrightarrow> dState b = DeviceRevoked"
    "\<And>i. wPairing (view s') (eVaultID e) i = None" "\<not> live_caller (view s') now ca'"
proof -
  from inv si run [unfolded svcRemove_def] show ?thesis
  proof (rule svcRekey_ok)
    fix a l l'
    assume inv': "inv s'" and act: "acting_device (view s) ca (vID (aVault a)) (dDeviceID (aDevice a)) (aVault a) (aDevice a)"
      and en: "entry_by a EntryRemove e" and lst: "VerifyDeviceList ed (wEntries (view s) (vID (aVault a))) = Inr l"
      and exd: "Extend ed l e = Inr l'"
      and w: "view s' = (rekey_view EntryRemove e a ps (clk 4) (view s))\<lparr>wNonce := wNonce (view s')\<rparr>"
    have v: "vID (aVault a) = eVaultID e" using en by (simp add: entry_by_def)
    have own': "vOwnerKey (aVault a) = caOwnerKey ca'" using act own by (simp add: acting_device_def)
    have vault: "wVault (view s') (eVaultID e) = Some ((aVault a)\<lparr>vHeadIndex := eIndex e, vEpoch := eEpochAfter e, vUpdatedAt := clk 4\<rparr>)"
      by (subst w) (simp add: rekey_view_def Let_def v)
    have no_pairing: "wPairing (view s') (eVaultID e) i = None" for i
      by (subst w) (simp add: rekey_view_def Let_def v)
    have dev: "wDevice (view s') (eVaultID e) i =
        map_option (rekeyed EntryRemove e (dDeviceID (aDevice a))) (wDevice (view s) (eVaultID e) i)" for i
      by (subst w) (simp add: rekey_view_def Let_def v)
    obtain l0 where l0: "vault_inv ed cf (view s) (eVaultID e) (aVault a) l0"
      using sinv_vault [OF si] act v by (auto simp: acting_device_def)
    then have "l0 = l" using lst v by (simp add: vault_inv_def)
    with l0 have rel: "rel_option device_member (Some d) (map_of (lMembers l) (eSubjectDeviceID e))"
      using d(1) by (metis vault_inv_def list_inv_def)
    have "\<exists>m. map_of (lMembers l) (eSubjectDeviceID e) = Some m \<and> mRemovedIndex m = 0"
      using exd by (rule ExtendE) (use en in \<open>auto simp: entry_by_def kind_defs\<close>)
    then have live: "dState d \<noteq> DeviceRevoked" using rel by (auto simp: device_member_def)
    have revoked: "dState b = DeviceRevoked"
      if b: "wDevice (view s') (eVaultID e) i = Some b" "dTokenDeviceID b = caTokenDeviceID ca'" for i b
    proof -
      obtain b0 where b0: "wDevice (view s) (eVaultID e) i = Some b0" "b = rekeyed EntryRemove e (dDeviceID (aDevice a)) b0"
        using b(1) dev by auto
      show ?thesis
      proof (cases "dState b0 = DeviceRevoked")
        case True
        then show ?thesis by (auto simp: b0(2) rekeyed_def)
      next
        case False
        have "dTokenDeviceID b0 = dTokenDeviceID d" using b(2) d(2) by (simp add: b0(2))
        from device_token [OF inv b0(1) d(1) this False live] have "i = eSubjectDeviceID e" .
        then have "dDeviceID b0 = eSubjectDeviceID e" using device_key [OF inv b0(1)] by simp
        then show ?thesis by (simp add: b0(2) rekeyed_def)
      qed
    qed
    have "\<not> live_caller (view s') now ca'"
    proof
      assume "live_caller (view s') now ca'"
      then obtain b where b: "is_actor (view s') now ca' b" "aPairing b \<noteq> None \<or> dState (aDevice b) = DeviceApproved"
        unfolding live_caller_def by blast
      have "vID (aVault b) = eVaultID e"
        using vault_owner [OF inv' conjunct1 [OF actor_vault [OF b(1)]] vault] actor_vault [OF b(1)] own' by simp
      with actor_pairing [OF b(1)] no_pairing have n: "aPairing b = None" by (cases "aPairing b") auto
      with b(2) revoked actor_device [OF b(1) n] \<open>vID (aVault b) = eVaultID e\<close> show False by auto
    qed
    show ?thesis
      by (rule that [OF inv' vault _ revoked no_pairing]) (use own' \<open>\<not> live_caller (view s') now ca'\<close> in simp_all)
  qed
qed

end

section \<open>Whose vaults a call can change\<close>

text \<open>The account a call is made for; maintenance and administration are not calls of an account.\<close>

fun call_owner :: "call \<Rightarrow> string option" where
  "call_owner (CreateVault ca rq e) = Some (caOwnerKey ca)"
| "call_owner (BeginPairing ca rq offer) = Some (caOwnerKey ca)"
| "call_owner Maintain = None"
| "call_owner (AdminReset owner) = Some owner"
| "call_owner c = map_option (\<lambda>(ca, rq). caOwnerKey ca) (device_call c)"

text \<open>Everything of the vault is kept but pairings that had expired.\<close>

definition spared :: "(nat \<Rightarrow> gotime) \<Rightarrow> sview \<Rightarrow> sview \<Rightarrow> string \<Rightarrow> bool" where
  "spared clk w w' v \<longleftrightarrow> same_vault w (w'\<lparr>wPairing := wPairing w\<rparr>) v \<and>
     (\<forall>i. wPairing w' v i = wPairing w v i \<or>
        wPairing w' v i = None \<and> (\<exists>g n. wPairing w v i = Some g \<and> gExpiresAt g \<le> clk n))"

lemma spared_same: "same_vault w w' v \<Longrightarrow> spared clk w w' v"
  by (simp add: spared_def same_vault_def)

definition foreign :: "sview \<Rightarrow> string \<Rightarrow> string \<Rightarrow> bool" where
  "foreign w own v \<longleftrightarrow> (\<exists>x. wVault w v = Some x \<and> vOwnerKey x \<noteq> own)"

definition spares ::
  "('s \<Rightarrow> sview) \<Rightarrow> ('s \<Rightarrow> bool) \<Rightarrow> ed25519 \<Rightarrow> Config \<Rightarrow> (nat \<Rightarrow> gotime) \<Rightarrow> string \<Rightarrow> ('s, svc_error, 'a) txm \<Rightarrow> bool" where
  "spares view ok ed cf clk own fn \<longleftrightarrow>
     (\<forall>s x s' v. ok s \<and> sinv ed cf (view s) \<and> fn s = (Inr x, s') \<and> foreign (view s) own v \<longrightarrow> spared clk (view s) (view s') v)"

lemma sparesI:
  "(\<And>s x s' v. ok s \<Longrightarrow> sinv ed cf (view s) \<Longrightarrow> fn s = (Inr x, s') \<Longrightarrow> foreign (view s) own v \<Longrightarrow>
      spared clk (view s) (view s') v) \<Longrightarrow> spares view ok ed cf clk own fn"
  unfolding spares_def by blast

lemma foreign_actor:
  assumes "signed ed clk ca rq a w w1" "foreign w (caOwnerKey ca) v"
  shows "v \<noteq> vID (aVault a)"
  using signed_vault [OF assms(1)] assms(2) by (auto simp: foreign_def)

lemma foreign_owner:
  "foreign w own v \<Longrightarrow> wVault w u = Some x \<Longrightarrow> vOwnerKey x = own \<Longrightarrow> v \<noteq> u"
  by (auto simp: foreign_def)

lemma foreign_none: "foreign w own v \<Longrightarrow> wVault w u = None \<Longrightarrow> v \<noteq> u"
  by (auto simp: foreign_def)

text \<open>A handler that writes to the vault of the actor only.\<close>

lemma own_spared:
  assumes "signed ed clk ca rq a w w1" "foreign w (caOwnerKey ca) v"
    and "v \<noteq> vID (aVault a) \<Longrightarrow> same_vault w1 w' v"
  shows "spared clk w w' v"
  using assms(3) [OF foreign_actor [OF assms(1,2)]] signed_same_vault [OF assms(1), of v]
  by (simp add: spared_def same_vault_def)

context sync_tx
begin

lemma answerPairing_spares: "spares view inv ed cf clk (caOwnerKey ca) (answerPairingTx T ed clk ca rq i msg)"
  by (rule sparesI, rule answerPairing_ok, assumption, assumption, erule own_spared, assumption,
      drule (1) pairing_key, simp add: same_vault_def)

lemma confirmPairing_spares: "spares view inv ed cf clk (caOwnerKey ca) (confirmPairingTx T ed clk ca rq msg)"
  by (rule sparesI, rule confirmPairing_ok, assumption, assumption, erule own_spared, assumption,
      drule (1) pairing_key, simp add: same_vault_def)

lemma cancelPairing_spares: "spares view inv ed cf clk (caOwnerKey ca) (cancelPairingTx T ed clk ca rq i)"
  by (rule sparesI, erule cancelPairing_ok, assumption, erule own_spared, assumption, simp add: same_vault_def)

lemma reset_spares: "spares view inv ed cf clk (caOwnerKey ca) (resetTx T ed clk ca rq ep)"
  by (rule sparesI, erule reset_ok, assumption, erule own_spared, assumption, simp add: same_vault_def)

lemma putCheckpoint_spares: "spares view inv ed cf clk (caOwnerKey ca) (putCheckpointTx T ed clk ca rq cp)"
  by (rule sparesI, erule putCheckpoint_ok, assumption, erule own_spared, assumption, simp add: same_vault_def)

lemma actor_row:
  assumes "inv s" "signed ed clk ca rq a (view s) w1" "aPairing a = None"
  shows "dVaultID (aDevice a) = vID (aVault a)"
  using device_key [OF assms(1) conjunct1 [OF signed_device [OF assms(2,3)]]] by simp

lemma activate_spares: "spares view inv ed cf clk (caOwnerKey ca) (activateTx T ed clk ca rq dg)"
  by (rule sparesI, rule activate_ok, assumption, assumption, rule own_spared, assumption, assumption,
      frule (1) actor_row, simp add: requireApproved_ok, simp add: same_vault_def)

lemma approve_spares: "spares view inv ed cf clk (caOwnerKey ca) (approveTx T ed clk ca rq e p)"
  by (rule sparesI, drule sinv_lists, erule approve_ok, assumption, assumption, erule own_spared, assumption,
      simp add: same_vault_def approvedDevice_def entry_by_def package_ok_def)

lemma upgradeKey_spares: "spares view inv ed cf clk (caOwnerKey ca) (upgradeKeyTx T ed clk ca rq e)"
  by (rule sparesI, drule sinv_lists, rule upgradeKey_ok, assumption, assumption, assumption, rule own_spared, assumption, assumption,
      frule (1) actor_row, erule entry_by_device, simp add: same_vault_def entry_by_def)

lemma rekey_spares: "spares view inv ed cf clk (caOwnerKey ca) (rekeyTx T ed clk ca rq kind e ps)"
  by (rule sparesI, drule sinv_lists, erule rekey_ok, assumption, assumption, erule own_spared, assumption,
      simp add: same_vault_def rekey_view_def Let_def)

lemma upload_spares: "spares view inv ed cf clk (caOwnerKey ca) (uploadTx T ed cf clk ca rq h c)"
  by (rule sparesI, drule sinv_lists, erule upload_ok, assumption, assumption, erule own_spared, assumption,
      simp add: same_vault_def upload_view_def Let_def)

lemma createVault_spares: "spares view inv ed cf clk (caOwnerKey ca) (createVaultTx T ed clk ca rq e)"
proof (rule sparesI)
  fix s x s' v
  assume inv: "inv s" and f: "foreign (view s) (caOwnerKey ca) v" and run: "createVaultTx T ed clk ca rq e s = (Inr x, s')"
  from inv run show "spared clk (view s) (view s') v"
  proof (rule createVault_ok)
    fix w1 l
    assume n: "wVault (view s) (eVaultID e) = None" and sp: "spends clk (ownerScope ca) (rqNonce rq) (view s) w1"
      and x: "x = createdVault clk ca e"
      and w: "view s' = put_device (createdDevice clk ca e) (add_entry e (put_vault x w1))"
    show ?thesis using foreign_none [OF f n] spends_tables [OF sp]
      by (intro spared_same) (simp add: w x same_vault_def createdVault_def createdDevice_def)
  qed
qed

lemma beginPairing_spares: "spares view inv ed cf clk (caOwnerKey ca) (beginPairingTx T ed clk ca rq offer)"
proof (rule sparesI)
  fix s x s' v
  assume inv: "inv s" and f: "foreign (view s) (caOwnerKey ca) v" and run: "beginPairingTx T ed clk ca rq offer s = (Inr x, s')"
  from inv run show "spared clk (view s) (view s') v"
  proof (rule beginPairing_ok)
    fix vault w1 w2
    assume vault: "wVault (view s) (vID vault) = Some vault" "vOwnerKey vault = caOwnerKey ca"
      and sp: "spends clk (ownerScope ca) (rqNonce rq) (view s) w1"
      and wp: "withoutPrevious (vID vault) (caTokenDeviceID ca) w1 w2"
      and w: "view s' = put_pairing (offeredPairing clk vault ca offer) (purge_expired (clk 4) w2)"
    note v = foreign_owner [OF f vault]
    have w2: "same_vault (view s) w2 v"
      using wp v spends_tables [OF sp] by (auto simp: withoutPrevious_def same_vault_def)
    show ?thesis using v w2
      by (auto simp: w spared_def same_vault_def offeredPairing_def not_less split: option.splits)
  qed
qed

lemma adminReset_spares: "spares view inv ed cf clk own (adminResetTx T own)"
  by (rule sparesI, erule adminReset_ok, assumption, drule (2) foreign_owner, rule spared_same, simp add: same_vault_def)

lemmas nonce_spares = sync_tx.answerPairing_spares [OF nonce_sync_tx] sync_tx.confirmPairing_spares [OF nonce_sync_tx]
  sync_tx.cancelPairing_spares [OF nonce_sync_tx] sync_tx.reset_spares [OF nonce_sync_tx]
  sync_tx.putCheckpoint_spares [OF nonce_sync_tx] sync_tx.activate_spares [OF nonce_sync_tx]
  sync_tx.approve_spares [OF nonce_sync_tx] sync_tx.upgradeKey_spares [OF nonce_sync_tx]
  sync_tx.rekey_spares [OF nonce_sync_tx] sync_tx.upload_spares [OF nonce_sync_tx]
  sync_tx.createVault_spares [OF nonce_sync_tx] sync_tx.beginPairing_spares [OF nonce_sync_tx]
  sync_tx.adminReset_spares [OF nonce_sync_tx]

lemma handler_spares:
  assumes k: "spares (view \<circ> fst) (inv \<circ> fst) ed cf clk own fn" and inv: "inv s" and si: "sinv ed cf (view s)"
    and f: "foreign (view s) own v" and run: "outcome (keeperUpdate T fn s) = (r, s')"
  shows "spared clk (view s) (view s') v"
proof -
  obtain q where q: "keeperUpdate T fn s = (q, s')" using run by (cases "keeperUpdate T fn s") (auto simp: outcome_def)
  show ?thesis
  proof (cases q)
    case (Inl e)
    then show ?thesis using keeperUpdate_err [OF inv q [unfolded Inl]] by (intro spared_same) simp
  next
    case (Inr x)
    then obtain sp where "fn (s, None) = (Inr x, (s', sp))" using q by (auto simp: keeperUpdate_ok)
    then show ?thesis using k [unfolded spares_def, rule_format, of "(s, None)" x "(s', sp)" v] inv si f by simp
  qed
qed

lemma perform_spares:
  assumes inv: "inv s" and si: "sinv ed cf (view s)" and c: "call_owner c = Some own" and f: "foreign (view s) own v"
    and run: "perform T ed cf clk c s = (r, s')"
  shows "spared clk (view s) (view s') v"
  using run c f
  apply (cases c; simp only: call_owner.simps device_call.simps option.map prod.case option.inject option.distinct; hypsubst;
      unfold perform.simps svc_defs)
  by (erule handler_spares [OF _ inv si, rotated 2], rule nonce_spares, assumption)+

end

end
