(* ===== verification/Service_Served.thy ===== *)
theory Service_Served
  imports Service_Safety
begin

text \<open>
  What the reading calls return: the pages of headers are chains the client accepts, the snapshot
  is the one uploaded last, and a removed device is refused.
\<close>

section \<open>Pages of headers\<close>

lemma VerifyHeader_previous:
  "VerifyHeader ed l q h = Inr () \<Longrightarrow> verifyPrevious p h = Inr () \<Longrightarrow> VerifyHeader ed l p h = Inr ()"
  by (simp add: VerifyHeader_def split: sum.splits if_splits)

text \<open>The header before the page, when the caller names one that is stored.\<close>

definition before_page :: "(u64 \<Rightarrow> StoredHeader option) \<Rightarrow> u64 \<Rightarrow> Header option \<Rightarrow> bool" where
  "before_page tbl after p \<longleftrightarrow> p = None \<or> (\<exists>g. tbl after = Some g \<and> p = Some (shHeader g))"

lemma page_first:
  assumes hi: "header_inv ed cur l tbl" and p: "before_page tbl after p" and h: "tbl r = Some h" "after < r"
    and least: "\<And>q. after < q \<Longrightarrow> tbl q \<noteq> None \<Longrightarrow> r \<le> q"
  shows "VerifyHeader ed l p (shHeader h) = Inr ()"
proof -
  obtain q where q: "VerifyHeader ed l q (shHeader h) = Inr ()" and r: "r \<le> cur" using hi h(1) unfolding header_inv_def by blast
  have "verifyPrevious p (shHeader h) = Inr ()"
  proof (cases p)
    case (Some g0)
    then obtain g where g: "tbl after = Some g" "p = Some (shHeader g)" using p by (auto simp: before_page_def)
    have next_le: "after + 1 \<le> r" using h(2) by (rule u64_Suc_le)
    have m1: "after \<noteq> -1" using h(2) by auto
    have "\<forall>q. tbl after \<noteq> None \<and> after \<le> q \<and> q \<le> cur \<longrightarrow> tbl q \<noteq> None"
      using hi unfolding header_inv_def by blast
    from this [rule_format, of "after + 1"] have "tbl (after + 1) \<noteq> None"
      using g(1) less_imp_le [OF next_above [OF m1]] order_trans [OF next_le r] by simp
    with least [OF next_above [OF m1]] next_le have "r = after + 1" by simp
    then show ?thesis using hi g h(1) m1 unfolding header_inv_def verifyPrevious_def by auto
  qed (simp add: verifyPrevious_def)
  with q show ?thesis by (rule VerifyHeader_previous)
qed

lemma page_chain:
  assumes hi: "header_inv ed cur l tbl" and p: "before_page tbl after p"
    and xs: "set xs = {h. \<exists>r. after < r \<and> tbl r = Some h}" "sorted_wrt (\<lambda>a b. hRevision (shHeader a) < hRevision (shHeader b)) xs"
  shows "VerifyHeaderChain ed l p (map shHeader xs) = Inr ()"
  using p xs
proof (induction xs arbitrary: after p)
  case (Cons h xs)
  have rev: "tbl r = Some g \<Longrightarrow> hRevision (shHeader g) = r" for r g using hi unfolding header_inv_def by blast
  from Cons.prems(2) obtain r where r: "after < r" "tbl r = Some h" by auto
  have later: "g \<in> set xs \<Longrightarrow> r < hRevision (shHeader g)" for g using Cons.prems(3) rev [OF r(2)] by simp
  have ok: "VerifyHeader ed l p (shHeader h) = Inr ()"
  proof (rule page_first [OF hi Cons.prems(1) r(2,1)])
    fix q
    assume q: "after < q" "tbl q \<noteq> None"
    then obtain g where g: "tbl q = Some g" by auto
    then have "g \<in> set (h # xs)" using q Cons.prems(2) by blast
    then show "r \<le> q" using later [of g] rev [OF g] rev [OF r(2)] by auto
  qed
  have "set xs = {g. \<exists>q. r < q \<and> tbl q = Some g}"
  proof (intro set_eqI iffI CollectI)
    fix g
    assume g: "g \<in> set xs"
    then obtain q where "tbl q = Some g" using Cons.prems(2) by (auto simp: set_eq_iff)
    then show "\<exists>q. r < q \<and> tbl q = Some g" using later [OF g] rev by auto
  next
    fix g
    assume "g \<in> {g. \<exists>q. r < q \<and> tbl q = Some g}"
    then obtain q where q: "r < q" "tbl q = Some g" by blast
    then have "g \<in> set (h # xs)" using Cons.prems(2) r(1) by (auto intro: less_trans)
    moreover have "g \<noteq> h" using q r(2) rev [of q g] rev [of r h] by auto
    ultimately show "g \<in> set xs" by simp
  qed
  from Cons.IH [OF _ this] Cons.prems(3) r(2)
  have "VerifyHeaderChain ed l (Some (shHeader h)) (map shHeader xs) = Inr ()" by (simp add: before_page_def)
  with ok show ?case by simp
qed simp

context sync_tx
begin

lemma headers_served:
  assumes inv: "inv s" and si: "sinv ed cf (view s)" and run: "svcHeaders T clk ca after limit s = (Inr hs, s')"
  obtains x l where "s' = s" "wVault (view s) (vID x) = Some x" "vOwnerKey x = caOwnerKey ca"
    "VerifyDeviceList ed (wEntries (view s) (vID x)) = Inr l" "int (length hs) \<le> MaxHeadersPerPage"
    "\<And>p. before_page (wHeader (view s) (vID x)) after p \<Longrightarrow> VerifyHeaderChain ed l p (map shHeader hs) = Inr ()"
proof -
  obtain t where t: "headersTx T clk ca after limit s = (Inr hs, t)" and s': "s' = s"
    using run by (cases "headersTx T clk ca after limit s") (simp add: svcHeaders_def keeperView_def storeView_def)
  obtain a s1 where a: "actorFor T clk ca s = (Inr a, s1)" and hs: "txHeaders T (vID (aVault a)) after (clamp limit MaxHeadersPerPage) s1 = Inr hs"
    using t by (auto simp: headersTx_def txm_simps)
  have s1: "s1 = s" "is_actor (view s) (clk 0) ca a" using actorFor_ok [OF inv a] by simp_all
  note v = actor_vault [OF s1(2)]
  obtain l where l: "vault_inv ed cf (view s) (vID (aVault a)) (aVault a) l" using sinv_vault [OF si] v by blast
  obtain xs where xs: "set xs = {h. \<exists>r. after < r \<and> wHeader (view s) (vID (aVault a)) r = Some h}"
    "sorted_wrt (\<lambda>a b. hRevision (shHeader a) < hRevision (shHeader b)) xs" "hs = take (nat (clamp limit MaxHeadersPerPage)) xs"
    using Headers_ok [OF inv hs [unfolded s1]] by (auto simp: page_def)
  show ?thesis
  proof (rule that [OF s' _ _ _ _])
    show "int (length hs) \<le> MaxHeadersPerPage" by (auto simp: xs(3) clamp_def MaxHeadersPerPage_def min_def)
    fix p
    assume p: "before_page (wHeader (view s) (vID (aVault a))) after p"
    have "VerifyHeaderChain ed l p (map shHeader xs) = Inr ()"
      by (rule page_chain [OF _ p xs(1,2), of ed "vCurrentRevision (aVault a)"]) (use l in \<open>simp add: vault_inv_def\<close>)
    then show "VerifyHeaderChain ed l p (map shHeader hs) = Inr ()"
      using VerifyHeaderChain_append [of ed l p "map shHeader hs" "map shHeader (drop (nat (clamp limit MaxHeadersPerPage)) xs)"]
      by (simp add: xs(3) map_append [symmetric] del: map_append)
  next
    show "VerifyDeviceList ed (wEntries (view s) (vID (aVault a))) = Inr l" using l by (simp add: vault_inv_def)
  qed (use v in simp_all)
qed

end

section \<open>The snapshot, and a removed device\<close>

lemma acting_callerD: "is_actor w now ca a \<Longrightarrow> \<not> callerMissing ca"
  unfolding is_actor_def by (rule conjunct1)

lemma live_caller_present: "live_caller w now ca \<Longrightarrow> \<not> callerMissing ca"
  using acting_callerD unfolding live_caller_def by blast

context reliable_tx
begin

lemma upload_snapshot:
  assumes inv: "inv s" and si: "sinv ed cf (view s)" and cf: "config_ok cf"
    and run: "svcUpload T ed cf clk ca rq h c s = (Inr acc, s')"
  shows "svcSnapshot T clk' ca s' = (Inr \<lparr>snapHeader = acHeader acc, snapCiphertext = c, snapVault = acVault acc\<rparr>, s')"
proof -
  have "perform T ed cf clk (Upload ca rq h c) s = (Inr (), s')" using run by (simp add: outcome_def)
  from perform_live_caller [OF inv si _ this] have c: "\<not> callerMissing ca" by (rule live_caller_present) simp
  from inv si cf run show ?thesis
  proof (rule svcUpload_ok)
    fix x d
    assume inv': "inv s'" and act: "acting_device (view s) ca (hVaultID h) (hDeviceID h) x d"
      and n: "vCurrentRevision x \<noteq> -1" "hRevision h = vCurrentRevision x + 1" "vID x = hVaultID h"
      and acc: "acVault acc = x\<lparr>vCurrentRevision := hRevision h, vUpdatedAt := clk 4\<rparr>"
      and rows: "wVault (view s') (hVaultID h) = Some (acVault acc)"
        "wHeader (view s') (hVaultID h) (hRevision h) = Some (acHeader acc)"
        "wCipher (view s') (hVaultID h) (hRevision h) = Some c" "wDevice (view s') = wDevice (view s)"
    have d: "wDevice (view s') (hVaultID h) (hDeviceID h) = Some d" "dTokenDeviceID d = caTokenDeviceID ca" "dState d = DeviceApproved"
      "vOwnerKey (acVault acc) = caOwnerKey ca"
      using act rows(4) acc by (simp_all add: acting_device_def)
    have nz: "vCurrentRevision (acVault acc) \<noteq> 0"
      using next_above [OF n(1)] by (auto simp: acc n(2))
    have ids: "vID (acVault acc) = hVaultID h" "vCurrentRevision (acVault acc) = hRevision h" using n(3) by (simp_all add: acc)
    have "actorFor T clk' ca s' = (Inr \<lparr>aVault = acVault acc, aDevice = d, aPairing = None\<rparr>, s')"
      by (rule actor_read [OF inv' c rows(1) d(4,1,2)]) (simp add: d(3))
    then have "snapshotTx T clk' ca s' = (Inr \<lparr>snapHeader = acHeader acc, snapCiphertext = c, snapVault = acVault acc\<rparr>, s')"
      using snapshot_read [of clk' ca s' "\<lparr>aVault = acVault acc, aDevice = d, aPairing = None\<rparr>" "acHeader acc" c]
        inv' d(3) nz rows ids by (simp add: requireApproved_def)
    then show ?thesis by (simp add: svcSnapshot_def keeperView_def storeView_def)
  qed
qed

lemma remove_locks_out:
  assumes inv: "inv s" and si: "sinv ed cf (view s)" and cf: "config_ok cf" and run: "svcRemove T ed clk ca rq e ps s = (Inr u, s')"
    and d: "wDevice (view s) (eVaultID e) (eSubjectDeviceID e) = Some d" "dTokenDeviceID d = caTokenDeviceID ca'"
    and own: "caOwnerKey ca' = caOwnerKey ca"
  shows "svcSnapshot T clk' ca' s' = (Inl ErrForbidden, s') \<and> svcHeaders T clk' ca' after limit s' = (Inl ErrForbidden, s') \<and>
    svcKeyPackage T clk' ca' s' = (Inl ErrForbidden, s') \<and> svcDeviceList T clk' ca' after limit s' = (Inl ErrForbidden, s') \<and>
    (device_call c = Some (ca', rq') \<longrightarrow> fst (perform T ed cf clk' c s') \<noteq> Inr ())"
proof -
  from inv si run d own show ?thesis
  proof (rule remove_not_live [where now = "clk' 0"])
    fix x
    assume inv': "inv s'" and x: "wVault (view s') (eVaultID e) = Some x" "vOwnerKey x = caOwnerKey ca'"
      and rev: "\<And>i b. wDevice (view s') (eVaultID e) i = Some b \<Longrightarrow> dTokenDeviceID b = caTokenDeviceID ca' \<Longrightarrow> dState b = DeviceRevoked"
      and none: "\<And>i. wPairing (view s') (eVaultID e) i = None" and dead: "\<not> live_caller (view s') (clk' 0) ca'"
    have "perform T ed cf clk (Remove ca rq e ps) s = (Inr (), s')" using run by (simp add: outcome_def)
    from perform_keeps [OF cf inv si this] have si': "sinv ed cf (view s')" by simp
    have "fst (perform T ed cf clk' c s') \<noteq> Inr ()" if "device_call c = Some (ca', rq')"
      using perform_live_caller [OF inv' si' that] dead by (cases "perform T ed cf clk' c s'") auto
    moreover have "actorFor T clk' ca' s' = (Inl ErrForbidden, s') \<or>
      (\<exists>a. actorFor T clk' ca' s' = (Inr a, s') \<and> aVault a = x \<and> aPairing a = None \<and> dState (aDevice a) = DeviceRevoked)"
      by (rule revoked_read [OF inv' x rev]) (simp_all add: none)
    ultimately show ?thesis
      by (auto simp: svcSnapshot_def svcHeaders_def svcKeyPackage_def svcDeviceList_def keeperView_def storeView_def
          snapshotTx_def headersTx_def keyPackageTx_def deviceListTx_def bindE_def requireApproved_def rejectIf_def liftE_def raise_def)
  qed
qed

end

end
