(* ===== verification/Service_Live.thy ===== *)
theory Service_Live
  imports Service_Served
begin

text \<open>
  A storage whose reads and evictions do not fail.  On it the two loops of the service return what
  they are for: \<open>loadList\<close> the stored list, and \<open>makeRoom\<close> success exactly when the incoming snapshot
  fits beside the current one.
\<close>

lemma from_revision_none:
  assumes "r < k"
  shows "from_revision k (m(r := None)) = from_revision k m"
proof
  fix q
  show "from_revision k (m(r := None)) q = from_revision k m q"
    using assms by (cases "q = r") (simp_all only: from_revision_def fun_upd_apply if_True if_False refl)
qed

locale total_tx = reliable_tx T view inv for T :: "'s Tx" and view :: "'s \<Rightarrow> sview" and inv :: "'s \<Rightarrow> bool" +
  assumes CiphertextBytes_total: "\<exists>n. txCiphertextBytes T v s = Inr n"
    and OldestCiphertext_only: "txOldestCiphertext T v s = Inl e \<Longrightarrow> e = ErrNotFound"
    and DeleteCiphertext_total: "\<exists>s'. txDeleteCiphertext T v r s = Inr s'"
    and DeviceListEntries_total: "\<exists>es. txDeviceListEntries T v after limit s = Inr es"
begin

lemma loadList_total:
  assumes "inv s" "VerifyDeviceList ed (wEntries (view s) v) = Inr l"
  shows "loadList T ed v s = (Inr l, s)"
proof -
  obtain r s' where run: "loadList T ed v s = (r, s')" by (cases "loadList T ed v s")
  have "txDeviceListEntries T v after MaxEntriesPerPage s \<noteq> Inl e" for after e
    using DeviceListEntries_total [of v after MaxEntriesPerPage s] by auto
  with loadList_run [OF assms run] run show ?thesis by auto
qed

lemma evictLoop_quota:
  assumes "inv s" "stored = cipher_bytes (wCipher (view s) (vID x))"
    "card {q \<in> dom (wCipher (view s) (vID x)). q < vCurrentRevision x} < fuel"
    "evictLoop T cf x incoming fuel stored s = (Inl e, s')"
  shows "e = ErrQuota \<and> cfByteBudget cf < cipher_bytes (from_revision (vCurrentRevision x) (wCipher (view s) (vID x))) + incoming"
  using assms
proof (induction fuel arbitrary: s stored)
  case 0
  from 0(3) show ?case by (rule less_zeroE)
next
  case (Suc fuel)
  let ?v = "vID x" and ?c = "vCurrentRevision x"
  let ?m = "wCipher (view s) ?v"
  note run = Suc.prems(4) [unfolded evictLoop.simps [of T cf x incoming "Suc fuel" stored]]
  have over: "cfByteBudget cf < stored + incoming" using run by (auto simp: ret_eq split: if_splits)
  show ?case
  proof (cases "txOldestCiphertext T ?v s")
    case (Inl f)
    then have "?m = (\<lambda>_. None)" using OldestCiphertext_only [OF Inl] OldestCiphertext_missing [OF Suc.prems(1)] by auto
    then have "from_revision ?c ?m = ?m" by (simp add: from_revision_def)
    moreover have "e = ErrQuota" using run over Inl OldestCiphertext_only [OF Inl] by (auto simp: tryE_def readT_def raise_def)
    ultimately show ?thesis using over Suc.prems(2) by simp
  next
    case (Inr rb)
    obtain r b where rb: "rb = (r, b)" by (cases rb)
    note oldest = OldestCiphertext_ok [OF Suc.prems(1) Inr [unfolded rb]]
    obtain c where c: "?m r = Some c" "b = int (length c)" using oldest by blast
    show ?thesis
    proof (cases "?c \<le> r")
      case True
      have "from_revision ?c ?m q = ?m q" for q
      proof (cases "?m q")
        case (Some y)
        then have "r \<le> q" using oldest by blast
        then have "\<not> q < ?c" using order_trans [OF True] by (simp only: not_less)
        then show ?thesis by (simp only: from_revision_def if_False)
      qed (simp add: from_revision_def)
      then have "from_revision ?c ?m = ?m" by (rule ext)
      moreover have "e = ErrQuota" using run over Inr rb True by (auto simp: tryE_def readT_def raise_def)
      ultimately show ?thesis using over Suc.prems(2) by simp
    next
      case False
      obtain s1 where s1: "txDeleteCiphertext T ?v r s = Inr s1" using DeleteCiphertext_total by blast
      note del = DeleteCiphertext_ok [OF Suc.prems(1) s1]
      have m1: "wCipher (view s1) ?v = ?m(r := None)" using del by simp
      have fin: "finite (dom ?m)" by (rule cipher_finite [OF Suc.prems(1)])
      have bytes: "stored - b = cipher_bytes (wCipher (view s1) ?v)"
        using cipher_bytes_drop [OF fin c(1)] Suc.prems(2) c(2) m1 by simp
      have "{q \<in> dom ?m. q < ?c} = insert r {q \<in> dom (?m(r := None)). q < ?c}" using c False by auto
      then have card: "card {q \<in> dom (wCipher (view s1) ?v). q < ?c} < fuel" using Suc.prems(3) fin m1 by simp
      have next_run: "evictLoop T cf x incoming fuel (stored - b) s1 = (Inl e, s')"
        using run over Inr rb False s1 by (simp add: tryE_def readT_def bindE_def writeT_def)
      have "from_revision ?c (wCipher (view s1) ?v) = from_revision ?c ?m"
        unfolding m1 by (rule from_revision_none) (use False in \<open>simp only: not_le\<close>)
      with Suc.IH [OF conjunct1 [OF del] bytes card next_run] show ?thesis by simp
    qed
  qed
qed

lemma makeRoom_exact:
  assumes inv: "inv s"
  shows "fst (makeRoom T cf x incoming s) =
    (if cipher_bytes (from_revision (vCurrentRevision x) (wCipher (view s) (vID x))) + incoming \<le> cfByteBudget cf
     then Inr () else Inl ErrQuota)"
proof -
  let ?m = "wCipher (view s) (vID x)" and ?c = "vCurrentRevision x"
  have fin: "finite (dom ?m)" by (rule cipher_finite [OF inv])
  have pos: "0 \<le> cipher_bytes (from_revision ?c ?m)" by (simp add: cipher_bytes_def sum_nonneg)
  obtain res s' where run: "makeRoom T cf x incoming s = (res, s')" by (cases "makeRoom T cf x incoming s")
  show ?thesis
  proof (cases res)
    case (Inr u)
    obtain k where k: "k \<le> ?c" "cipher_bytes (from_revision k ?m) + incoming \<le> cfByteBudget cf"
      using makeRoom_ok [OF inv run [unfolded Inr]] by blast
    have "cipher_bytes (from_revision ?c ?m) \<le> cipher_bytes (from_revision k ?m)"
      by (rule cipher_bytes_mono [OF fin k(1)])
    with k run Inr show ?thesis by simp
  next
    case (Inl e)
    have "e = ErrQuota \<and> cfByteBudget cf < cipher_bytes (from_revision ?c ?m) + incoming"
    proof (cases "cfByteBudget cf < incoming")
      case True
      then show ?thesis using run Inl pos by (simp add: makeRoom_def raise_eq)
    next
      case False
      obtain stored where st: "txCiphertextBytes T (vID x) s = Inr stored" using CiphertextBytes_total by blast
      have loop: "evictLoop T cf x incoming (2 ^ 64) stored s = (Inl e, s')"
        using run False st Inl by (simp add: makeRoom_def bindE_def readT_def)
      have "card {q \<in> dom ?m. q < ?c} \<le> unat ?c" unfolding card_below [symmetric] by (rule card_mono) auto
      then have "card {q \<in> dom ?m. q < ?c} < 2 ^ 64" using unat_u64_lt [of ?c] by linarith
      from evictLoop_quota [OF inv CiphertextBytes_ok [OF inv st] this loop] show ?thesis .
    qed
    with run Inl show ?thesis by simp
  qed
qed

end

interpretation memt: total_tx memTx mview minv
  by unfold_locales
    (auto simp: memTx_def memCiphertextBytes_def memOldestCiphertext_def memDeleteCiphertext_def memDeviceListEntries_def Let_def
      split: option.splits if_splits)

section \<open>Creating a vault succeeds\<close>

lemma mem_create_succeeds:
  assumes inv: "minv s" and si: "sinv ed cf (mview s)" and ca: "\<not> callerMissing ca"
    and own: "\<And>v x. wVault (mview s) v = Some x \<Longrightarrow> vOwnerKey x \<noteq> caOwnerKey ca"
    and free: "wVault (mview s) (eVaultID e) = None" and lst: "VerifyDeviceList ed [e] = Inr l"
    and sig: "requestVerify ed (signedBy ca rq) (eSubjectSigningKey e) (rqSignature rq) (unix (clk 1)) = Inr ()"
    and fresh: "\<And>u. wNonce (mview s) (ownerScope ca) (rqNonce rq) = Some u \<Longrightarrow> u \<le> clk 3"
  shows "\<exists>s'. svcCreateVault memTx ed clk ca rq e s = (Inr (createdVault clk ca e), s')"
proof -
  note e = single_entry [OF lst]
  have none: "no_vault (mview s) (eVaultID e)" using si free by (simp add: sinv_def)
  have owner: "find (\<lambda>x. vOwnerKey x = caOwnerKey ca) (map snd (msVaults s)) = None"
  proof (rule ccontr)
    assume "find (\<lambda>x. vOwnerKey x = caOwnerKey ca) (map snd (msVaults s)) \<noteq> None"
    then obtain x where "txVaultByOwner memTx (caOwnerKey ca) s = Inr x" by (auto simp: memVaultByOwner_def found_def)
    from mem_vaults.VaultByOwner_ok [OF inv this] own show False by blast
  qed
  have entries: "entriesOf s (eVaultID e) = []" using none by (simp add: no_vault_def)
  have devices: "dVaultID d \<noteq> eVaultID e" if "(k, d) \<in> set (msDevices s)" for k d
  proof
    assume d: "dVaultID d = eVaultID e"
    have "map_of (msDevices s) k = Some d"
      using that table_gomap [OF minvD(2) [OF inv]] by (simp add: gomap_entries)
    from table_row [OF minvD(2) [OF inv] this] none show False by (simp add: no_vault_def d)
  qed
  then have token: "\<not> list_ex (\<lambda>d. dVaultID d = eVaultID e \<and> P d) (map snd (msDevices s))" for P
    by (auto simp: list_ex_iff)
  let ?k = "key [ownerScope ca, rqNonce rq]" and ?u = "clk 2 + RequestNonceRetention * second"
  have nonce: "memRecordNonce (ownerScope ca) (rqNonce rq) (clk 3) ?u s = Inr (True, s\<lparr>msNonces := AList.update ?k ?u (msNonces s)\<rparr>)"
    using fresh by (auto simp: memRecordNonce_def Let_def not_less split: option.splits)
  show ?thesis
    using ca free owner entries token lst sig e nonce
    by (simp add: svcCreateVault_def createVaultTx_def createdVault_def keeperUpdate_def storeUpdate_def trackNonce_def
        bindE_def tryE_def readT_def writeT_def ret_def raise_def liftE_def rejectIf_def innerWrite_def nonceRecordNonce_def
        recordNonce_def verifyRequest_def invalid_def Let_def memVaultByOwner_def found_def memInsertVault_def
        memAppendDeviceListEntry_def entriesOf_def memPutDevice_def)
qed

end
