(* ===== verification/Scenario.thy ===== *)
theory Scenario
  imports Service_Live
begin

text \<open>
  A small run of the service on the in-memory store: one vault is created and one snapshot is
  uploaded, with a signature function that accepts every signature.  The theorems of the library
  are applied to this run to show that their hypotheses can hold.
\<close>

definition demoEd :: ed25519 where
  "demoEd = \<lparr>edVerify = (\<lambda>_ _ _. True), edSign = (\<lambda>_ _. replicate 64 0)\<rparr>"

definition demoKey :: string where "demoKey = EncodeToString (replicate 32 0)"
definition demoSignature :: string where "demoSignature = EncodeToString (replicate 64 0)"
definition demoVaultID :: string where "demoVaultID = ''vault-0000000001''"
definition demoDeviceID :: string where "demoDeviceID = ''device-000000001''"
definition demoClock :: "nat \<Rightarrow> gotime" where "demoClock _ = 0"

definition demoConfig :: Config where
  "demoConfig = \<lparr>cfReceiptKey = replicate 64 0, cfByteBudget = 1000, cfHeaderRetention = 10\<rparr>"

definition demoCaller :: Caller where
  "demoCaller = \<lparr>caOwnerKey = ''owner'', caTokenDeviceID = ''token'', caToken = ''secret''\<rparr>"

definition demoNonce :: "8 word \<Rightarrow> string" where "demoNonce n = EncodeToString (replicate 16 n)"

definition demoRequest :: "8 word \<Rightarrow> SignedRequest" where
  "demoRequest n = \<lparr>rqMethod = ''POST'', rqTarget = ''/v1/sync'', rqBody = [], rqTimestamp = 0,
     rqNonce = demoNonce n, rqSignature = demoSignature\<rparr>"

definition demoEntry :: DeviceListEntry where
  "demoEntry = \<lparr>eVaultID = demoVaultID, eIndex = 1, ePreviousDigest = [], eKind = EntryCreate,
     eSignerDeviceID = demoDeviceID, eSubjectDeviceID = demoDeviceID, eSubjectSigningKey = demoKey,
     eSubjectPackageKey = demoKey, eSealedLabel = EncodeToString (replicate MinSealedLabelBytes 0), eEpochAfter = 1,
     eSnapshotFloor = 0, eSignature = demoSignature\<rparr>"

definition demoList :: DeviceList where
  "demoList = \<lparr>lVaultID = demoVaultID, lMembers = [(demoDeviceID, memberFromEntry demoEntry)],
     lDigests = [entryDigest demoEntry], lEpochs = [1]\<rparr>"

definition demoVault :: Vault where
  "demoVault = \<lparr>vID = demoVaultID, vOwnerKey = ''owner'', vCurrentRevision = 0, vHeadIndex = 1, vEpoch = 1,
     vCreatedAt = 0, vUpdatedAt = 0\<rparr>"

definition demoDevice :: Device where
  "demoDevice = \<lparr>dVaultID = demoVaultID, dDeviceID = demoDeviceID, dTokenDeviceID = ''token'', dSigningKey = demoKey,
     dPackageKey = demoKey, dState = DeviceApproved, dAddedIndex = 1, dActivatedEpoch = 1, dCreatedAt = 0\<rparr>"

text \<open>The state after the vault was created.\<close>

definition demoCreated :: mstate where
  "demoCreated = newState\<lparr>msVaults := [(demoVaultID, demoVault)],
     msDevices := [(key [demoVaultID, demoDeviceID], demoDevice)], msEntries := [(demoVaultID, [demoEntry])],
     msNonces := [(key [''owner/owner'', demoNonce 1], 660 * second)]\<rparr>"

definition demoCipher :: bytes where "demoCipher = replicate 16 0"

definition demoHeader :: Header where
  "demoHeader = \<lparr>hVersion = VersionV3, hVaultID = demoVaultID, hDeviceID = demoDeviceID, hRevision = 1, hVaultEpoch = 1,
     hDeviceListIndex = 1, hDeviceListDigest = entryDigest demoEntry, hPreviousDigest = [],
     hCiphertextDigest = EncodeToString (Sum256 demoCipher), hCiphertextLength = 16,
     hNonce = EncodeToString (replicate 24 0), hSignature = demoSignature\<rparr>"

definition demoStored :: StoredHeader where
  "demoStored = \<lparr>shHeader = demoHeader, shDigest = headerDigest demoHeader, shReceipt = EncodeToString (replicate 64 0),
     shAcceptedAt = 0\<rparr>"

text \<open>The state after the snapshot was uploaded.\<close>

definition demoUploaded :: mstate where
  "demoUploaded = demoCreated\<lparr>msVaults := [(demoVaultID, demoVault\<lparr>vCurrentRevision := 1\<rparr>)],
     msHeaders := [(demoVaultID, [(1, demoStored)])], msCiphertexts := [(demoVaultID, [(1, demoCipher)])],
     msNonces := [(key [''owner/owner'', demoNonce 1], 660 * second),
       (key [demoVaultID @ ''/'' @ demoDeviceID, demoNonce 2], 660 * second)]\<rparr>"

lemma demoEntry_sel [simp]:
  "eVaultID demoEntry = demoVaultID" "eIndex demoEntry = 1" "ePreviousDigest demoEntry = []" "eKind demoEntry = EntryCreate"
  "eSignerDeviceID demoEntry = demoDeviceID" "eSubjectDeviceID demoEntry = demoDeviceID"
  "eSubjectSigningKey demoEntry = demoKey" "eSubjectPackageKey demoEntry = demoKey" "eEpochAfter demoEntry = 1"
  "eSnapshotFloor demoEntry = 0" "eSignature demoEntry = demoSignature"
  by (simp_all add: demoEntry_def)

lemma demo_ids [simp]: "opaqueID demoVaultID" "opaqueID demoDeviceID" "demoVaultID \<noteq> []" "demoDeviceID \<noteq> []"
  by (simp_all add: opaqueID_def opaque_char_def url_alphabet_def demoVaultID_def demoDeviceID_def)

lemma demo_decode [simp]:
  "decodeCanonical demoKey 32 = Inr (replicate 32 0)" "decodeCanonical demoSignature 64 = Inr (replicate 64 0)"
  "decodeCanonical (demoNonce n) 16 = Inr (replicate 16 n)"
  by (simp_all add: demoKey_def demoSignature_def demoNonce_def decodeCanonical_iff)

lemma demoEd_sel [simp]: "edVerify demoEd k m sig"
  by (simp add: demoEd_def)

lemma demo_fields [simp]:
  "isOk (decodeCanonicalOneOf demoKey [32, 1216])" "isOk (decodeCanonicalRange (eSealedLabel demoEntry) 40 256)"
  by (force simp: demoKey_def demoEntry_def size_consts)+

declare isOk_Canonical_iff [simp del]

lemma demoEntry_valid [simp]: "entryValidate demoEntry = Inr ()"
  by (simp add: entryValidate_def entryValidateKind_def size_consts)

lemma demo_verify [simp]: "VerifyDeviceList demoEd [demoEntry] = Inr demoList"
  by (simp add: VerifyDeviceList_def Extend_def extendCreate_def NewDeviceList_def Head_def verifyEntrySignature_def
      size_consts appendEntry_def putMember_def demoList_def)

lemma demo_request [simp]:
  "requestVerify demoEd (signedBy demoCaller (demoRequest n)) demoKey demoSignature 0 = Inr ()"
  by (simp add: requestVerify_def signedBy_def demoRequest_def size_consts withinSkew_def)

lemma demo_clock [simp]: "demoClock i = 0"
  by (simp add: demoClock_def)

lemma demo_caller [simp]: "\<not> callerMissing demoCaller" "caOwnerKey demoCaller = ''owner''"
  "caTokenDeviceID demoCaller = ''token''" "rqSignature (demoRequest n) = demoSignature" "rqNonce (demoRequest n) = demoNonce n"
  by (simp_all add: callerMissing_def demoCaller_def demoRequest_def)

lemma unix_zero [simp]: "unix 0 = 0" "goUnix 0 = 0"
  by (simp_all add: unix_def goUnix_def)

lemmas run_defs = keeperUpdate_def storeUpdate_def trackNonce_def respendNonce_def bindE_def tryE_def readT_def writeT_def
  ret_def raise_def liftE_def rejectIf_def innerWrite_def nonceRecordNonce_def recordNonce_def verifyRequest_def invalid_def Let_def

lemmas mem_defs = memTx_def memVaultByOwner_def found_def memRecordNonce_def memInsertVault_def memAppendDeviceListEntry_def
  entriesOf_def memPutDevice_def newState_def

lemma demo_epoch [simp]: "Epoch demoList = 1" "Head demoList = 1"
  by (simp_all add: Epoch_def Head_def demoList_def)

lemma demo_create:
  "svcCreateVault memTx demoEd demoClock demoCaller (demoRequest 1) demoEntry newState = (Inr demoVault, demoCreated)"
  by (simp add: svcCreateVault_def createVaultTx_def run_defs mem_defs ownerScope_def demoVault_def demoCreated_def
      demoDevice_def RequestNonceRetention_def)

lemma demoHeader_sel [simp]:
  "hVaultID demoHeader = demoVaultID" "hDeviceID demoHeader = demoDeviceID" "hRevision demoHeader = 1" "hVaultEpoch demoHeader = 1"
  "hDeviceListIndex demoHeader = 1" "hDeviceListDigest demoHeader = entryDigest demoEntry" "hPreviousDigest demoHeader = []"
  "hSignature demoHeader = demoSignature" "hVersion demoHeader = VersionV3" "hCiphertextLength demoHeader = 16"
  by (simp_all add: demoHeader_def)

lemma demo_header_fields [simp]:
  "validDigest (entryDigest demoEntry)" "validDigest (hCiphertextDigest demoHeader)" "isOk (decodeCanonical (hNonce demoHeader) 24)"
  by (auto simp: demoHeader_def validDigest_iff entryDigest_def digest_def decodeCanonical_iff isOk_iff)

lemma demoHeader_valid [simp]: "headerValidate demoHeader = Inr ()"
  by (simp add: headerValidate_def size_consts MaxCiphertextBytes_def)

lemma demo_cipher_ok [simp]: "VerifyCiphertext demoHeader demoCipher = Inr ()"
  by (auto simp: VerifyCiphertext_def demoHeader_def demoCipher_def size_consts decodeCanonical_iff split: sum.splits)

lemma demo_header_ok [simp]: "VerifyHeader demoEd demoList None demoHeader = Inr ()"
  by (simp add: VerifyHeader_def DigestAt_def EpochAt_def MemberAt_def memberAt_def verifyPrevious_def size_consts)
    (simp add: demoList_def memberFromEntry_def memberAt_def size_consts)

lemma demo_receipt [simp]: "receiptSign demoEd k r = replicate 64 0"
  by (simp add: receiptSign_def demoEd_def)

lemma demo_load:
  "msEntries s = [(demoVaultID, [demoEntry])] \<Longrightarrow>
     loadList (nonceTx memTx) demoEd demoVaultID (s, sp) = (Inr demoList, (s, sp))"
  using demo_verify
  by (simp add: loadList_def loadLoop.simps memTx_def memDeviceListEntries_def entriesOf_def MaxEntriesPerPage_def
      run_defs VerifyDeviceList_def split: sum.splits)

lemma demo_nonce [simp]:
  "key [demoVaultID @ CHR ''/'' # demoDeviceID, demoNonce 2] \<noteq> key [''owner/owner'', demoNonce 1]"
  by (simp add: key_def demoVaultID_def)

lemma demo_cipher_length [simp]: "length demoCipher = 16"
  by (simp add: demoCipher_def)

lemmas mem_read_defs = memDeviceByToken_def preferDevice_def zeroDevice_def memCiphertextBytes_def memVaultByOwner_def found_def
  ciphertextsOf_def headersOf_def memInsertHeader_def memPutCiphertext_def memUpdateVault_def memRecordNonce_def memPruneHeaders_def newState_def

lemma demo_upload:
  "svcUpload memTx demoEd demoConfig demoClock demoCaller (demoRequest 2) demoHeader demoCipher demoCreated =
     (Inr \<lparr>acHeader = demoStored, acVault = demoVault\<lparr>vCurrentRevision := 1\<rparr>, acReceipt = demoSignature\<rparr>, demoUploaded)"
  by (simp add: svcUpload_def uploadTx_def signedActor_def actorFor_def requireActivated_def requireApproved_def demo_load
     uploadPrevious_def uploadStore_def makeRoom_def evictLoop.simps uploadReceipt_def run_defs mem_read_defs RequestNonceRetention_def demoUploaded_def demoStored_def
     demoCreated_def demoVault_def demoDevice_def demoConfig_def actorScope_def second_def demo_nonce [symmetric])
    (simp add: demoSignature_def)

end
