(* ===== verification/Scenario_Pairing.thy ===== *)
theory Scenario_Pairing
  imports Scenario
begin

text \<open>
  The run goes on: a second device pairs with the vault, is approved and is removed again.
\<close>

definition demoOtherID :: string where "demoOtherID = ''device-000000002''"

definition demoOther :: Caller where
  "demoOther = \<lparr>caOwnerKey = ''owner'', caTokenDeviceID = ''token2'', caToken = ''secret2''\<rparr>"

definition demoOffer :: PairingOffer where
  "demoOffer = \<lparr>ofDeviceID = demoOtherID, ofSigningKey = demoKey, ofPackageKey = demoKey, ofMessage = [1]\<rparr>"

definition demoPairing :: Pairing where
  "demoPairing = \<lparr>gVaultID = demoVaultID, gDeviceID = demoOtherID, gTokenDeviceID = ''token2'', gSigningKey = demoKey,
     gPackageKey = demoKey, gOffer = [1], gAnswer = [], gConfirm = [], gState = PairingOffered,
     gExpiresAt = PairingLifetime, gCreatedAt = 0\<rparr>"

definition demoScope :: "string \<Rightarrow> string" where "demoScope i = demoVaultID @ ''/'' @ i"

definition demoPaired :: "Pairing \<Rightarrow> (string \<times> gotime) list \<Rightarrow> mstate" where
  "demoPaired g ns = demoUploaded\<lparr>msPairings := [(key [demoVaultID, demoOtherID], g)], msNonces := msNonces demoUploaded @ ns\<rparr>"

abbreviation demoSpent :: "string \<Rightarrow> 8 word \<Rightarrow> string \<times> gotime" where
  "demoSpent sc n \<equiv> (key [sc, demoNonce n], 660 * second)"

abbreviation "demoAnswered \<equiv> demoPairing\<lparr>gAnswer := [2], gState := PairingAnswered\<rparr>"
abbreviation "demoConfirmed \<equiv> demoPairing\<lparr>gAnswer := [2], gState := PairingConfirmed, gConfirm := [3]\<rparr>"

lemma demo_other [simp]: "\<not> callerMissing demoOther" "caOwnerKey demoOther = ''owner''"
  "caTokenDeviceID demoOther = ''token2''" "opaqueID demoOtherID" "demoOtherID \<noteq> demoDeviceID" "demoDeviceID \<noteq> demoOtherID"
  by (simp_all add: callerMissing_def demoOther_def opaqueID_def opaque_char_def url_alphabet_def demoOtherID_def demoDeviceID_def)

lemma demo_other_request [simp]:
  "requestVerify demoEd (signedBy demoOther (demoRequest n)) demoKey demoSignature 0 = Inr ()"
  by (simp add: requestVerify_def signedBy_def demoRequest_def size_consts withinSkew_def)

lemma demoNonce_eq [simp]: "demoNonce m = demoNonce n \<longleftrightarrow> m = n"
  by (simp add: demoNonce_def)

lemma key_nonce [simp]: "key [sc, demoNonce m] = key [sc, demoNonce n] \<longleftrightarrow> m = n"
  by (simp add: key_def)

lemma key_owner [simp]:
  "key [''owner/owner'', demoNonce m] \<noteq> key [demoScope i, demoNonce n]"
  "key [demoScope i, demoNonce n] \<noteq> key [''owner/owner'', demoNonce m]"
  by (simp_all add: key_def demoScope_def demoVaultID_def)

lemma key_devices [simp]:
  "key [demoScope demoDeviceID, demoNonce m] \<noteq> key [demoScope demoOtherID, demoNonce n]"
  "key [demoScope demoOtherID, demoNonce n] \<noteq> key [demoScope demoDeviceID, demoNonce m]"
  by (simp_all add: key_def demoScope_def demoDeviceID_def demoOtherID_def)

lemma key_rows [simp]:
  "key [demoVaultID, demoDeviceID] \<noteq> key [demoVaultID, demoOtherID]"
  "key [demoVaultID, demoOtherID] \<noteq> key [demoVaultID, demoDeviceID]"
  by (simp_all add: key_def)

lemma demoPairing_sel [simp]:
  "gVaultID demoPairing = demoVaultID" "gDeviceID demoPairing = demoOtherID" "gTokenDeviceID demoPairing = ''token2''"
  "gSigningKey demoPairing = demoKey" "gPackageKey demoPairing = demoKey" "gState demoPairing = PairingOffered"
  "gExpiresAt demoPairing = PairingLifetime"
  by (simp_all add: demoPairing_def)

lemma demo_actor_scope: "actorScope \<lparr>aVault = x, aDevice = d, aPairing = g\<rparr> = vID x @ ''/'' @ dDeviceID d"
  by (simp add: actorScope_def)

lemma demo_scope_fold: "demoVaultID @ CHR ''/'' # i = demoScope i"
  by (simp add: demoScope_def)

lemmas demo_state_defs = demoPaired_def demoUploaded_def demoCreated_def newState_def

lemmas demo_eval = signedActor_def actorFor_def requireActivated_def requireApproved_def run_defs found_def
  memDeviceByToken_def preferDevice_def zeroDevice_def memVaultByOwner_def memRecordNonce_def memPairingByToken_def
  memPairing_def memPutPairing_def memPutDevice_def memUpdateVault_def memDevice_def pairingActor_def
  RequestNonceRetention_def demoVault_def demoDevice_def second_def demo_actor_scope demo_scope_fold
  PairingLifetime_def badMessage_def MaxPairingMessageBytes_def

lemma demoOffer_sel [simp]:
  "ofDeviceID demoOffer = demoOtherID" "ofSigningKey demoOffer = demoKey" "ofPackageKey demoOffer = demoKey" "ofMessage demoOffer = [1]"
  by (simp_all add: demoOffer_def)

lemma demo_zeros [simp]:
  "isOk (decodeCanonicalRange (EncodeToString (replicate 40 0)) 40 256)"
  "isOk (decodeCanonicalRange (EncodeToString (replicate 16 0)) 16 n) \<longleftrightarrow> 16 \<le> n"
  "validDigest (EncodeToString (replicate 32 0))"
  by (auto simp: isOk_Canonical_iff validDigest_iff)

lemma demo_probe [simp]: "vID x = demoVaultID \<Longrightarrow> vEpoch x = 1 \<Longrightarrow> entryValidate (offerProbe x demoOffer) = Inr ()"
  by (simp add: entryValidate_def entryValidateKind_def size_consts offerProbe_def kind_defs)

lemma demo_begin:
  "svcBeginPairing memTx demoEd demoClock demoOther (demoRequest 3) demoOffer demoUploaded =
     (Inr (), demoPaired demoPairing [demoSpent ''owner/owner'' 3])"
  by (simp add: svcBeginPairing_def beginPairingTx_def demo_eval ownerScope_def demo_state_defs
     memPurgeExpired_def memPairings_def delete_where_def MaxPendingPairings_def demoPairing_def)

lemma demo_answer:
  "svcAnswerPairing memTx demoEd demoClock demoCaller (demoRequest 4) demoOtherID [2]
     (demoPaired demoPairing [demoSpent ''owner/owner'' 3]) =
     (Inr (), demoPaired demoAnswered [demoSpent ''owner/owner'' 3, demoSpent (demoScope demoDeviceID) 4])"
  by (simp add: svcAnswerPairing_def answerPairingTx_def demo_eval demo_state_defs)

lemma demo_confirm:
  "svcConfirmPairing memTx demoEd demoClock demoOther (demoRequest 5) [3]
     (demoPaired demoAnswered [demoSpent ''owner/owner'' 3, demoSpent (demoScope demoDeviceID) 4]) =
     (Inr (), demoPaired demoConfirmed [demoSpent ''owner/owner'' 3, demoSpent (demoScope demoDeviceID) 4, demoSpent (demoScope demoOtherID) 5])"
  by (simp add: svcConfirmPairing_def confirmPairingTx_def demo_eval demo_state_defs)

section \<open>The approval\<close>

definition demoAdd :: DeviceListEntry where
  "demoAdd = demoEntry\<lparr>eIndex := 2, ePreviousDigest := entryDigest demoEntry, eKind := EntryAdd, eSubjectDeviceID := demoOtherID\<rparr>"

definition demoPackage :: KeyPackageV3 where
  "demoPackage = \<lparr>pVaultID = demoVaultID, pSenderDeviceID = demoDeviceID, pRecipientDeviceID = demoOtherID, pVaultEpoch = 1,
     pEntryDigest = entryDigest demoAdd, pCiphertext = EncodeToString (replicate 16 0), pSignature = demoSignature\<rparr>"

definition demoPairedList :: DeviceList where
  "demoPairedList = \<lparr>lVaultID = demoVaultID,
     lMembers = [(demoDeviceID, memberFromEntry demoEntry), (demoOtherID, memberFromEntry demoAdd)],
     lDigests = [entryDigest demoEntry, entryDigest demoAdd], lEpochs = [1, 1]\<rparr>"

abbreviation demoPairingNonces :: "(string \<times> gotime) list" where
  "demoPairingNonces \<equiv> [demoSpent ''owner/owner'' 3, demoSpent (demoScope demoDeviceID) 4, demoSpent (demoScope demoOtherID) 5]"

definition demoOtherDevice :: Device where
  "demoOtherDevice = demoDevice\<lparr>dDeviceID := demoOtherID, dTokenDeviceID := ''token2'', dAddedIndex := 2, dActivatedEpoch := 0\<rparr>"

definition demoApproved :: mstate where
  "demoApproved = demoUploaded\<lparr>
     msVaults := [(demoVaultID, demoVault\<lparr>vCurrentRevision := 1, vHeadIndex := 2\<rparr>)],
     msDevices := [(key [demoVaultID, demoDeviceID], demoDevice), (key [demoVaultID, demoOtherID], demoOtherDevice)],
     msEntries := [(demoVaultID, [demoEntry, demoAdd])],
     msPackages := [(key [demoVaultID, demoOtherID], \<lparr>kPackage = demoPackage, kCreatedAt = 0\<rparr>)],
     msNonces := msNonces demoUploaded @ demoPairingNonces @ [demoSpent (demoScope demoDeviceID) 6]\<rparr>"

lemma demo_digest [simp]: "validDigest (entryDigest e)" "entryDigest e \<noteq> []"
  by (simp_all add: entryDigest_def)

lemma demoAdd_sel [simp]:
  "eVaultID demoAdd = demoVaultID" "eIndex demoAdd = 2" "ePreviousDigest demoAdd = entryDigest demoEntry" "eKind demoAdd = EntryAdd"
  "eSignerDeviceID demoAdd = demoDeviceID" "eSubjectDeviceID demoAdd = demoOtherID"
  "eSubjectSigningKey demoAdd = demoKey" "eSubjectPackageKey demoAdd = demoKey" "eEpochAfter demoAdd = 1"
  "eSnapshotFloor demoAdd = 0" "eSignature demoAdd = demoSignature" "eSealedLabel demoAdd = eSealedLabel demoEntry"
  by (simp_all add: demoAdd_def)

lemma demoAdd_valid [simp]: "entryValidate demoAdd = Inr ()"
  by (simp add: entryValidate_def entryValidateKind_def size_consts kind_defs)

lemma demo_add [simp]: "Extend demoEd demoList demoAdd = Inr demoPairedList"
  by (simp add: Extend_def extendAdd_def Head_def Epoch_def HeadDigest_def demoList_def checkedNext_def verifyEntrySignature_def
      memberFromEntry_def size_consts appendEntry_def putMember_def demoPairedList_def kind_defs Current_def MaxDevicesPerVault_def)

lemma demoPackage_sel [simp]:
  "pVaultID demoPackage = demoVaultID" "pSenderDeviceID demoPackage = demoDeviceID" "pRecipientDeviceID demoPackage = demoOtherID"
  "pVaultEpoch demoPackage = 1" "pEntryDigest demoPackage = entryDigest demoAdd"
  by (simp_all add: demoPackage_def)

lemma demoPackage_ok [simp]: "packageVerify demoEd demoPackage demoKey = Inr ()"
  by (simp add: packageVerify_def packageValidate_def demoPackage_def size_consts MaxEncryptedKeyPackageBytes_def)

lemma demo_approve:
  "svcApprove memTx demoEd demoClock demoCaller (demoRequest 6) demoAdd demoPackage (demoPaired demoConfirmed demoPairingNonces) =
     (Inr (), demoApproved)"
  by (simp add: svcApprove_def approveTx_def demo_eval demo_state_defs demo_load memAppendDeviceListEntry_def entriesOf_def
     memPutKeyPackage_def memDeletePairing_def demoApproved_def demoOtherDevice_def)

section \<open>The removal\<close>

definition demoRemove :: DeviceListEntry where
  "demoRemove = demoEntry\<lparr>eIndex := 3, ePreviousDigest := entryDigest demoAdd, eKind := EntryRemove, eSubjectDeviceID := demoOtherID,
     eSubjectSigningKey := [], eSubjectPackageKey := [], eSealedLabel := [], eEpochAfter := 2\<rparr>"

definition demoRemovedList :: DeviceList where
  "demoRemovedList = \<lparr>lVaultID = demoVaultID,
     lMembers = [(demoDeviceID, memberFromEntry demoEntry), (demoOtherID, (memberFromEntry demoAdd)\<lparr>mRemovedIndex := 3\<rparr>)],
     lDigests = [entryDigest demoEntry, entryDigest demoAdd, entryDigest demoRemove], lEpochs = [1, 1, 2]\<rparr>"

definition demoRemoved :: mstate where
  "demoRemoved = demoApproved\<lparr>
     msVaults := [(demoVaultID, demoVault\<lparr>vCurrentRevision := 1, vHeadIndex := 3, vEpoch := 2\<rparr>)],
     msDevices := [(key [demoVaultID, demoDeviceID], demoDevice\<lparr>dActivatedEpoch := 2\<rparr>),
       (key [demoVaultID, demoOtherID], demoOtherDevice\<lparr>dState := DeviceRevoked\<rparr>)],
     msEntries := [(demoVaultID, [demoEntry, demoAdd, demoRemove])], msPackages := [],
     msNonces := msNonces demoApproved @ [demoSpent (demoScope demoDeviceID) 7]\<rparr>"

lemma demoRemove_sel [simp]:
  "eVaultID demoRemove = demoVaultID" "eIndex demoRemove = 3" "ePreviousDigest demoRemove = entryDigest demoAdd"
  "eKind demoRemove = EntryRemove" "eSignerDeviceID demoRemove = demoDeviceID" "eSubjectDeviceID demoRemove = demoOtherID"
  "eSubjectSigningKey demoRemove = []" "eSubjectPackageKey demoRemove = []" "eEpochAfter demoRemove = 2"
  "eSnapshotFloor demoRemove = 0" "eSignature demoRemove = demoSignature" "eSealedLabel demoRemove = []"
  by (simp_all add: demoRemove_def)

lemma demoRemove_valid [simp]: "entryValidate demoRemove = Inr ()"
  by (simp add: entryValidate_def entryValidateKind_def size_consts kind_defs)

lemma demo_remove_list [simp]: "Extend demoEd demoPairedList demoRemove = Inr demoRemovedList"
  by (simp add: Extend_def extendRemove_def Head_def Epoch_def HeadDigest_def demoPairedList_def checkedNext_def verifyEntrySignature_def
      memberFromEntry_def size_consts appendEntry_def putMember_def demoRemovedList_def kind_defs)

lemma demo_first [simp]: "Extend demoEd NewDeviceList demoEntry = Inr demoList"
  using demo_verify by (simp add: VerifyDeviceList_def split: sum.splits)

lemma demo_load_paired:
  "msEntries s = [(demoVaultID, [demoEntry, demoAdd])] \<Longrightarrow>
     loadList (nonceTx memTx) demoEd demoVaultID (s, sp) = (Inr demoPairedList, (s, sp))"
  by (simp add: loadList_def loadLoop.simps memTx_def memDeviceListEntries_def entriesOf_def MaxEntriesPerPage_def
      run_defs VerifyDeviceList_def split: sum.splits)

lemma demo_removed_current [simp]: "Current demoRemovedList = [memberFromEntry demoEntry]"
  by (simp add: Current_def demoRemovedList_def memberFromEntry_def)

lemma demo_remove:
  "svcRemove memTx demoEd demoClock demoCaller (demoRequest 7) demoRemove [] demoApproved = (Inr (), demoRemoved)"
  by (simp add: svcRemove_def rekey_def rekeyTx_def demo_eval demo_state_defs demo_load_paired memAppendDeviceListEntry_def entriesOf_def
     memDeletePairing_def demoApproved_def demoOtherDevice_def demoRemoved_def memberFromEntry_def memDeleteKeyPackages_def
     memDeleteCheckpoint_def memDevices_def memPairings_def rekeyDevice_def delete_where_def)

section \<open>The run\<close>

definition demoCheckpoint :: Checkpoint where
  "demoCheckpoint = \<lparr>cVersion = VersionV3, cVaultID = demoVaultID, cDeviceID = demoDeviceID, cDeviceListIndex = 1, cDeviceListDigest = entryDigest demoEntry,
     cHeaderRevision = 0, cHeaderDigest = [], cObservedAt = 1, cSignature = demoSignature\<rparr>"

lemma demoCheckpoint_sel [simp]: "cVaultID demoCheckpoint = demoVaultID" "cDeviceID demoCheckpoint = demoDeviceID" "cObservedAt demoCheckpoint = 1"
  by (simp_all add: demoCheckpoint_def)

lemma demoCheckpoint_ok [simp]: "checkpointVerify demoEd demoCheckpoint demoKey = Inr ()" "WithinRequestSkew 1 0"
  by (simp_all add: checkpointVerify_def checkpointValidate_def demoCheckpoint_def size_consts WithinRequestSkew_def withinSkew_def RequestTimestampSkew_def)

lemma demo_budget [simp]: "cfByteBudget demoConfig = 1000"
  by (simp add: demoConfig_def)

lemma demo_ticks [simp]: "ticks 0 demoClock 0"
  by (simp add: ticks_def mono_def)

lemma demo_config [simp]: "config_ok demoConfig"
  by (simp add: config_ok_def demoConfig_def)

lemma demo_step:
  assumes "reaches memTx demoEd demoConfig (0, newState) (0, s)" "perform memTx demoEd demoConfig demoClock c s = (r, s')"
  shows "reaches memTx demoEd demoConfig (0, newState) (0, s')"
  by (rule reaches_call [OF assms(1) demo_ticks assms(2)])

lemma demo_run_created: "reaches memTx demoEd demoConfig (0, newState) (0, demoCreated)"
  by (rule demo_step [OF reaches_start, of "CreateVault demoCaller (demoRequest 1) demoEntry"]) (simp add: demo_create outcome_def)

lemma demo_run_uploaded: "reaches memTx demoEd demoConfig (0, newState) (0, demoUploaded)"
  by (rule demo_step [OF demo_run_created, of "Upload demoCaller (demoRequest 2) demoHeader demoCipher"]) (simp add: demo_upload outcome_def)

lemma demo_run_offered: "reaches memTx demoEd demoConfig (0, newState) (0, demoPaired demoPairing [demoSpent ''owner/owner'' 3])"
  by (rule demo_step [OF demo_run_uploaded, of "BeginPairing demoOther (demoRequest 3) demoOffer"]) (simp add: demo_begin outcome_def)

lemma demo_run_answered:
  "reaches memTx demoEd demoConfig (0, newState) (0, demoPaired demoAnswered [demoSpent ''owner/owner'' 3, demoSpent (demoScope demoDeviceID) 4])"
  by (rule demo_step [OF demo_run_offered, of "AnswerPairing demoCaller (demoRequest 4) demoOtherID [2]"]) (simp add: demo_answer outcome_def)

lemma demo_run_confirmed: "reaches memTx demoEd demoConfig (0, newState) (0, demoPaired demoConfirmed demoPairingNonces)"
  by (rule demo_step [OF demo_run_answered, of "ConfirmPairing demoOther (demoRequest 5) [3]"]) (simp add: demo_confirm outcome_def)

lemma demo_run_approved: "reaches memTx demoEd demoConfig (0, newState) (0, demoApproved)"
  by (rule demo_step [OF demo_run_confirmed, of "Approve demoCaller (demoRequest 6) demoAdd demoPackage"]) (simp add: demo_approve outcome_def)

lemma demo_run_removed: "reaches memTx demoEd demoConfig (0, newState) (0, demoRemoved)"
  by (rule demo_step [OF demo_run_approved, of "Remove demoCaller (demoRequest 7) demoRemove []"]) (simp add: demo_remove outcome_def)

end
