(* ===== verification/Properties_Service.thy ===== *)
theory Properties_Service
  imports Scenario_Pairing
begin

text \<open>
  The properties of the sync service over the in-memory store.  Each is stated for the states that
  some sequence of calls reaches from the empty store, and comes with an instance on the run of the
  theories \<open>Scenario\<close> and \<open>Scenario_Pairing\<close>.
\<close>

text \<open>A state that some sequence of calls reaches.\<close>

abbreviation reachable :: "ed25519 \<Rightarrow> Config \<Rightarrow> gotime \<Rightarrow> mstate \<Rightarrow> bool" where
  "reachable ed cf now s \<equiv> config_ok cf \<and> reaches memTx ed cf (0, newState) (now, s)"

lemma reachable_inv: "reachable ed cf now s \<Longrightarrow> minv s \<and> sinv ed cf (mview s)"
  using mem_reaches by blast

lemmas reachable_ok = conjunct1 [OF reachable_inv] conjunct2 [OF reachable_inv]

text \<open>
  C1.  In every state the service reaches, each stored vault has a device list that verifies and
  whose members are the device rows, headers that form a signed, linked chain up to the current
  revision, ciphertexts that match their headers and fit the byte budget, key packages of the
  current epoch for current members, and at most three pairings in a proper state; and nothing is
  stored for a vault that does not exist.
\<close>

theorem reachable_vaults_ok:
  assumes "reachable ed cf now s"
  shows "(\<forall>v x. wVault (mview s) v = Some x \<longrightarrow> (\<exists>l. vault_inv ed cf (mview s) v x l)) \<and>
    (\<forall>v. wVault (mview s) v = None \<longrightarrow> no_vault (mview s) v)"
  using reachable_inv [OF assms] unfolding sinv_def by blast

theorem reachable_vaults_ok_witness:
  "\<exists>l. vault_inv demoEd demoConfig (mview demoRemoved) demoVaultID (demoVault\<lparr>vCurrentRevision := 1, vHeadIndex := 3, vEpoch := 2\<rparr>) l"
  using reachable_vaults_ok [of demoConfig demoEd 0 demoRemoved] demo_run_removed
  by (simp add: mview_def demoRemoved_def demo_state_defs demoApproved_def)

text \<open>
  C2.  A successful upload was made by an approved and activated device of the caller's vault.  It
  raises the revision by one without wrapping around, stores the header and the ciphertext under
  that revision and the new vault row, leaves the devices and the device list alone, and touches
  no other vault.
\<close>

theorem upload_stores:
  assumes "reachable ed cf now s" "svcUpload memTx ed cf clk ca rq h c s = (Inr acc, s')"
  shows "(\<exists>x d. acting_device (mview s) ca (hVaultID h) (hDeviceID h) x d \<and>
      unat (hRevision h) = unat (vCurrentRevision x) + 1 \<and>
      acVault acc = x\<lparr>vCurrentRevision := hRevision h, vUpdatedAt := clk 4\<rparr>) \<and>
    shHeader (acHeader acc) = h \<and> wVault (mview s') (hVaultID h) = Some (acVault acc) \<and>
    wHeader (mview s') (hVaultID h) (hRevision h) = Some (acHeader acc) \<and>
    wCipher (mview s') (hVaultID h) (hRevision h) = Some c \<and>
    wDevice (mview s') = wDevice (mview s) \<and> wEntries (mview s') = wEntries (mview s) \<and>
    (\<forall>u. u \<noteq> hVaultID h \<longrightarrow> same_vault (mview s) (mview s') u)"
proof (rule mem.svcUpload_ok [OF reachable_ok [OF assms(1)] _ assms(2)])
  show "config_ok cf" using assms(1) by simp
next
  fix x d
  assume *: "acting_device (mview s) ca (hVaultID h) (hDeviceID h) x d" "vCurrentRevision x \<noteq> -1"
    "hRevision h = vCurrentRevision x + 1" "acVault acc = x\<lparr>vCurrentRevision := hRevision h, vUpdatedAt := clk 4\<rparr>"
    "shHeader (acHeader acc) = h" "wVault (mview s') (hVaultID h) = Some (acVault acc)"
    "wHeader (mview s') (hVaultID h) (hRevision h) = Some (acHeader acc)" "wCipher (mview s') (hVaultID h) (hRevision h) = Some c"
    "wDevice (mview s') = wDevice (mview s)" "wEntries (mview s') = wEntries (mview s)"
    "\<And>u. u \<noteq> hVaultID h \<Longrightarrow> same_vault (mview s) (mview s') u"
  have "unat (hRevision h) = unat (vCurrentRevision x) + 1" using *(2) by (simp add: *(3) unat_u64_Suc)
  with * show ?thesis by blast
qed

theorem upload_stores_witness:
  "wCipher (mview demoUploaded) demoVaultID 1 = Some demoCipher"
  using upload_stores [of demoConfig demoEd 0 demoCreated demoClock demoCaller "demoRequest 2" demoHeader demoCipher]
    demo_run_created demo_upload by simp

text \<open>
  C3.  What a device uploads is what it reads back: after a successful upload the snapshot call of
  the same caller, at any later reading of the clock, returns the accepted header, the ciphertext
  and the vault row, and changes nothing.
\<close>

theorem upload_then_snapshot:
  assumes "reachable ed cf now s" "svcUpload memTx ed cf clk ca rq h c s = (Inr acc, s')"
  shows "svcSnapshot memTx clk' ca s' =
    (Inr \<lparr>snapHeader = acHeader acc, snapCiphertext = c, snapVault = acVault acc\<rparr>, s')"
  by (rule memr.upload_snapshot [OF reachable_ok [OF assms(1)] _ assms(2)]) (use assms(1) in simp)

theorem upload_then_snapshot_witness:
  "svcSnapshot memTx demoClock demoCaller demoUploaded =
    (Inr \<lparr>snapHeader = demoStored, snapCiphertext = demoCipher, snapVault = demoVault\<lparr>vCurrentRevision := 1\<rparr>\<rparr>, demoUploaded)"
  using upload_then_snapshot [OF _ demo_upload] demo_run_created by simp

text \<open>
  C4.  Every page of headers the service returns is a chain the client's own check accepts against
  the stored device list, also when it continues from a header the client already has; the call
  changes nothing and the page is at most 500 headers.
\<close>

theorem served_headers_verify:
  assumes "reachable ed cf now s" "svcHeaders memTx clk ca after limit s = (Inr hs, s')"
  shows "s' = s \<and> int (length hs) \<le> MaxHeadersPerPage \<and>
    (\<exists>x l. wVault (mview s) (vID x) = Some x \<and> vOwnerKey x = caOwnerKey ca \<and>
      VerifyDeviceList ed (wEntries (mview s) (vID x)) = Inr l \<and>
      VerifyHeaderChain ed l None (map shHeader hs) = Inr () \<and>
      (\<forall>g. wHeader (mview s) (vID x) after = Some g \<longrightarrow>
         VerifyHeaderChain ed l (Some (shHeader g)) (map shHeader hs) = Inr ()))"
proof (rule mem.headers_served [OF reachable_ok [OF assms(1)] assms(2)])
  fix x l
  assume *: "s' = s" "wVault (mview s) (vID x) = Some x" "vOwnerKey x = caOwnerKey ca"
    "VerifyDeviceList ed (wEntries (mview s) (vID x)) = Inr l" "int (length hs) \<le> MaxHeadersPerPage"
    "\<And>p. before_page (wHeader (mview s) (vID x)) after p \<Longrightarrow> VerifyHeaderChain ed l p (map shHeader hs) = Inr ()"
  then show ?thesis using *(6) [of None] *(6) by (intro conjI exI [of _ x] exI [of _ l]) (auto simp: before_page_def)
qed

theorem served_headers_verify_witness:
  "\<exists>x l. wVault (mview demoUploaded) (vID x) = Some x \<and> vOwnerKey x = ''owner'' \<and>
      VerifyDeviceList demoEd (wEntries (mview demoUploaded) (vID x)) = Inr l \<and>
      VerifyHeaderChain demoEd l None [demoHeader] = Inr ()"
proof -
  have "svcHeaders memTx demoClock demoCaller 0 10 demoUploaded = (Inr [demoStored], demoUploaded)"
    by (simp add: svcHeaders_def keeperView_def storeView_def headersTx_def demo_eval demo_state_defs memHeaders_def headersOf_def
        clamp_def MaxHeadersPerPage_def demoStored_def)
  from served_headers_verify [OF _ this, where cf = demoConfig and ed = demoEd and now = 0] demo_run_uploaded
  show ?thesis by (auto simp: demoStored_def)
qed



text \<open>
  C6.  A verified request is not verified again: in any state that later calls reach, a request for
  the same vault and device with the same nonce and timestamp is refused, for every actor it could
  be attributed to.  The hypotheses on the clock are that it is between 1970 and the year 2262 and
  that less than 59 seconds pass between two readings within one call, the margin between the
  retention of a nonce and twice the accepted skew.
\<close>

theorem request_not_replayed:
  assumes "reachable ed cf now s" "device_call c = Some (ca, rq)" "verified memTx ed clk ca rq s a"
    and "perform memTx ed cf clk c s = (r, s1)" "0 \<le> t0" "ticks t0 clk t1"
    and "reaches memTx ed cf (t1, s1) (t2, s2)" "ticks t2 clk' t3" "t3 < 2 ^ 63 * second" "clk' 3 < clk' 1 + 59 * second"
    and "actorScope a' = actorScope a" "rqNonce rq' = rqNonce rq" "rqTimestamp rq' = rqTimestamp rq"
  shows "\<not> verified memTx ed clk' ca' rq' s2 a'"
  using mem.no_replay [OF _ reachable_ok [OF assms(1)] assms(2-10) _ assms(11-13)] assms(1) by blast

theorem request_not_replayed_witness:
  "\<not> verified memTx demoEd demoClock demoCaller (demoRequest 2) demoUploaded
     \<lparr>aVault = demoVault, aDevice = demoDevice, aPairing = None\<rparr>"
proof (rule request_not_replayed [of demoConfig demoEd 0 demoCreated "Upload demoCaller (demoRequest 2) demoHeader demoCipher"
      demoCaller "demoRequest 2" demoClock "\<lparr>aVault = demoVault, aDevice = demoDevice, aPairing = None\<rparr>"])
  show "verified memTx demoEd demoClock demoCaller (demoRequest 2) demoCreated \<lparr>aVault = demoVault, aDevice = demoDevice, aPairing = None\<rparr>"
    by (simp add: verified_def demo_eval demo_state_defs)
  show "perform memTx demoEd demoConfig demoClock (Upload demoCaller (demoRequest 2) demoHeader demoCipher) demoCreated = (Inr (), demoUploaded)"
    by (simp add: demo_upload outcome_def)
  show "ticks 0 demoClock 0" "ticks 0 demoClock 0" by simp_all
  show "reaches memTx demoEd demoConfig (0, demoUploaded) (0, demoUploaded)" by (rule reaches_start)
qed (use demo_run_created in \<open>simp_all add: second_def\<close>)



text \<open>
  C8.  A call that returns an error leaves every vault exactly as it was: its device list, devices,
  key packages, headers, ciphertexts, pairings and checkpoints.
\<close>

theorem failed_call_changes_nothing:
  assumes "reachable ed cf now s" "perform memTx ed cf clk c s = (Inl e, s')"
  shows "same_vault (mview s) (mview s') v"
  by (rule mem.perform_err [OF reachable_ok(1) [OF assms(1)] assms(2)])

theorem failed_call_changes_nothing_witness:
  "same_vault (mview demoCreated)
     (mview (snd (perform memTx demoEd demoConfig demoClock (Reset demoCaller (demoRequest 2) 7) demoCreated))) demoVaultID"
  by (rule failed_call_changes_nothing [of demoConfig demoEd 0 _ demoClock "Reset demoCaller (demoRequest 2) 7" ErrConflict])
    (use demo_run_created in \<open>simp_all add: svcReset_def resetTx_def outcome_def demo_eval demo_state_defs\<close>)

text \<open>
  C9.  Accounts are isolated: a call made for one account, successful or not, keeps everything
  stored for the vault of another account, except that pairings which had expired may be purged.
\<close>

theorem accounts_isolated:
  assumes "reachable ed cf now s" "call_owner c = Some own" "perform memTx ed cf clk c s = (r, s')"
    and "wVault (mview s) v = Some x" "vOwnerKey x \<noteq> own"
  shows "spared clk (mview s) (mview s') v"
  by (rule mem.perform_spares [OF reachable_ok [OF assms(1)] assms(2) _ assms(3)])
    (use assms(4,5) in \<open>simp add: foreign_def\<close>)

theorem accounts_isolated_witness:
  "spared demoClock (mview demoUploaded)
     (mview (snd (perform memTx demoEd demoConfig demoClock (AdminReset ''other'') demoUploaded))) demoVaultID"
  by (rule accounts_isolated [of demoConfig demoEd 0 _ "AdminReset ''other''" "''other''" demoClock
        "fst (perform memTx demoEd demoConfig demoClock (AdminReset ''other'') demoUploaded)" _ _ "demoVault\<lparr>vCurrentRevision := 1\<rparr>"])
    (use demo_run_uploaded in \<open>simp_all add: mview_def demo_state_defs demoVault_def\<close>)

text \<open>
  C10.  A call that a device or a pairing signs succeeds only for a caller whose account owns the
  vault and whose token is that of an approved device or of a pairing that has not expired.
\<close>

theorem only_live_callers:
  assumes "reachable ed cf now s" "device_call c = Some (ca, rq)" "perform memTx ed cf clk c s = (Inr u, s')"
  shows "\<exists>x. wVault (mview s) (vID x) = Some x \<and> vOwnerKey x = caOwnerKey ca \<and>
    ((\<exists>d. wDevice (mview s) (vID x) (dDeviceID d) = Some d \<and> dTokenDeviceID d = caTokenDeviceID ca \<and> dState d = DeviceApproved) \<or>
     (\<exists>g. wPairing (mview s) (vID x) (gDeviceID g) = Some g \<and> gTokenDeviceID g = caTokenDeviceID ca \<and> clk 0 < gExpiresAt g))"
  by (rule live_callerD [OF mem.perform_live_caller [OF reachable_ok [OF assms(1)] assms(2,3)]])

theorem only_live_callers_witness:
  "\<exists>x. wVault (mview demoCreated) (vID x) = Some x \<and> vOwnerKey x = ''owner'' \<and>
    ((\<exists>d. wDevice (mview demoCreated) (vID x) (dDeviceID d) = Some d \<and> dTokenDeviceID d = ''token'' \<and> dState d = DeviceApproved) \<or>
     (\<exists>g. wPairing (mview demoCreated) (vID x) (gDeviceID g) = Some g \<and> gTokenDeviceID g = ''token'' \<and> 0 < gExpiresAt g))"
  using only_live_callers [of demoConfig demoEd 0 demoCreated "Upload demoCaller (demoRequest 2) demoHeader demoCipher"
      demoCaller "demoRequest 2" demoClock "()" demoUploaded] demo_run_created
  by (simp add: demo_upload outcome_def)

end
