(* ===== verification/Properties_Vault.thy ===== *)
theory Properties_Vault
  imports Properties_Service Service_Live
begin

text \<open>
  Properties of single operations of the service over the in-memory store: approval, rekeying,
  checkpoints, the loops over stored data, the bounds on what is stored, and the storage itself.
\<close>

text \<open>
  C11.  A device joins a vault only through a confirmed pairing that has not expired: an approval
  that succeeds was made by an approved and activated device, names exactly the keys of the
  pairing, stores the new device for the pairing's token, not yet activated, with the entry that
  adds it and the key package the approver signed for it, and uses the pairing up.
\<close>

theorem approve_needs_confirmed_pairing:
  assumes "reachable ed cf now s" "svcApprove memTx ed clk ca rq e p s = (Inr u, s')"
  shows "\<exists>x d g. acting_device (mview s) ca (eVaultID e) (eSignerDeviceID e) x d \<and>
    wPairing (mview s) (eVaultID e) (eSubjectDeviceID e) = Some g \<and> gState g = PairingConfirmed \<and> clk 4 < gExpiresAt g \<and>
    gSigningKey g = eSubjectSigningKey e \<and> gPackageKey g = eSubjectPackageKey e \<and>
    wDevice (mview s') (eVaultID e) (eSubjectDeviceID e) = Some (approvedDevice clk e g) \<and>
    wEntries (mview s') (eVaultID e) = wEntries (mview s) (eVaultID e) @ [e] \<and>
    wPackage (mview s') (eVaultID e) (eSubjectDeviceID e) = Some \<lparr>kPackage = p, kCreatedAt = clk 5\<rparr> \<and>
    packageVerify ed p (dSigningKey d) = Inr () \<and> wPairing (mview s') (eVaultID e) (eSubjectDeviceID e) = None"
  by (rule mem.svcApprove_ok [OF reachable_ok [OF assms(1)] assms(2)]) blast

theorem approve_needs_confirmed_pairing_witness:
  "\<exists>g. wPairing (mview (demoPaired demoConfirmed demoPairingNonces)) demoVaultID demoOtherID = Some g \<and> gState g = PairingConfirmed \<and>
     wDevice (mview demoApproved) demoVaultID demoOtherID = Some (approvedDevice demoClock demoAdd g)"
  using approve_needs_confirmed_pairing [OF _ demo_approve, where cf = demoConfig and now = 0] demo_run_confirmed
  by auto



text \<open>
  C13.  A checkpoint that is accepted was signed by the calling device for its own row, and is newer
  than the one it replaces: its observation time is strictly later, and neither its device list
  index nor its header revision goes back.
\<close>

theorem checkpoints_advance:
  assumes "reachable ed cf now s" "svcPutCheckpoint memTx ed clk ca rq c s = (Inr sc, s')"
  shows "scCheckpoint sc = c \<and> wCheckpoint (mview s') (cVaultID c) (cDeviceID c) = Some sc \<and>
    (\<exists>x d. acting_device (mview s) ca (cVaultID c) (cDeviceID c) x d \<and> checkpointVerify ed c (dSigningKey d) = Inr ()) \<and>
    (\<forall>p. wCheckpoint (mview s) (cVaultID c) (cDeviceID c) = Some p \<longrightarrow>
       cObservedAt (scCheckpoint p) < cObservedAt c \<and> cDeviceListIndex (scCheckpoint p) \<le> cDeviceListIndex c \<and>
       cHeaderRevision (scCheckpoint p) \<le> cHeaderRevision c)"
  by (rule mem.svcPutCheckpoint_ok [OF reachable_ok(1) [OF assms(1)] assms(2)]) blast

theorem checkpoints_advance_witness:
  "wCheckpoint (mview (snd (svcPutCheckpoint memTx demoEd demoClock demoCaller (demoRequest 8) demoCheckpoint demoUploaded)))
     demoVaultID demoDeviceID = Some \<lparr>scCheckpoint = demoCheckpoint, scAcceptedAt = 0\<rparr>"
proof -
  have run: "fst (svcPutCheckpoint memTx demoEd demoClock demoCaller (demoRequest 8) demoCheckpoint demoUploaded) =
    Inr \<lparr>scCheckpoint = demoCheckpoint, scAcceptedAt = 0\<rparr>"
    by (simp add: svcPutCheckpoint_def putCheckpointTx_def demo_eval demo_state_defs memCheckpoint_def memPutCheckpoint_def)
  then have "svcPutCheckpoint memTx demoEd demoClock demoCaller (demoRequest 8) demoCheckpoint demoUploaded =
    (Inr \<lparr>scCheckpoint = demoCheckpoint, scAcceptedAt = 0\<rparr>,
     snd (svcPutCheckpoint memTx demoEd demoClock demoCaller (demoRequest 8) demoCheckpoint demoUploaded))"
    by (metis prod.collapse)
  from checkpoints_advance [OF _ this, where cf = demoConfig and now = 0] demo_run_uploaded
  show ?thesis by simp
qed

text \<open>
  C14.  Loading the stored device list always ends and returns the verified list: in a reachable
  state \<open>loadList\<close> neither reports a broken stored list nor runs out of pages, and changes nothing.
\<close>

theorem load_list_returns:
  assumes "reachable ed cf now s" "wVault (mview s) v = Some x"
  shows "\<exists>l. loadList memTx ed v s = (Inr l, s) \<and> VerifyDeviceList ed (wEntries (mview s) v) = Inr l \<and>
    Head l = vHeadIndex x \<and> Epoch l = vEpoch x"
proof -
  obtain l where l: "vault_inv ed cf (mview s) v x l" using sinv_vault [OF reachable_ok(2) [OF assms(1)] assms(2)] by blast
  then have "VerifyDeviceList ed (wEntries (mview s) v) = Inr l" by (simp only: vault_inv_def)
  with memt.loadList_total [OF reachable_ok(1) [OF assms(1)] this] l show ?thesis by (auto simp: vault_inv_def list_inv_def)
qed

theorem load_list_returns_witness:
  "\<exists>l. loadList memTx demoEd demoVaultID demoApproved = (Inr l, demoApproved) \<and> Head l = 2 \<and> Epoch l = 1"
  using load_list_returns [of demoConfig demoEd 0 demoApproved demoVaultID "demoVault\<lparr>vCurrentRevision := 1, vHeadIndex := 2\<rparr>"] demo_run_approved
  by (auto simp: demoApproved_def demo_state_defs demoVault_def)

text \<open>
  C15.  Making room always ends, and evicts exactly as far as it may: it succeeds when the incoming
  snapshot fits the budget together with the ciphertexts from the current revision on, and
  otherwise returns the quota error, never another one.
\<close>

theorem make_room_exact:
  assumes "reachable ed cf now s"
  shows "fst (makeRoom memTx cf x incoming s) =
    (if cipher_bytes (from_revision (vCurrentRevision x) (wCipher (mview s) (vID x))) + incoming \<le> cfByteBudget cf
     then Inr () else Inl ErrQuota)"
  by (rule memt.makeRoom_exact [OF reachable_ok(1) [OF assms]])

theorem make_room_exact_witness:
  "fst (makeRoom memTx demoConfig (demoVault\<lparr>vCurrentRevision := 1\<rparr>) 984 demoUploaded) = Inr () \<and>
   fst (makeRoom memTx demoConfig (demoVault\<lparr>vCurrentRevision := 1\<rparr>) 985 demoUploaded) = Inl ErrQuota"
proof -
  have "cipher_bytes (from_revision 1 (wCipher (mview demoUploaded) demoVaultID)) = 16"
    by (simp add: cipher_bytes_def from_revision_def ciphertextsOf_def demo_state_defs dom_def Collect_conv_if cong: if_cong)
  then show ?thesis
    using make_room_exact [of demoConfig demoEd 0 demoUploaded "demoVault\<lparr>vCurrentRevision := 1\<rparr>"] demo_run_uploaded
    by (simp add: demoVault_def)
qed

text \<open>
  C16.  What one account can make the service store is bounded: the ciphertexts of a vault never
  exceed the byte budget, it has at most three pending pairings and at most ten current devices.
\<close>

theorem storage_bounded:
  assumes "reachable ed cf now s" "wVault (mview s) v = Some x"
  shows "cipher_bytes (wCipher (mview s) v) \<le> cfByteBudget cf \<and> card (dom (wPairing (mview s) v)) \<le> MaxPendingPairings \<and>
    card {i. \<exists>d. wDevice (mview s) v i = Some d \<and> dState d = DeviceApproved} \<le> MaxDevicesPerVault"
proof -
  obtain l where l: "vault_inv ed cf (mview s) v x l" using sinv_vault [OF reachable_ok(2) [OF assms(1)] assms(2)] by blast
  with approved_bound [OF l] show ?thesis unfolding vault_inv_def cipher_inv_def pairing_inv_def by blast
qed

theorem storage_bounded_witness:
  "card (dom (wPairing (mview (demoPaired demoConfirmed demoPairingNonces)) demoVaultID)) \<le> MaxPendingPairings"
  using storage_bounded [of demoConfig demoEd 0 "demoPaired demoConfirmed demoPairingNonces" demoVaultID "demoVault\<lparr>vCurrentRevision := 1\<rparr>"]
    demo_run_confirmed
  by (simp add: demo_state_defs)

text \<open>
  C17.  Creating a vault succeeds whenever it should: the caller is authenticated and owns no vault
  yet, the identifier is free, the first entry verifies on its own, the request is signed by the key
  of that entry and its nonce is not in use.
\<close>

theorem create_vault_succeeds:
  assumes "reachable ed cf now s" "\<not> callerMissing ca"
    and "\<forall>v x. wVault (mview s) v = Some x \<longrightarrow> vOwnerKey x \<noteq> caOwnerKey ca" "wVault (mview s) (eVaultID e) = None"
    and "VerifyDeviceList ed [e] = Inr l"
    and "requestVerify ed (signedBy ca rq) (eSubjectSigningKey e) (rqSignature rq) (unix (clk 1)) = Inr ()"
    and "wNonce (mview s) (ownerScope ca) (rqNonce rq) = None"
  shows "\<exists>s'. svcCreateVault memTx ed clk ca rq e s = (Inr (createdVault clk ca e), s')"
  by (rule mem_create_succeeds [where clk = clk, OF reachable_ok [OF assms(1)] assms(2) _ assms(4-6)]) (use assms(3,7) in auto)

theorem create_vault_succeeds_witness:
  "\<exists>s'. svcCreateVault memTx demoEd demoClock demoCaller (demoRequest 1) demoEntry newState =
     (Inr (createdVault demoClock demoCaller demoEntry), s')"
  by (rule create_vault_succeeds [of demoConfig demoEd 0 _ _ _ demoList])
    (use reaches_start [of memTx demoEd demoConfig "(0, newState)"] in \<open>simp_all add: newState_def\<close>)

text \<open>
  C18.  The in-memory store implements the storage contract the service is proved against: every
  method does to the abstract tables what the contract says and keeps the store well formed.
\<close>

theorem memory_store_refines_contract: "sync_tx memTx mview minv"
  by (rule mem.sync_tx_axioms)





end
