(* ===== verification/Properties_Protocol.thy ===== *)
theory Properties_Protocol
  imports Properties_Vault
begin

text \<open>
  Properties of the protocol package: what the verification of a device list, of a chain of headers
  and of a signed message establishes.
\<close>

text \<open>
  C21.  A device list that verifies is well formed: its members are keyed by their own identifiers,
  were added before they were removed, and at most ten are current; its epochs start at one and
  never skip; and the entries are numbered from one without gaps, each naming the digest of the one
  before.
\<close>

theorem verified_list_well_formed:
  assumes "VerifyDeviceList ed es = Inr l"
  shows "list_wf l \<and> length es < 2 ^ 64 \<and> Head l = of_nat (length es) \<and>
    (\<forall>i. i < length es \<longrightarrow> eIndex (es ! i) = of_nat (Suc i) \<and>
       ePreviousDigest (es ! i) = (if i = 0 then [] else entryDigest (es ! (i - 1))))"
  using VerifyDeviceList_wf [OF assms] verified_length [OF assms] verified_index [OF assms] by blast

theorem verified_list_well_formed_witness: "list_wf demoList \<and> Head demoList = 1"
  using verified_list_well_formed [OF demo_verify] by simp

text \<open>
  C22.  The digest of the head commits to the whole device list: two lists that verify, under
  whatever signature functions, and have the same head digest have the same entries, unless two of
  their entries are a collision of SHA-256.
\<close>

theorem head_digest_commits_to_list:
  assumes "VerifyDeviceList ed es = Inr l" "VerifyDeviceList ed' es' = Inr l'" "HeadDigest l = HeadDigest l'"
  shows "es = es' \<or> (\<exists>e \<in> set es. \<exists>e' \<in> set es'.
    entryDigestInput e \<noteq> entryDigestInput e' \<and> Sum256 (entryDigestInput e) = Sum256 (entryDigestInput e'))"
  by (rule head_digest_commits [OF assms])

theorem head_digest_commits_to_list_witness: "[demoEntry] = [demoEntry] \<or> (\<exists>e \<in> set [demoEntry]. \<exists>e' \<in> set [demoEntry].
    entryDigestInput e \<noteq> entryDigestInput e' \<and> Sum256 (entryDigestInput e) = Sum256 (entryDigestInput e'))"
  by (rule head_digest_commits_to_list [OF demo_verify demo_verify refl])

text \<open>
  C23.  History is immutable: extending a verified list changes no digest, epoch or member
  at an index the list already had, and every header and checkpoint that verified against the list
  still verifies against the extended one.
\<close>

theorem history_immutable:
  assumes "VerifyDeviceList ed es = Inr l" "extendAll ed l fs = Inr l'"
  shows "(\<forall>i. i \<le> Head l \<longrightarrow> DigestAt l' i = DigestAt l i \<and> EpochAt l' i = EpochAt l i \<and>
      (\<forall>d. map_option member_identity (MemberAt l' d i) = map_option member_identity (MemberAt l d i))) \<and>
    (\<forall>p h. VerifyHeader ed l p h = Inr () \<longrightarrow> VerifyHeader ed l' p h = Inr ()) \<and>
    (\<forall>c. VerifyAgainst ed c l = Inr () \<longrightarrow> VerifyAgainst ed c l' = Inr ())"
  using extendAll_history [OF assms(2) VerifyDeviceList_wf [OF assms(1)]]
    VerifyHeader_stable [OF _ VerifyDeviceList_wf [OF assms(1)] assms(2)]
    VerifyAgainst_stable [OF _ VerifyDeviceList_wf [OF assms(1)] assms(2)]
  by blast

theorem history_immutable_witness: "VerifyHeader demoEd demoRemovedList None demoHeader = Inr ()"
  using history_immutable [OF demo_verify, of "[demoAdd, demoRemove]" demoRemovedList] by simp

text \<open>
  C24.  The epoch of a verified list counts its key changes: it is one more than the number of
  removals and rotations, so it never wraps around.
\<close>

theorem epoch_counts_rekeys:
  assumes "VerifyDeviceList ed es = Inr l" "es \<noteq> []"
  shows "unat (Epoch l) = 1 + length (filter (\<lambda>e. eKind e = EntryRemove \<or> eKind e = EntryRotate) es)"
  using verified_epoch [OF assms(1)] assms(2) by (simp add: raisesEpoch_def [abs_def])

theorem epoch_counts_rekeys_witness: "unat (Epoch demoList) = 1"
  using epoch_counts_rekeys [OF demo_verify] by (simp add: kind_defs)

text \<open>
  C25.  Every entry of a verified list after the first was signed with the key of a device that was
  a member when the entry was appended.
\<close>

theorem entries_signed_by_members:
  assumes "VerifyDeviceList ed es = Inr l" "0 < i" "i < length es"
  shows "\<exists>m. MemberAt l (eSignerDeviceID (es ! i)) (of_nat i) = Some m \<and>
    verifyEntrySignature ed (es ! i) (mSigningKey m) = Inr ()"
  by (rule verified_signers [OF assms])

lemma demo_verify_paired: "VerifyDeviceList demoEd [demoEntry, demoAdd] = Inr demoPairedList"
  by (simp add: VerifyDeviceList_def)

theorem entries_signed_by_members_witness:
  "\<exists>m. MemberAt demoPairedList demoDeviceID 1 = Some m \<and> verifyEntrySignature demoEd demoAdd (mSigningKey m) = Inr ()"
  using entries_signed_by_members [OF demo_verify_paired, of 1] by simp

text \<open>
  C26.  The digest of the newest header commits to the history before it: of two chains that verify
  and end in headers with the same digest, one is a suffix of the other, unless two of their headers
  are a collision of SHA-256.
\<close>

theorem header_digest_commits_to_chain:
  assumes "VerifyHeaderChain ed l p gs = Inr ()" "VerifyHeaderChain ed' l' q hs = Inr ()"
    and "gs \<noteq> []" "hs \<noteq> []" "headerDigest (last gs) = headerDigest (last hs)"
  shows "suffix gs hs \<or> suffix hs gs \<or> (\<exists>g \<in> set gs. \<exists>h \<in> set hs.
    headerDigestInput g \<noteq> headerDigestInput h \<and> Sum256 (headerDigestInput g) = Sum256 (headerDigestInput h))"
  by (rule header_chain_commits [OF assms])

theorem header_digest_commits_to_chain_witness:
  "suffix [demoHeader] [demoHeader] \<or> suffix [demoHeader] [demoHeader] \<or> (\<exists>g \<in> set [demoHeader]. \<exists>h \<in> set [demoHeader].
    headerDigestInput g \<noteq> headerDigestInput h \<and> Sum256 (headerDigestInput g) = Sum256 (headerDigestInput h))"
  by (rule header_digest_commits_to_chain [of demoEd demoList None _ demoEd demoList None]) simp_all

text \<open>
  C27.  A signature on one kind of message is not one on another: the byte sequences that are signed
  for device list entries, headers, requests, receipts, key packages and checkpoints are pairwise
  different, whatever the messages contain.
\<close>

theorem signed_messages_separated:
  "distinct [entrySigningPayload e, headerSigningPayload h, requestSigningPayload r, receiptSigningPayload rc,
     packageSigningPayload p, checkpointSigningPayload c]"
  by (simp add: entry_form.payload_head header_form.payload_head request_form.payload_head receipt_form.payload_head
      package_form.payload_head checkpoint_form.payload_head frames_differ LabelDeviceList_def LabelHeader_def LabelRequest_def
      LabelReceipt_def LabelKeyPackage_def LabelCheckpoint_def)



text \<open>
  The digest input determines the message: two device list entries, or two headers, that are
  well formed and give the same bytes to the hash function are the same in every field.
\<close>

theorem digest_inputs_determine_messages:
  assumes "entryValidate e = Inr ()" "entryValidate e' = Inr ()" "headerValidate h = Inr ()" "headerValidate h' = Inr ()"
  shows "(entryDigestInput e = entryDigestInput e' \<longleftrightarrow> e = e') \<and> (headerDigestInput h = headerDigestInput h' \<longleftrightarrow> h = h')"
  using entryDigestInput_inject [OF assms(1,2)] headerDigestInput_inject [OF assms(3,4)] by blast

theorem digest_inputs_determine_messages_witness: "entryDigestInput demoEntry \<noteq> entryDigestInput demoAdd"
proof
  assume "entryDigestInput demoEntry = entryDigestInput demoAdd"
  then have "demoEntry = demoAdd"
    using digest_inputs_determine_messages [OF demoEntry_valid demoAdd_valid demoHeader_valid demoHeader_valid] by blast
  then have "eIndex demoEntry = eIndex demoAdd" by (rule arg_cong)
  then show False by simp
qed

end
