(* ===== verification/Go_Text.thy ===== *)
theory Go_Text
  imports Go_Base64
begin

text \<open>
  Parts of the Go standard library on text that the HTTP layer and the release rules use:
  \<open>strings.Split\<close> with a one-character separator, \<open>strconv.ParseUint\<close> in base 10, and the RFC 3339
  form of a time in UTC.
\<close>

section \<open>strings.Split\<close>

fun splitOn :: "char \<Rightarrow> string \<Rightarrow> string list" where
  "splitOn sep [] = [[]]"
| "splitOn sep (c # cs) =
     (if c = sep then [] # splitOn sep cs
      else case splitOn sep cs of [] \<Rightarrow> [[c]] | part # parts \<Rightarrow> (c # part) # parts)"

fun joinWith :: "char \<Rightarrow> string list \<Rightarrow> string" where
  "joinWith sep [] = []"
| "joinWith sep [part] = part"
| "joinWith sep (part # parts) = part @ sep # joinWith sep parts"

lemma splitOn_not_Nil [simp]: "splitOn sep s \<noteq> []"
  by (induction s) (auto split: list.splits)

lemma joinWith_Cons: "ps \<noteq> [] \<Longrightarrow> joinWith sep (p # ps) = p @ sep # joinWith sep ps"
  by (cases ps) auto

lemma join_split [simp]: "joinWith sep (splitOn sep s) = s"
proof (induction s)
  case (Cons c s)
  obtain p ps where "splitOn sep s = p # ps" by (cases "splitOn sep s") auto
  with Cons show ?case by (cases ps) (auto simp: joinWith_Cons)
qed simp

lemma split_parts_clean: "p \<in> set (splitOn sep s) \<Longrightarrow> sep \<notin> set p"
proof (induction s arbitrary: p)
  case (Cons c s)
  obtain q qs where "splitOn sep s = q # qs" by (cases "splitOn sep s") auto
  with Cons show ?case by (auto split: if_splits)
qed simp

lemma split_clean: "sep \<notin> set p \<Longrightarrow> splitOn sep p = [p]"
  by (induction p) auto

lemma split_append: "sep \<notin> set p \<Longrightarrow> splitOn sep (p @ sep # s) = p # splitOn sep s"
  by (induction p) auto

lemma split_join: "ps \<noteq> [] \<Longrightarrow> (\<forall>p \<in> set ps. sep \<notin> set p) \<Longrightarrow> splitOn sep (joinWith sep ps) = ps"
proof (induction sep ps rule: joinWith.induct)
  case (3 sep p q ps)
  then show ?case by (simp add: split_append)
qed (simp_all add: split_clean)

lemma split_three:
  "splitOn sep s = [a, b, c] \<longleftrightarrow> s = a @ sep # b @ sep # c \<and> sep \<notin> set a \<and> sep \<notin> set b \<and> sep \<notin> set c"
proof
  assume "splitOn sep s = [a, b, c]"
  with join_split [of sep s] split_parts_clean [of _ sep s]
  show "s = a @ sep # b @ sep # c \<and> sep \<notin> set a \<and> sep \<notin> set b \<and> sep \<notin> set c" by auto
qed (simp add: split_append split_clean)

section \<open>strconv.ParseUint\<close>

definition isDigit :: "char \<Rightarrow> bool" where
  "isDigit c \<longleftrightarrow> c \<in> set ''0123456789''"

definition digitValue :: "char \<Rightarrow> nat" where
  "digitValue c = of_char c - 48"

definition readNat :: "string \<Rightarrow> nat" where
  "readNat s = foldl (\<lambda>n c. 10 * n + digitValue c) 0 s"

definition ParseUint :: "string \<Rightarrow> nat \<Rightarrow> u64 option" where
  "ParseUint s bitSize =
     (if s = [] \<or> \<not> list_all isDigit s then None
      else if 2 ^ bitSize \<le> readNat s then None else Some (of_nat (readNat s)))"

lemma digit_char_cases: "d < 10 \<Longrightarrow> d \<in> {0, 1, 2, 3, 4, 5, 6, 7, 8, 9 :: nat}"
  by auto

lemma digit_char_ok: "d < 10 \<Longrightarrow> isDigit (digit_char d) \<and> digitValue (digit_char d) = d"
  by (drule digit_char_cases) (auto simp: isDigit_def digitValue_def digit_char_def)

lemma readNat_snoc: "readNat (s @ [c]) = 10 * readNat s + digitValue c"
  by (simp add: readNat_def)

lemma show_nat_digits: "list_all isDigit (show_nat n) \<and> readNat (show_nat n) = n"
proof (induction n rule: show_nat.induct)
  case (1 n)
  show ?case
  proof (cases "n < 10")
    case True
    then show ?thesis using digit_char_ok [of n] by (simp add: show_nat.simps [of n] readNat_def)
  next
    case False
    with 1 show ?thesis using digit_char_ok [of "n mod 10"] by (simp add: show_nat.simps [of n] readNat_snoc)
  qed
qed

lemma ParseUint_FormatUint [simp]: "ParseUint (FormatUint v) 64 = Some v"
  using show_nat_digits [of "unat v"] unat_u64_lt [of v] by (simp add: ParseUint_def FormatUint_def)

lemma FormatUint_digits: "c \<in> set (FormatUint v) \<Longrightarrow> isDigit c"
  using show_nat_digits [of "unat v"] by (simp add: FormatUint_def list_all_iff)

lemma ParseUint_bound: "ParseUint s b = Some v \<Longrightarrow> b \<le> 64 \<Longrightarrow> unat v < 2 ^ b"
proof -
  assume p: "ParseUint s b = Some v" and b: "b \<le> 64"
  then have lt: "readNat s < 2 ^ b" and v: "v = of_nat (readNat s)" by (auto simp: ParseUint_def split: if_splits)
  have "(2 :: nat) ^ b \<le> 2 ^ 64" using b by (rule power_increasing) simp
  with lt v show ?thesis by (simp add: unat_of_nat)
qed

section \<open>White space of encoding/json\<close>

definition jsonSpace :: "8 word \<Rightarrow> bool" where
  "jsonSpace b \<longleftrightarrow> b \<in> {0x20, 0x09, 0x0A, 0x0D}"

section \<open>Times\<close>

text \<open>The civil date of a day counted from 1970-01-01.\<close>

definition civil :: "int \<Rightarrow> int \<times> int \<times> int" where
  "civil days =
     (let z = days + 719468;
          era = z div 146097;
          doe = z mod 146097;
          yoe = (doe - doe div 1460 + doe div 36524 - doe div 146096) div 365;
          doy = doe - (365 * yoe + yoe div 4 - yoe div 100);
          mp = (5 * doy + 2) div 153;
          d = doy - (153 * mp + 2) div 5 + 1;
          m = (if mp < 10 then mp + 3 else mp - 9);
          y = yoe + era * 400
      in (if m \<le> 2 then y + 1 else y, m, d))"

definition padded :: "nat \<Rightarrow> int \<Rightarrow> string" where
  "padded width n =
     (let digits = show_nat (nat \<bar>n\<bar>)
      in (if n < 0 then ''-'' else []) @ replicate (width - length digits) (CHR ''0'') @ digits)"

definition formatRFC3339 :: "int \<Rightarrow> string" where
  "formatRFC3339 seconds =
     (let (y, m, d) = civil (seconds div 86400);
          s = seconds mod 86400
      in padded 4 y @ ''-'' @ padded 2 m @ ''-'' @ padded 2 d @ ''T'' @ padded 2 (s div 3600) @ '':'' @
         padded 2 (s div 60 mod 60) @ '':'' @ padded 2 (s mod 60) @ ''Z'')"

end
