(* ===== verification/Sync_Wire.thy ===== *)
theory Sync_Wire
  imports Sync_Service Go_Text
begin

text \<open>
  The files wire.go and errors.go of internal/syncv3http: the JSON bodies as records, the responses,
  and the readers that turn a request into the arguments of the service.  A reader that fails has
  written the response, so it returns \<open>Inl\<close> of that response.

  Of the Go HTTP library a request carries what the handlers ask for: the method, the request
  target, the path, the query parameters in order, the values of the signature header and the
  body, which is \<open>None\<close> when reading it fails.  The JSON decoder of a body type is a parameter: it
  returns the decoded value and the bytes that follow it, or nothing on an error, which includes an
  unknown field.
\<close>

section \<open>Requests and responses\<close>

record httpRequest =
  hrMethod :: string
  hrTarget :: string
  hrPath :: string
  hrQuery :: "(string \<times> string) list"
  hrPathValues :: "(string \<times> string) list"
  hrSignatures :: "string list"
  hrBody :: "bytes option"

record createVaultRequest =
  cvEntry :: DeviceListEntry

record beginPairingRequest =
  bpDeviceID :: string
  bpSigningKey :: string
  bpPackageKey :: string
  bpMessage :: string

record pairingMessageRequest =
  pmMessage :: string

record keyPackageJSON =
  kjVaultID :: string
  kjSenderDeviceID :: string
  kjRecipientDeviceID :: string
  kjVaultEpoch :: u64
  kjEntryDigest :: string
  kjCiphertext :: string
  kjSignature :: string

record approveRequest =
  apEntry :: DeviceListEntry
  apPackage :: keyPackageJSON

record removeRequest =
  rmEntry :: DeviceListEntry
  rmPackages :: "keyPackageJSON list"

record upgradeKeyRequest =
  ukEntry :: DeviceListEntry

record activateRequest =
  avPackageDigest :: string

record uploadRequest =
  ulHeader :: Header
  ulCiphertext :: string

record checkpointRequest =
  crCheckpoint :: Checkpoint

record resetRequest =
  rtVaultEpoch :: u64

record vaultResponse =
  vrVaultID :: string
  vrVaultEpoch :: u64
  vrHeadIndex :: u64

record stateResponse =
  srVaultID :: string
  srVaultEpoch :: u64
  srHeadIndex :: u64
  srCurrentRevision :: u64
  srInstanceKey :: string
  srDeviceID :: string
  srDeviceState :: string
  srActivatedEpoch :: u64

record deviceRecord =
  drDeviceID :: string
  drState :: string
  drAddedIndex :: u64
  drActivatedEpoch :: u64

record pairingRecord =
  prDeviceID :: string
  prSigningKey :: string
  prPackageKey :: string
  prState :: string
  prOffer :: string
  prAnswer :: string
  prConfirm :: string
  prExpiresAt :: string

record pairingStatusResponse =
  psState :: string
  psAnswer :: string
  psExpiresAt :: string

record headerRecord =
  heHeader :: Header
  heDigest :: string
  heReceipt :: string
  heAcceptedAt :: string

record checkpointRecord =
  ceCheckpoint :: Checkpoint
  ceAcceptedAt :: string

record snapshotResponse =
  ssHeader :: Header
  ssDigest :: string
  ssReceipt :: string
  ssAcceptedAt :: string
  ssCiphertext :: string

record uploadResponse =
  urRevision :: u64
  urDigest :: string
  urReceipt :: string
  urAcceptedAt :: string

datatype httpBody =
    NoBody
  | ErrorBody string string
  | VaultBody vaultResponse
  | StateBody stateResponse
  | DeviceListBody "DeviceListEntry list"
  | DevicesBody "deviceRecord list" "pairingRecord list"
  | PairingStatusBody pairingStatusResponse
  | KeyPackageBody keyPackageJSON
  | HeadersBody "headerRecord list"
  | CheckpointsBody "checkpointRecord list"
  | SnapshotBody snapshotResponse
  | UploadBody uploadResponse

text \<open>A response with a JSON body has a content type; a bare status has none.\<close>

record httpResponse =
  hpStatus :: int
  hpContentType :: "string option"
  hpBody :: httpBody

definition writeHeader :: "int \<Rightarrow> httpResponse" where
  "writeHeader status = \<lparr>hpStatus = status, hpContentType = None, hpBody = NoBody\<rparr>"

definition writeJSON :: "int \<Rightarrow> httpBody \<Rightarrow> httpResponse" where
  "writeJSON status value =
     \<lparr>hpStatus = status, hpContentType = Some ''application/json; charset=utf-8'', hpBody = value\<rparr>"

section \<open>Errors\<close>

definition codeInvalid :: string where "codeInvalid = ''sync_invalid''"
definition codeSignatureInvalid :: string where "codeSignatureInvalid = ''sync_signature_invalid''"
definition codeForbidden :: string where "codeForbidden = ''sync_forbidden''"
definition codeNotActivated :: string where "codeNotActivated = ''sync_not_activated''"
definition codeVaultNotFound :: string where "codeVaultNotFound = ''sync_vault_not_found''"
definition codeNotFound :: string where "codeNotFound = ''sync_not_found''"
definition codeConflict :: string where "codeConflict = ''sync_conflict''"
definition codeReplayed :: string where "codeReplayed = ''sync_replayed''"
definition codeVaultExists :: string where "codeVaultExists = ''sync_vault_exists''"
definition codeStorageLimit :: string where "codeStorageLimit = ''sync_storage_limit_reached''"
definition codeUnavailable :: string where "codeUnavailable = ''sync_unavailable''"

lemmas code_defs = codeInvalid_def codeSignatureInvalid_def codeForbidden_def codeNotActivated_def codeVaultNotFound_def
  codeNotFound_def codeConflict_def codeReplayed_def codeVaultExists_def codeStorageLimit_def codeUnavailable_def

record errorSpec =
  esStatus :: int
  esMessage :: string

definition errorSpecs :: "(string \<times> errorSpec) list" where
  "errorSpecs =
     [(codeInvalid, \<lparr>esStatus = 400, esMessage = ''The sync request is invalid.''\<rparr>),
      (codeSignatureInvalid, \<lparr>esStatus = 401, esMessage = ''The sync request signature is invalid.''\<rparr>),
      (codeForbidden, \<lparr>esStatus = 403, esMessage = ''This device is not allowed to do that.''\<rparr>),
      (codeNotActivated, \<lparr>esStatus = 403, esMessage = ''This device has not activated its vault key yet.''\<rparr>),
      (codeVaultNotFound, \<lparr>esStatus = 404, esMessage = ''This account has no synced vault.''\<rparr>),
      (codeNotFound, \<lparr>esStatus = 404, esMessage = ''The requested sync record was not found.''\<rparr>),
      (codeConflict, \<lparr>esStatus = 409, esMessage = ''Sync state changed. Fetch it again and retry.''\<rparr>),
      (codeReplayed, \<lparr>esStatus = 409, esMessage = ''This sync request was already used.''\<rparr>),
      (codeVaultExists, \<lparr>esStatus = 409, esMessage = ''This account already has a synced vault.''\<rparr>),
      (codeStorageLimit, \<lparr>esStatus = 413, esMessage = ''This vault has reached its Sync storage limit.''\<rparr>),
      (codeUnavailable, \<lparr>esStatus = 503, esMessage = ''Sesame Sync is temporarily unavailable.''\<rparr>)]"

text \<open>Errors of the storage and a broken stored list are none of the errors the service names.\<close>

definition serviceErrorCode :: "svc_error \<Rightarrow> string" where
  "serviceErrorCode err =
     (case err of
        ErrSignature \<Rightarrow> codeSignatureInvalid
      | ErrReplay \<Rightarrow> codeReplayed
      | ErrNoVault \<Rightarrow> codeVaultNotFound
      | ErrVaultExists \<Rightarrow> codeVaultExists
      | ErrNotActivated \<Rightarrow> codeNotActivated
      | ErrForbidden \<Rightarrow> codeForbidden
      | ErrNotFound \<Rightarrow> codeNotFound
      | ErrConflict \<Rightarrow> codeConflict
      | ErrQuota \<Rightarrow> codeStorageLimit
      | ErrInvalid \<Rightarrow> codeInvalid
      | ErrInvalidProto _ \<Rightarrow> codeInvalid
      | ErrInvalidText _ \<Rightarrow> codeInvalid
      | _ \<Rightarrow> codeUnavailable)"

definition writeError :: "string \<Rightarrow> httpResponse" where
  "writeError code =
     (case map_of errorSpecs code of
        Some spec \<Rightarrow> writeJSON (esStatus spec) (ErrorBody code (esMessage spec))
      | None \<Rightarrow> let code = codeUnavailable; spec = the (map_of errorSpecs codeUnavailable)
                in writeJSON (esStatus spec) (ErrorBody code (esMessage spec)))"

definition writeServiceError :: "svc_error \<Rightarrow> httpResponse" where
  "writeServiceError err = writeError (serviceErrorCode err)"

section \<open>Reading a request\<close>

definition smallBodyBytes :: nat where "smallBodyBytes = 64 * 1024"
definition keyChangeBodyBytes :: nat where "keyChangeBodyBytes = 1024 * 1024"
definition snapshotBodyBytes :: nat where "snapshotBodyBytes = 15 * 1024 * 1024"
definition minIDLength :: nat where "minIDLength = 16"
definition maxIDLength :: nat where "maxIDLength = 128"

definition canonicalBase64 :: "string \<Rightarrow> bytes option" where
  "canonicalBase64 value =
     (case DecodeString value of
        None \<Rightarrow> None
      | Some decoded \<Rightarrow> if EncodeToString decoded \<noteq> value then None else Some decoded)"

definition canonicalFixedBase64 :: "string \<Rightarrow> nat \<Rightarrow> bool" where
  "canonicalFixedBase64 value len =
     (case canonicalBase64 value of None \<Rightarrow> False | Some decoded \<Rightarrow> length decoded = len)"

definition readSignature :: "httpRequest \<Rightarrow> httpResponse + SignedRequest" where
  "readSignature request =
     (case hrSignatures request of
        [value] \<Rightarrow>
          (case splitOn (CHR ''.'') value of
             [p0, p1, p2] \<Rightarrow>
               (case ParseUint p0 64 of
                  None \<Rightarrow> Inl (writeError codeSignatureInvalid)
                | Some timestamp \<Rightarrow>
                    if FormatUint timestamp \<noteq> p0 then Inl (writeError codeSignatureInvalid)
                    else if \<not> canonicalFixedBase64 p1 RequestNonceBytes then Inl (writeError codeSignatureInvalid)
                    else if \<not> canonicalFixedBase64 p2 Ed25519SignatureBytes then Inl (writeError codeSignatureInvalid)
                    else Inr \<lparr>rqMethod = hrMethod request, rqTarget = hrTarget request, rqBody = [],
                              rqTimestamp = timestamp, rqNonce = p1, rqSignature = p2\<rparr>)
           | _ \<Rightarrow> Inl (writeError codeSignatureInvalid))
      | _ \<Rightarrow> Inl (writeError codeSignatureInvalid))"

definition readBody :: "httpRequest \<Rightarrow> nat \<Rightarrow> httpResponse + bytes" where
  "readBody request limit =
     (case hrBody request of
        None \<Rightarrow> Inl (writeError codeInvalid)
      | Some body \<Rightarrow> if limit < length body then Inl (writeError codeInvalid) else Inr body)"

text \<open>The second \<open>Decode\<close> reports the end of the input when only white space is left.\<close>

definition decodeJSON :: "(bytes \<Rightarrow> ('a \<times> bytes) option) \<Rightarrow> bytes \<Rightarrow> httpResponse + 'a" where
  "decodeJSON decode body =
     (case decode body of
        None \<Rightarrow> Inl (writeError codeInvalid)
      | Some (value, rest) \<Rightarrow> if list_all jsonSpace rest then Inr value else Inl (writeError codeInvalid))"

definition readSignedJSON ::
  "(bytes \<Rightarrow> ('a \<times> bytes) option) \<Rightarrow> httpRequest \<Rightarrow> nat \<Rightarrow> httpResponse + 'a \<times> SignedRequest" where
  "readSignedJSON decode request limit =
     (case readSignature request of
        Inl r \<Rightarrow> Inl r
      | Inr request' \<Rightarrow>
          (case readBody request limit of
             Inl r \<Rightarrow> Inl r
           | Inr body \<Rightarrow>
               (case decodeJSON decode body of
                  Inl r \<Rightarrow> Inl r
                | Inr input \<Rightarrow> Inr (input, request'\<lparr>rqBody := body\<rparr>))))"

definition readSignedEmpty :: "httpRequest \<Rightarrow> httpResponse + SignedRequest" where
  "readSignedEmpty request =
     (case readSignature request of
        Inl r \<Rightarrow> Inl r
      | Inr request' \<Rightarrow>
          (case readBody request smallBodyBytes of
             Inl r \<Rightarrow> Inl r
           | Inr body \<Rightarrow> if length body \<noteq> 0 then Inl (writeError codeInvalid) else Inr request'))"

fun decodeOneOfBase64 :: "string \<Rightarrow> nat list \<Rightarrow> httpResponse + bytes" where
  "decodeOneOfBase64 value [] = Inl (writeError codeInvalid)"
| "decodeOneOfBase64 value (len # lens) =
     (if canonicalFixedBase64 value len then Inr (the (canonicalBase64 value)) else decodeOneOfBase64 value lens)"

definition decodeBase64 :: "string \<Rightarrow> httpResponse + bytes" where
  "decodeBase64 value =
     (case canonicalBase64 value of None \<Rightarrow> Inl (writeError codeInvalid) | Some decoded \<Rightarrow> Inr decoded)"

definition decodeFixedBase64 :: "string \<Rightarrow> nat \<Rightarrow> httpResponse + bytes" where
  "decodeFixedBase64 value len =
     (if \<not> canonicalFixedBase64 value len then Inl (writeError codeInvalid) else Inr (the (canonicalBase64 value)))"

definition toService :: "keyPackageJSON \<Rightarrow> httpResponse + KeyPackageV3" where
  "toService wire =
     (case decodeBase64 (kjCiphertext wire) of
        Inl r \<Rightarrow> Inl r
      | Inr _ \<Rightarrow>
          (case decodeFixedBase64 (kjSignature wire) Ed25519SignatureBytes of
             Inl r \<Rightarrow> Inl r
           | Inr _ \<Rightarrow> Inr \<lparr>pVaultID = kjVaultID wire, pSenderDeviceID = kjSenderDeviceID wire,
                pRecipientDeviceID = kjRecipientDeviceID wire, pVaultEpoch = kjVaultEpoch wire,
                pEntryDigest = kjEntryDigest wire, pCiphertext = kjCiphertext wire, pSignature = kjSignature wire\<rparr>))"

definition keyPackageToWire :: "KeyPackageV3 \<Rightarrow> keyPackageJSON" where
  "keyPackageToWire pkg =
     \<lparr>kjVaultID = pVaultID pkg, kjSenderDeviceID = pSenderDeviceID pkg, kjRecipientDeviceID = pRecipientDeviceID pkg,
      kjVaultEpoch = pVaultEpoch pkg, kjEntryDigest = pEntryDigest pkg, kjCiphertext = pCiphertext pkg,
      kjSignature = pSignature pkg\<rparr>"

definition queryGet :: "httpRequest \<Rightarrow> string \<Rightarrow> string" where
  "queryGet request name = (case map_of (hrQuery request) name of None \<Rightarrow> [] | Some v \<Rightarrow> v)"

definition queryUint :: "httpRequest \<Rightarrow> string \<Rightarrow> nat \<Rightarrow> httpResponse + u64" where
  "queryUint request name bitSize =
     (let value = queryGet request name
      in if value = [] then Inr 0
         else case ParseUint value bitSize of
             None \<Rightarrow> Inl (writeError codeInvalid)
           | Some parsed \<Rightarrow> Inr parsed)"

definition idChar :: "char \<Rightarrow> bool" where
  "idChar c =
     (let n = (of_char c :: nat)
      in of_char (CHR ''a'') \<le> n \<and> n \<le> of_char (CHR ''z'') \<or> of_char (CHR ''A'') \<le> n \<and> n \<le> of_char (CHR ''Z'') \<or>
         of_char (CHR ''0'') \<le> n \<and> n \<le> of_char (CHR ''9'') \<or> c = CHR ''_'' \<or> c = CHR ''-'')"

definition validID :: "string \<Rightarrow> bool" where
  "validID value \<longleftrightarrow> \<not> (length value < minIDLength \<or> maxIDLength < length value) \<and> list_all idChar value"

definition pathDeviceID :: "httpRequest \<Rightarrow> httpResponse + string" where
  "pathDeviceID request =
     (let value = (case map_of (hrPathValues request) ''deviceId'' of None \<Rightarrow> [] | Some v \<Rightarrow> v)
      in if \<not> validID value then Inl (writeError codeInvalid) else Inr value)"

section \<open>Writing records\<close>

definition formatTime :: "gotime \<Rightarrow> string" where
  "formatTime value = formatRFC3339 (goUnix value)"

definition deviceRecords :: "Device list \<Rightarrow> deviceRecord list" where
  "deviceRecords devices =
     map (\<lambda>device. \<lparr>drDeviceID = dDeviceID device, drState = dState device, drAddedIndex = dAddedIndex device,
       drActivatedEpoch = dActivatedEpoch device\<rparr>) devices"

definition pairingRecords :: "Pairing list \<Rightarrow> pairingRecord list" where
  "pairingRecords pairings =
     map (\<lambda>pairing. \<lparr>prDeviceID = gDeviceID pairing, prSigningKey = gSigningKey pairing, prPackageKey = gPackageKey pairing,
       prState = gState pairing, prOffer = EncodeToString (gOffer pairing), prAnswer = EncodeToString (gAnswer pairing),
       prConfirm = EncodeToString (gConfirm pairing), prExpiresAt = formatTime (gExpiresAt pairing)\<rparr>) pairings"

definition headerRecords :: "StoredHeader list \<Rightarrow> headerRecord list" where
  "headerRecords stored =
     map (\<lambda>item. \<lparr>heHeader = shHeader item, heDigest = shDigest item, heReceipt = shReceipt item,
       heAcceptedAt = formatTime (shAcceptedAt item)\<rparr>) stored"

definition checkpointRecords :: "StoredCheckpoint list \<Rightarrow> checkpointRecord list" where
  "checkpointRecords stored =
     map (\<lambda>item. \<lparr>ceCheckpoint = scCheckpoint item, ceAcceptedAt = formatTime (scAcceptedAt item)\<rparr>) stored"

end
