(* ===== verification/Sync_Http.thy ===== *)
theory Sync_Http
  imports Sync_Wire
begin

text \<open>
  The file handler.go of internal/syncv3http: one definition per handler, and the table of routes.
  A handler returns the response it writes and the new state of the storage.  The host that
  authenticates the caller is a parameter: it either returns the caller or has written a response.
  The deadlines that \<open>allowLongTransfer\<close> sets on the connection are not modelled.
\<close>

record wireDecoders =
  wdCreateVault :: "bytes \<Rightarrow> (createVaultRequest \<times> bytes) option"
  wdBeginPairing :: "bytes \<Rightarrow> (beginPairingRequest \<times> bytes) option"
  wdPairingMessage :: "bytes \<Rightarrow> (pairingMessageRequest \<times> bytes) option"
  wdApprove :: "bytes \<Rightarrow> (approveRequest \<times> bytes) option"
  wdRemove :: "bytes \<Rightarrow> (removeRequest \<times> bytes) option"
  wdUpgradeKey :: "bytes \<Rightarrow> (upgradeKeyRequest \<times> bytes) option"
  wdActivate :: "bytes \<Rightarrow> (activateRequest \<times> bytes) option"
  wdUpload :: "bytes \<Rightarrow> (uploadRequest \<times> bytes) option"
  wdCheckpoint :: "bytes \<Rightarrow> (checkpointRequest \<times> bytes) option"
  wdReset :: "bytes \<Rightarrow> (resetRequest \<times> bytes) option"

record 's Handler =
  hdTx :: "'s Tx"
  hdEd :: ed25519
  hdConfig :: Config
  hdNow :: "nat \<Rightarrow> gotime"
  hdHost :: "httpRequest \<Rightarrow> string \<Rightarrow> httpResponse + Caller"
  hdDecode :: wireDecoders

text \<open>A step that may have written the response, and the answer to the result of the service.\<close>

definition reading :: "httpResponse + 'a \<Rightarrow> ('a \<Rightarrow> 's \<Rightarrow> httpResponse \<times> 's) \<Rightarrow> 's \<Rightarrow> httpResponse \<times> 's" where
  "reading r k s = (case r of Inl response \<Rightarrow> (response, s) | Inr x \<Rightarrow> k x s)"

definition respond :: "(svc_error + 'a) \<times> 's \<Rightarrow> ('a \<Rightarrow> httpResponse) \<Rightarrow> httpResponse \<times> 's" where
  "respond r f = (case fst r of Inl e \<Rightarrow> writeServiceError e | Inr x \<Rightarrow> f x, snd r)"

definition InstancePublicKey :: "Config \<Rightarrow> bytes" where
  "InstancePublicKey cf = drop 32 (cfReceiptKey cf)"

definition deviceState :: "Actor \<Rightarrow> string" where
  "deviceState actor =
     (if aPairing actor \<noteq> None then ''pairing''
      else if dState (aDevice actor) = DeviceApproved then ''approved'' else ''none'')"

definition httpState :: "'s Handler \<Rightarrow> httpRequest \<Rightarrow> 's \<Rightarrow> httpResponse \<times> 's" where
  "httpState H request =
     reading (hdHost H request ''state'') (\<lambda>caller s.
       respond (svcVaultState (hdTx H) (hdNow H) caller s) (\<lambda>(vault, actor).
         writeJSON 200 (StateBody \<lparr>srVaultID = vID vault, srVaultEpoch = vEpoch vault, srHeadIndex = vHeadIndex vault,
           srCurrentRevision = vCurrentRevision vault, srInstanceKey = EncodeToString (InstancePublicKey (hdConfig H)),
           srDeviceID = dDeviceID (aDevice actor), srDeviceState = deviceState actor,
           srActivatedEpoch = dActivatedEpoch (aDevice actor)\<rparr>)))"

definition httpCreateVault :: "'s Handler \<Rightarrow> httpRequest \<Rightarrow> 's \<Rightarrow> httpResponse \<times> 's" where
  "httpCreateVault H request =
     reading (hdHost H request ''vault'') (\<lambda>caller.
     reading (readSignedJSON (wdCreateVault (hdDecode H)) request smallBodyBytes) (\<lambda>(input, sreq) s.
       respond (svcCreateVault (hdTx H) (hdEd H) (hdNow H) caller sreq (cvEntry input) s) (\<lambda>vault.
         writeJSON 201 (VaultBody \<lparr>vrVaultID = vID vault, vrVaultEpoch = vEpoch vault, vrHeadIndex = vHeadIndex vault\<rparr>))))"

definition httpDeviceList :: "'s Handler \<Rightarrow> httpRequest \<Rightarrow> 's \<Rightarrow> httpResponse \<times> 's" where
  "httpDeviceList H request =
     reading (hdHost H request ''device-list'') (\<lambda>caller.
     reading (queryUint request ''after'' 64) (\<lambda>after s.
       respond (svcDeviceList (hdTx H) (hdNow H) caller after 0 s) (\<lambda>entries. writeJSON 200 (DeviceListBody entries))))"

text \<open>The second call of the service takes later readings of the clock.\<close>

definition httpDevices :: "'s Handler \<Rightarrow> httpRequest \<Rightarrow> 's \<Rightarrow> httpResponse \<times> 's" where
  "httpDevices H request =
     reading (hdHost H request ''devices'') (\<lambda>caller s.
       case svcDevices (hdTx H) (hdNow H) caller s of
         (Inl e, s') \<Rightarrow> (writeServiceError e, s')
       | (Inr (_, devices), s') \<Rightarrow>
           respond (svcPendingPairings (hdTx H) (\<lambda>n. hdNow H (n + 1)) caller s') (\<lambda>pairings.
             writeJSON 200 (DevicesBody (deviceRecords devices) (pairingRecords pairings))))"

definition httpBeginPairing :: "'s Handler \<Rightarrow> httpRequest \<Rightarrow> 's \<Rightarrow> httpResponse \<times> 's" where
  "httpBeginPairing H request =
     reading (hdHost H request ''pairing-begin'') (\<lambda>caller.
     reading (readSignedJSON (wdBeginPairing (hdDecode H)) request smallBodyBytes) (\<lambda>(input, sreq).
     reading (decodeFixedBase64 (bpSigningKey input) Ed25519PublicKeyBytes) (\<lambda>_.
     reading (decodeOneOfBase64 (bpPackageKey input) [X25519PublicKeyBytes, XWingPublicKeyBytes]) (\<lambda>_.
     reading (decodeBase64 (bpMessage input)) (\<lambda>message s.
       respond (svcBeginPairing (hdTx H) (hdEd H) (hdNow H) caller sreq
           \<lparr>ofDeviceID = bpDeviceID input, ofSigningKey = bpSigningKey input, ofPackageKey = bpPackageKey input,
            ofMessage = message\<rparr> s) (\<lambda>_. writeHeader 201))))))"

definition httpPairingStatus :: "'s Handler \<Rightarrow> httpRequest \<Rightarrow> 's \<Rightarrow> httpResponse \<times> 's" where
  "httpPairingStatus H request =
     reading (hdHost H request ''pairing-mine'') (\<lambda>caller s.
       respond (svcPairingStatus (hdTx H) (hdNow H) caller s) (\<lambda>pairing.
         writeJSON 200 (PairingStatusBody \<lparr>psState = gState pairing, psAnswer = EncodeToString (gAnswer pairing),
           psExpiresAt = formatTime (gExpiresAt pairing)\<rparr>)))"

definition httpAnswerPairing :: "'s Handler \<Rightarrow> httpRequest \<Rightarrow> 's \<Rightarrow> httpResponse \<times> 's" where
  "httpAnswerPairing H request =
     reading (hdHost H request ''pairing-answer'') (\<lambda>caller.
     reading (pathDeviceID request) (\<lambda>deviceID.
     reading (readSignedJSON (wdPairingMessage (hdDecode H)) request smallBodyBytes) (\<lambda>(input, sreq).
     reading (decodeBase64 (pmMessage input)) (\<lambda>message s.
       respond (svcAnswerPairing (hdTx H) (hdEd H) (hdNow H) caller sreq deviceID message s) (\<lambda>_. writeHeader 204)))))"

definition httpConfirmPairing :: "'s Handler \<Rightarrow> httpRequest \<Rightarrow> 's \<Rightarrow> httpResponse \<times> 's" where
  "httpConfirmPairing H request =
     reading (hdHost H request ''pairing-confirm'') (\<lambda>caller.
     reading (readSignedJSON (wdPairingMessage (hdDecode H)) request smallBodyBytes) (\<lambda>(input, sreq).
     reading (decodeBase64 (pmMessage input)) (\<lambda>message s.
       respond (svcConfirmPairing (hdTx H) (hdEd H) (hdNow H) caller sreq message s) (\<lambda>_. writeHeader 204))))"

definition httpCancelPairing :: "'s Handler \<Rightarrow> httpRequest \<Rightarrow> 's \<Rightarrow> httpResponse \<times> 's" where
  "httpCancelPairing H request =
     reading (hdHost H request ''pairing-cancel'') (\<lambda>caller.
     reading (pathDeviceID request) (\<lambda>deviceID.
     reading (readSignedEmpty request) (\<lambda>sreq s.
       respond (svcCancelPairing (hdTx H) (hdEd H) (hdNow H) caller sreq deviceID s) (\<lambda>_. writeHeader 204))))"

definition httpApprove :: "'s Handler \<Rightarrow> httpRequest \<Rightarrow> 's \<Rightarrow> httpResponse \<times> 's" where
  "httpApprove H request =
     reading (hdHost H request ''approve'') (\<lambda>caller.
     reading (readSignedJSON (wdApprove (hdDecode H)) request keyChangeBodyBytes) (\<lambda>(input, sreq).
     reading (toService (apPackage input)) (\<lambda>pkg s.
       respond (svcApprove (hdTx H) (hdEd H) (hdNow H) caller sreq (apEntry input) pkg s) (\<lambda>_. writeHeader 201))))"

text \<open>The loop over the packages of a removal or a rotation.\<close>

fun toServiceAll :: "keyPackageJSON list \<Rightarrow> httpResponse + KeyPackageV3 list" where
  "toServiceAll [] = Inr []"
| "toServiceAll (wire # wires) =
     (case toService wire of
        Inl r \<Rightarrow> Inl r
      | Inr pkg \<Rightarrow> (case toServiceAll wires of Inl r \<Rightarrow> Inl r | Inr pkgs \<Rightarrow> Inr (pkg # pkgs)))"

definition httpRemove :: "'s Handler \<Rightarrow> httpRequest \<Rightarrow> 's \<Rightarrow> httpResponse \<times> 's" where
  "httpRemove H request =
     reading (hdHost H request ''remove'') (\<lambda>caller.
     reading (readSignedJSON (wdRemove (hdDecode H)) request keyChangeBodyBytes) (\<lambda>(input, sreq).
     reading (toServiceAll (rmPackages input)) (\<lambda>packages s.
       respond (svcRemove (hdTx H) (hdEd H) (hdNow H) caller sreq (rmEntry input) packages s) (\<lambda>_. writeHeader 204))))"

definition httpRotate :: "'s Handler \<Rightarrow> httpRequest \<Rightarrow> 's \<Rightarrow> httpResponse \<times> 's" where
  "httpRotate H request =
     reading (hdHost H request ''rotate'') (\<lambda>caller.
     reading (readSignedJSON (wdRemove (hdDecode H)) request keyChangeBodyBytes) (\<lambda>(input, sreq).
     reading (toServiceAll (rmPackages input)) (\<lambda>packages s.
       respond (svcRotate (hdTx H) (hdEd H) (hdNow H) caller sreq (rmEntry input) packages s) (\<lambda>_. writeHeader 204))))"

definition httpUpgradeKey :: "'s Handler \<Rightarrow> httpRequest \<Rightarrow> 's \<Rightarrow> httpResponse \<times> 's" where
  "httpUpgradeKey H request =
     reading (hdHost H request ''device-key'') (\<lambda>caller.
     reading (readSignedJSON (wdUpgradeKey (hdDecode H)) request smallBodyBytes) (\<lambda>(input, sreq) s.
       respond (svcUpgradeKey (hdTx H) (hdEd H) (hdNow H) caller sreq (ukEntry input) s) (\<lambda>_. writeHeader 204)))"

definition httpKeyPackage :: "'s Handler \<Rightarrow> httpRequest \<Rightarrow> 's \<Rightarrow> httpResponse \<times> 's" where
  "httpKeyPackage H request =
     reading (hdHost H request ''key-package'') (\<lambda>caller s.
       respond (svcKeyPackage (hdTx H) (hdNow H) caller s) (\<lambda>pkg.
         writeJSON 200 (KeyPackageBody (keyPackageToWire (kPackage pkg)))))"

definition httpActivate :: "'s Handler \<Rightarrow> httpRequest \<Rightarrow> 's \<Rightarrow> httpResponse \<times> 's" where
  "httpActivate H request =
     reading (hdHost H request ''activate'') (\<lambda>caller.
     reading (readSignedJSON (wdActivate (hdDecode H)) request smallBodyBytes) (\<lambda>(input, sreq).
     reading (if \<not> canonicalFixedBase64 (avPackageDigest input) DigestBytes then Inl (writeError codeInvalid) else Inr ()) (\<lambda>_ s.
       respond (svcActivate (hdTx H) (hdEd H) (hdNow H) caller sreq (avPackageDigest input) s) (\<lambda>_. writeHeader 204))))"

definition httpUpload :: "'s Handler \<Rightarrow> httpRequest \<Rightarrow> 's \<Rightarrow> httpResponse \<times> 's" where
  "httpUpload H request =
     reading (hdHost H request ''upload'') (\<lambda>caller.
     reading (readSignedJSON (wdUpload (hdDecode H)) request snapshotBodyBytes) (\<lambda>(input, sreq).
     reading (decodeBase64 (ulCiphertext input)) (\<lambda>ciphertext s.
       respond (svcUpload (hdTx H) (hdEd H) (hdConfig H) (hdNow H) caller sreq (ulHeader input) ciphertext s) (\<lambda>accepted.
         writeJSON 201 (UploadBody \<lparr>urRevision = hRevision (shHeader (acHeader accepted)),
           urDigest = shDigest (acHeader accepted), urReceipt = acReceipt accepted,
           urAcceptedAt = formatTime (shAcceptedAt (acHeader accepted))\<rparr>)))))"

definition httpHeaders :: "'s Handler \<Rightarrow> httpRequest \<Rightarrow> 's \<Rightarrow> httpResponse \<times> 's" where
  "httpHeaders H request =
     reading (hdHost H request ''headers'') (\<lambda>caller.
     reading (queryUint request ''after'' 64) (\<lambda>after.
     reading (queryUint request ''limit'' 31) (\<lambda>limit s.
       respond (svcHeaders (hdTx H) (hdNow H) caller after (int (unat limit)) s) (\<lambda>stored.
         writeJSON 200 (HeadersBody (headerRecords stored))))))"

definition httpDownload :: "'s Handler \<Rightarrow> httpRequest \<Rightarrow> 's \<Rightarrow> httpResponse \<times> 's" where
  "httpDownload H request =
     reading (hdHost H request ''download'') (\<lambda>caller s.
       respond (svcSnapshot (hdTx H) (hdNow H) caller s) (\<lambda>snapshot.
         writeJSON 200 (SnapshotBody \<lparr>ssHeader = shHeader (snapHeader snapshot), ssDigest = shDigest (snapHeader snapshot),
           ssReceipt = shReceipt (snapHeader snapshot), ssAcceptedAt = formatTime (shAcceptedAt (snapHeader snapshot)),
           ssCiphertext = EncodeToString (snapCiphertext snapshot)\<rparr>)))"

definition httpPutCheckpoint :: "'s Handler \<Rightarrow> httpRequest \<Rightarrow> 's \<Rightarrow> httpResponse \<times> 's" where
  "httpPutCheckpoint H request =
     reading (hdHost H request ''checkpoint-put'') (\<lambda>caller.
     reading (readSignedJSON (wdCheckpoint (hdDecode H)) request smallBodyBytes) (\<lambda>(input, sreq) s.
       respond (svcPutCheckpoint (hdTx H) (hdEd H) (hdNow H) caller sreq (crCheckpoint input) s) (\<lambda>_. writeHeader 204)))"

definition httpCheckpoints :: "'s Handler \<Rightarrow> httpRequest \<Rightarrow> 's \<Rightarrow> httpResponse \<times> 's" where
  "httpCheckpoints H request =
     reading (hdHost H request ''checkpoints'') (\<lambda>caller s.
       respond (svcCheckpoints (hdTx H) (hdNow H) caller s) (\<lambda>stored.
         writeJSON 200 (CheckpointsBody (checkpointRecords stored))))"

definition httpReset :: "'s Handler \<Rightarrow> httpRequest \<Rightarrow> 's \<Rightarrow> httpResponse \<times> 's" where
  "httpReset H request =
     reading (hdHost H request ''reset'') (\<lambda>caller.
     reading (readSignedJSON (wdReset (hdDecode H)) request smallBodyBytes) (\<lambda>(input, sreq) s.
       respond (svcReset (hdTx H) (hdEd H) (hdNow H) caller sreq (rtVaultEpoch input) s) (\<lambda>_. writeHeader 204)))"

section \<open>Routes\<close>

datatype route =
    RState | RCreateVault | RDeviceList | RDevices | RBeginPairing | RPairingStatus | RAnswerPairing | RConfirmPairing
  | RCancelPairing | RApprove | RRemove | RUpgradeKey | RRotate | RKeyPackage | RActivate | RUpload | RHeaders | RDownload
  | RPutCheckpoint | RCheckpoints | RReset

definition Register :: "(string \<times> string \<times> route) list" where
  "Register =
     [(''GET'', ''/v1/sync/state'', RState),
      (''POST'', ''/v1/sync/vault'', RCreateVault),
      (''GET'', ''/v1/sync/device-list'', RDeviceList),
      (''GET'', ''/v1/sync/devices'', RDevices),
      (''POST'', ''/v1/sync/pairings'', RBeginPairing),
      (''GET'', ''/v1/sync/pairings/mine'', RPairingStatus),
      (''POST'', ''/v1/sync/pairings/{deviceId}/answer'', RAnswerPairing),
      (''POST'', ''/v1/sync/pairings/mine/confirm'', RConfirmPairing),
      (''DELETE'', ''/v1/sync/pairings/{deviceId}'', RCancelPairing),
      (''POST'', ''/v1/sync/devices'', RApprove),
      (''POST'', ''/v1/sync/devices/remove'', RRemove),
      (''POST'', ''/v1/sync/devices/key'', RUpgradeKey),
      (''POST'', ''/v1/sync/devices/rotate'', RRotate),
      (''GET'', ''/v1/sync/key-package'', RKeyPackage),
      (''POST'', ''/v1/sync/activate'', RActivate),
      (''POST'', ''/v1/sync/snapshots'', RUpload),
      (''GET'', ''/v1/sync/headers'', RHeaders),
      (''GET'', ''/v1/sync/snapshot'', RDownload),
      (''POST'', ''/v1/sync/checkpoints'', RPutCheckpoint),
      (''GET'', ''/v1/sync/checkpoints'', RCheckpoints),
      (''POST'', ''/v1/sync/reset'', RReset)]"

text \<open>
  The multiplexer of net/http: a pattern matches segment by segment, a segment in braces matches
  any nonempty segment and names its value, and a pattern for GET also serves HEAD.
\<close>

fun matchSegments :: "string list \<Rightarrow> string list \<Rightarrow> (string \<times> string) list option" where
  "matchSegments [] [] = Some []"
| "matchSegments (p # ps) (q # qs) =
     (if p \<noteq> [] \<and> p ! 0 = CHR ''{'' then
        (if q = [] then None else map_option ((#) (butlast (tl p), q)) (matchSegments ps qs))
      else if p = q then matchSegments ps qs else None)"
| "matchSegments _ _ = None"

definition matchRoute :: "string \<Rightarrow> string \<Rightarrow> string \<times> string \<times> route \<Rightarrow> (route \<times> (string \<times> string) list) option" where
  "matchRoute verb path entry =
     (case entry of (m, pattern, r) \<Rightarrow>
        if verb = m \<or> (verb = ''HEAD'' \<and> m = ''GET'')
        then map_option (Pair r) (matchSegments (splitOn (CHR ''/'') pattern) (splitOn (CHR ''/'') path)) else None)"

definition muxRoutes :: "string \<Rightarrow> string \<Rightarrow> (route \<times> (string \<times> string) list) list" where
  "muxRoutes verb path = List.map_filter (matchRoute verb path) Register"

definition handle :: "'s Handler \<Rightarrow> route \<Rightarrow> httpRequest \<Rightarrow> 's \<Rightarrow> httpResponse \<times> 's" where
  "handle H r =
     (case r of
        RState \<Rightarrow> httpState H | RCreateVault \<Rightarrow> httpCreateVault H | RDeviceList \<Rightarrow> httpDeviceList H
      | RDevices \<Rightarrow> httpDevices H | RBeginPairing \<Rightarrow> httpBeginPairing H | RPairingStatus \<Rightarrow> httpPairingStatus H
      | RAnswerPairing \<Rightarrow> httpAnswerPairing H | RConfirmPairing \<Rightarrow> httpConfirmPairing H
      | RCancelPairing \<Rightarrow> httpCancelPairing H | RApprove \<Rightarrow> httpApprove H | RRemove \<Rightarrow> httpRemove H
      | RUpgradeKey \<Rightarrow> httpUpgradeKey H | RRotate \<Rightarrow> httpRotate H | RKeyPackage \<Rightarrow> httpKeyPackage H
      | RActivate \<Rightarrow> httpActivate H | RUpload \<Rightarrow> httpUpload H | RHeaders \<Rightarrow> httpHeaders H
      | RDownload \<Rightarrow> httpDownload H | RPutCheckpoint \<Rightarrow> httpPutCheckpoint H | RCheckpoints \<Rightarrow> httpCheckpoints H
      | RReset \<Rightarrow> httpReset H)"

text \<open>The answer to a request that some route matches; other requests are answered by net/http.\<close>

definition serve :: "'s Handler \<Rightarrow> httpRequest \<Rightarrow> 's \<Rightarrow> (httpResponse \<times> 's) option" where
  "serve H request s =
     (case muxRoutes (hrMethod request) (hrPath request) of
        [] \<Rightarrow> None
      | (r, values) # _ \<Rightarrow> Some (handle H r (request\<lparr>hrPathValues := values\<rparr>) s))"

end
