(* ===== verification/Http_Facts.thy ===== *)
theory Http_Facts
  imports Service_Live Sync_Http
begin

text \<open>
  Lemmas on the HTTP layer: the signature header has one form, no two routes overlap, and every
  handler either leaves the storage alone or makes exactly one call of the service.
\<close>

section \<open>Canonical fields\<close>

lemma canonicalBase64_iff: "canonicalBase64 v = Some bs \<longleftrightarrow> v = EncodeToString bs"
  by (auto simp: canonicalBase64_def split: option.splits if_splits)

lemma canonicalFixedBase64_iff: "canonicalFixedBase64 v n \<longleftrightarrow> (\<exists>bs. v = EncodeToString bs \<and> length bs = n)"
  by (auto simp: canonicalFixedBase64_def canonicalBase64_iff split: option.splits)
    (metis canonicalBase64_iff not_Some_eq)+

lemma decodeBase64_iff: "decodeBase64 v = Inr bs \<longleftrightarrow> v = EncodeToString bs"
  by (auto simp: decodeBase64_def canonicalBase64_iff split: option.splits) (metis canonicalBase64_iff option.distinct(1))

lemma dot_not_encoded: "CHR ''.'' \<notin> set (EncodeToString bs)"
  using EncodeToString_alphabet [of bs] by (auto simp: url_alphabet_def)

lemma dot_not_number: "CHR ''.'' \<notin> set (FormatUint v)"
  using FormatUint_digits [of "CHR ''.''" v] by (auto simp: isDigit_def)

lemma ParseUint_FormatUint_iff: "ParseUint p 64 = Some t \<and> FormatUint t = p \<longleftrightarrow> p = FormatUint t"
  by auto

lemma readSignature_iff:
  "readSignature request = Inr r \<longleftrightarrow>
     (\<exists>t n sig. hrSignatures request = [FormatUint t @ ''.'' @ EncodeToString n @ ''.'' @ EncodeToString sig] \<and>
        length n = RequestNonceBytes \<and> length sig = Ed25519SignatureBytes \<and>
        r = \<lparr>rqMethod = hrMethod request, rqTarget = hrTarget request, rqBody = [], rqTimestamp = t,
             rqNonce = EncodeToString n, rqSignature = EncodeToString sig\<rparr>)"
proof
  assume "readSignature request = Inr r"
  then obtain v p0 p1 p2 t where *: "hrSignatures request = [v]" "splitOn (CHR ''.'') v = [p0, p1, p2]" "ParseUint p0 64 = Some t"
    "FormatUint t = p0" "canonicalFixedBase64 p1 RequestNonceBytes" "canonicalFixedBase64 p2 Ed25519SignatureBytes"
    "r = \<lparr>rqMethod = hrMethod request, rqTarget = hrTarget request, rqBody = [], rqTimestamp = t, rqNonce = p1, rqSignature = p2\<rparr>"
    by (auto simp: readSignature_def split: list.splits option.splits if_splits)
  then show "\<exists>t n sig. hrSignatures request = [FormatUint t @ ''.'' @ EncodeToString n @ ''.'' @ EncodeToString sig] \<and>
        length n = RequestNonceBytes \<and> length sig = Ed25519SignatureBytes \<and>
        r = \<lparr>rqMethod = hrMethod request, rqTarget = hrTarget request, rqBody = [], rqTimestamp = t,
             rqNonce = EncodeToString n, rqSignature = EncodeToString sig\<rparr>"
    by (auto simp: split_three canonicalFixedBase64_iff)
next
  assume "\<exists>t n sig. hrSignatures request = [FormatUint t @ ''.'' @ EncodeToString n @ ''.'' @ EncodeToString sig] \<and>
        length n = RequestNonceBytes \<and> length sig = Ed25519SignatureBytes \<and>
        r = \<lparr>rqMethod = hrMethod request, rqTarget = hrTarget request, rqBody = [], rqTimestamp = t,
             rqNonce = EncodeToString n, rqSignature = EncodeToString sig\<rparr>"
  then obtain t n sig where *: "hrSignatures request = [FormatUint t @ ''.'' @ EncodeToString n @ ''.'' @ EncodeToString sig]"
    "length n = RequestNonceBytes" "length sig = Ed25519SignatureBytes"
    "r = \<lparr>rqMethod = hrMethod request, rqTarget = hrTarget request, rqBody = [], rqTimestamp = t,
       rqNonce = EncodeToString n, rqSignature = EncodeToString sig\<rparr>" by blast
  have "splitOn (CHR ''.'') (FormatUint t @ ''.'' @ EncodeToString n @ ''.'' @ EncodeToString sig) =
    [FormatUint t, EncodeToString n, EncodeToString sig]"
    by (simp add: split_append split_clean dot_not_number dot_not_encoded)
  with * show "readSignature request = Inr r" by (simp add: readSignature_def) (auto simp: canonicalFixedBase64_iff)
qed

section \<open>Routes\<close>

text \<open>Two patterns that some path matches agree wherever neither has a wildcard.\<close>

definition wild :: "string \<Rightarrow> bool" where
  "wild p \<longleftrightarrow> p \<noteq> [] \<and> p ! 0 = CHR ''{''"

definition overlap :: "string list \<Rightarrow> string list \<Rightarrow> bool" where
  "overlap ps qs \<longleftrightarrow> length ps = length qs \<and> list_all (\<lambda>(p, q). wild p \<or> wild q \<or> p = q) (zip ps qs)"

lemma matchSegmentsD:
  "matchSegments ps ss = Some vs \<Longrightarrow> length ps = length ss \<and> list_all (\<lambda>(p, s). wild p \<or> p = s) (zip ps ss)"
  by (induction ps ss arbitrary: vs rule: matchSegments.induct) (auto simp: wild_def split: if_splits)

lemma match_overlap: "matchSegments ps ss \<noteq> None \<Longrightarrow> matchSegments qs ss \<noteq> None \<Longrightarrow> overlap ps qs"
proof -
  assume "matchSegments ps ss \<noteq> None" "matchSegments qs ss \<noteq> None"
  then obtain vs ws where "matchSegments ps ss = Some vs" "matchSegments qs ss = Some ws" by auto
  from matchSegmentsD [OF this(1)] matchSegmentsD [OF this(2)] show ?thesis
    by (auto simp: overlap_def list_all_length) metis
qed

definition clash :: "string \<times> string \<times> route \<Rightarrow> string \<times> string \<times> route \<Rightarrow> bool" where
  "clash a b \<longleftrightarrow> fst a = fst b \<and> overlap (splitOn (CHR ''/'') (fst (snd a))) (splitOn (CHR ''/'') (fst (snd b)))"

lemma match_clash:
  assumes "matchRoute verb path a \<noteq> None" "matchRoute verb path b \<noteq> None"
    and "fst a \<in> {''GET'', ''POST'', ''DELETE''}" "fst b \<in> {''GET'', ''POST'', ''DELETE''}"
  shows "clash a b"
  using assms match_overlap
  by (cases a; cases b) (fastforce simp: matchRoute_def clash_def split: if_splits)

lemma Register_verbs: "list_all (\<lambda>e. fst e \<in> {''GET'', ''POST'', ''DELETE''}) Register"
  by (simp add: Register_def)

lemma Register_no_clash: "sorted_wrt (\<lambda>a b. \<not> clash a b) Register"
  by (simp add: Register_def clash_def overlap_def wild_def)

lemma map_filter_exclusive:
  assumes "sorted_wrt (\<lambda>a b. f a = None \<or> f b = None) xs"
  shows "length (List.map_filter f xs) \<le> 1"
  using assms
proof (induction xs)
  case (Cons x xs)
  show ?case
  proof (cases "f x")
    case None
    with Cons show ?thesis by (simp add: List.map_filter_simps)
  next
    case (Some y)
    with Cons.prems have "\<forall>z \<in> set xs. f z = None" by auto
    then have "List.map_filter f xs = []" by (simp add: List.map_filter_def)
    with Some show ?thesis by (simp add: List.map_filter_simps)
  qed
qed (simp add: List.map_filter_simps)

lemma muxRoutes_unique: "length (muxRoutes verb path) \<le> 1"
proof -
  have "sorted_wrt (\<lambda>a b. matchRoute verb path a = None \<or> matchRoute verb path b = None) Register"
  proof (rule sorted_wrt_mono_rel [OF _ Register_no_clash])
    fix a b
    assume "a \<in> set Register" "b \<in> set Register" "\<not> clash a b"
    with Register_verbs match_clash [of verb path a b] show "matchRoute verb path a = None \<or> matchRoute verb path b = None"
      unfolding list_all_iff by blast
  qed
  then show ?thesis unfolding muxRoutes_def by (rule map_filter_exclusive)
qed

section \<open>One call of the service per request\<close>

text \<open>
  What a handler does to the storage: nothing, or one call of the service.  A response of status
  400 or above goes with a call that returned an error.
\<close>

definition calls ::
  "'s Tx \<Rightarrow> ed25519 \<Rightarrow> Config \<Rightarrow> (nat \<Rightarrow> gotime) \<Rightarrow> ('s \<Rightarrow> httpResponse \<times> 's) \<Rightarrow> bool" where
  "calls T ed cf clk f \<longleftrightarrow>
     (\<forall>s resp s'. f s = (resp, s') \<longrightarrow> s' = s \<or>
        (\<exists>c r. perform T ed cf clk c s = (r, s') \<and> (400 \<le> hpStatus resp \<longrightarrow> (\<exists>e. r = Inl e))))"

lemma calls_reading: "(\<And>x. calls T ed cf clk (k x)) \<Longrightarrow> calls T ed cf clk (reading r k)"
  by (auto simp: calls_def reading_def split: sum.splits)

lemma calls_view: "calls T ed cf clk (\<lambda>s. respond (keeperView fn s) f)"
  by (auto simp: calls_def respond_def keeperView_def storeView_def)

lemma calls_update:
  assumes "\<And>x. hpStatus (f x) < 400" "\<And>s. perform T ed cf clk c s = outcome (g s)"
  shows "calls T ed cf clk (\<lambda>s. respond (g s) f)"
  unfolding calls_def
proof (intro allI impI disjI2)
  fix s resp s'
  assume run: "respond (g s) f = (resp, s')"
  have "400 \<le> hpStatus resp \<Longrightarrow> \<exists>e. fst (outcome (g s)) = Inl e"
    using run assms(1) by (cases "fst (g s)") (auto simp: respond_def outcome_def not_le [symmetric])
  moreover have "snd (outcome (g s)) = s'" using run by (simp add: respond_def outcome_def)
  ultimately show "\<exists>c r. perform T ed cf clk c s = (r, s') \<and> (400 \<le> hpStatus resp \<longrightarrow> (\<exists>e. r = Inl e))"
    using assms(2) [of s] by (intro exI [of _ c] exI [of _ "fst (outcome (g s))"]) auto
qed

lemma status_simps [simp]: "hpStatus (writeHeader n) = n" "hpStatus (writeJSON n b) = n"
  by (simp_all add: writeHeader_def writeJSON_def)

lemmas view_defs = svcVaultState_def svcDeviceList_def svcDevices_def svcPendingPairings_def svcPairingStatus_def svcKeyPackage_def
  svcHeaders_def svcSnapshot_def svcCheckpoints_def

lemma calls_devices: "calls T ed cf clk (httpDevices H request)"
  unfolding httpDevices_def
  by (rule calls_reading)
    (auto simp: calls_def view_defs keeperView_def storeView_def respond_def split: sum.splits prod.splits)

lemma calls_reading_pair: "(\<And>a b. calls T ed cf clk (k a b)) \<Longrightarrow> calls T ed cf clk (reading r (case_prod k))"
  by (rule calls_reading) (auto split: prod.splits)

lemma calls_reads:
  "calls T ed cf clk (httpState H request)" "calls T ed cf clk (httpDeviceList H request)"
  "calls T ed cf clk (httpPairingStatus H request)" "calls T ed cf clk (httpKeyPackage H request)"
  "calls T ed cf clk (httpHeaders H request)" "calls T ed cf clk (httpDownload H request)"
  "calls T ed cf clk (httpCheckpoints H request)"
  unfolding httpState_def httpDeviceList_def httpPairingStatus_def httpKeyPackage_def httpHeaders_def httpDownload_def
    httpCheckpoints_def view_defs
  by ((rule calls_reading)+, rule calls_view)+

lemma calls_writes:
  fixes H :: "'s Handler"
  defines "ok \<equiv> calls (hdTx H) (hdEd H) (hdConfig H) (hdNow H)"
  shows "ok (httpCreateVault H request)" "ok (httpBeginPairing H request)" "ok (httpAnswerPairing H request)"
    "ok (httpConfirmPairing H request)" "ok (httpCancelPairing H request)" "ok (httpApprove H request)"
    "ok (httpRemove H request)" "ok (httpRotate H request)" "ok (httpUpgradeKey H request)" "ok (httpActivate H request)"
    "ok (httpUpload H request)" "ok (httpPutCheckpoint H request)" "ok (httpReset H request)"
  unfolding ok_def httpCreateVault_def httpBeginPairing_def httpAnswerPairing_def httpConfirmPairing_def httpCancelPairing_def
    httpApprove_def httpRemove_def httpRotate_def httpUpgradeKey_def httpActivate_def httpUpload_def httpPutCheckpoint_def
    httpReset_def
  by ((rule calls_reading_pair calls_reading)+, rule calls_update, simp, rule perform.simps)+

lemma calls_handle: "calls (hdTx H) (hdEd H) (hdConfig H) (hdNow H) (handle H r request)"
  by (cases r) (simp_all only: handle_def route.case calls_reads calls_writes calls_devices)

section \<open>Reading an upload\<close>

lemma writeError_status: "400 \<le> hpStatus (writeError code)"
  by (auto simp: writeError_def errorSpecs_def Let_def split: if_splits)

lemma respond_ok:
  assumes "respond r f = (resp, s')" "hpStatus resp < 400"
  obtains x where "r = (Inr x, s')"
proof (cases r)
  case (Pair q t)
  show ?thesis
  proof (cases q)
    case (Inl e)
    with Pair assms writeError_status [of "serviceErrorCode e"] show ?thesis by (auto simp: respond_def writeServiceError_def)
  next
    case (Inr x)
    with Pair assms(1) that show ?thesis by (auto simp: respond_def)
  qed
qed

lemma reading_ok:
  assumes "reading r k s = (resp, s')" "hpStatus resp < 400" "\<And>e. r = Inl e \<Longrightarrow> 400 \<le> hpStatus e"
  obtains x where "r = Inr x" "k x s = (resp, s')"
  using assms by (cases r) (force simp: reading_def)+

lemma reader_status:
  "readSignature request = Inl e \<Longrightarrow> 400 \<le> hpStatus e" "readBody request n = Inl e \<Longrightarrow> 400 \<le> hpStatus e"
  "decodeJSON d body = Inl e \<Longrightarrow> 400 \<le> hpStatus e" "decodeBase64 v = Inl e \<Longrightarrow> 400 \<le> hpStatus e"
  by (auto simp: readSignature_def readBody_def decodeJSON_def decodeBase64_def writeError_status
      split: list.splits option.splits if_splits prod.splits)

lemma signed_json_status: "readSignedJSON d request n = Inl e \<Longrightarrow> 400 \<le> hpStatus e"
  by (auto simp: readSignedJSON_def split: sum.splits dest: reader_status)

lemma upload_read:
  assumes "hdHost H request ''upload'' = Inr ca" "httpUpload H request s = (resp, s')" "hpStatus resp = 201"
  shows "\<exists>sreq body input rest c. hrBody request = Some body \<and> wdUpload (hdDecode H) body = Some (input, rest) \<and>
    ulCiphertext input = EncodeToString c \<and>
    respond (svcUpload (hdTx H) (hdEd H) (hdConfig H) (hdNow H) ca sreq (ulHeader input) c s) (\<lambda>accepted.
         writeJSON 201 (UploadBody \<lparr>urRevision = hRevision (shHeader (acHeader accepted)),
           urDigest = shDigest (acHeader accepted), urReceipt = acReceipt accepted,
           urAcceptedAt = formatTime (shAcceptedAt (acHeader accepted))\<rparr>)) = (resp, s')"
proof -
  have ok: "hpStatus resp < 400" using assms(3) by simp
  let ?f = "\<lambda>accepted. writeJSON 201 (UploadBody \<lparr>urRevision = hRevision (shHeader (acHeader accepted)),
           urDigest = shDigest (acHeader accepted), urReceipt = acReceipt accepted,
           urAcceptedAt = formatTime (shAcceptedAt (acHeader accepted))\<rparr>)"
  have "reading (readSignedJSON (wdUpload (hdDecode H)) request snapshotBodyBytes) (\<lambda>(input, sreq).
     reading (decodeBase64 (ulCiphertext input)) (\<lambda>ciphertext s.
       respond (svcUpload (hdTx H) (hdEd H) (hdConfig H) (hdNow H) ca sreq (ulHeader input) ciphertext s) ?f)) s = (resp, s')"
    using assms(1,2) by (simp add: httpUpload_def reading_def [of "Inr ca"])
  then obtain input sreq where in1: "readSignedJSON (wdUpload (hdDecode H)) request snapshotBodyBytes = Inr (input, sreq)"
    and run1: "reading (decodeBase64 (ulCiphertext input)) (\<lambda>ciphertext s.
       respond (svcUpload (hdTx H) (hdEd H) (hdConfig H) (hdNow H) ca sreq (ulHeader input) ciphertext s) ?f) s = (resp, s')"
    by (rule reading_ok [OF _ ok signed_json_status]) (auto split: prod.splits)
  from run1 obtain c where c: "decodeBase64 (ulCiphertext input) = Inr c"
    and run2: "respond (svcUpload (hdTx H) (hdEd H) (hdConfig H) (hdNow H) ca sreq (ulHeader input) c s) ?f = (resp, s')"
    by (rule reading_ok [OF _ ok reader_status(4)]) auto
  from in1 obtain body rest where "hrBody request = Some body" "wdUpload (hdDecode H) body = Some (input, rest)"
    by (auto simp: readSignedJSON_def readBody_def decodeJSON_def split: sum.splits option.splits if_splits prod.splits)
  with c run2 show ?thesis unfolding decodeBase64_iff by blast
qed

end
