(* ===== verification/Properties_Http.thy ===== *)
theory Properties_Http
  imports Properties_Protocol Http_Facts
begin

text \<open>
  Properties of the HTTP layer of the sync service, in composition with the service and the
  in-memory store.
\<close>

definition demoDecoders :: wireDecoders where
  "demoDecoders = \<lparr>wdCreateVault = (\<lambda>_. None), wdBeginPairing = (\<lambda>_. None), wdPairingMessage = (\<lambda>_. None), wdApprove = (\<lambda>_. None),
     wdRemove = (\<lambda>_. None), wdUpgradeKey = (\<lambda>_. None), wdActivate = (\<lambda>_. None),
     wdUpload = (\<lambda>_. Some (\<lparr>ulHeader = demoHeader, ulCiphertext = EncodeToString demoCipher\<rparr>, [0x0A])),
     wdCheckpoint = (\<lambda>_. None), wdReset = (\<lambda>_. Some (\<lparr>rtVaultEpoch = 7\<rparr>, []))\<rparr>"

definition demoHandler :: "mstate Handler" where
  "demoHandler = \<lparr>hdTx = memTx, hdEd = demoEd, hdConfig = demoConfig, hdNow = demoClock, hdHost = (\<lambda>_ _. Inr demoCaller),
     hdDecode = demoDecoders\<rparr>"

definition demoHttp :: "string \<Rightarrow> httpRequest" where
  "demoHttp path = \<lparr>hrMethod = ''POST'', hrTarget = ''/v1/sync'', hrPath = path, hrQuery = [], hrPathValues = [],
     hrSignatures = [FormatUint 0 @ ''.'' @ demoNonce 2 @ ''.'' @ demoSignature], hrBody = Some []\<rparr>"

lemma demoHandler_sel [simp]: "hdTx demoHandler = memTx" "hdEd demoHandler = demoEd" "hdConfig demoHandler = demoConfig"
  "hdNow demoHandler = demoClock" "hdHost demoHandler r op = Inr demoCaller" "hdDecode demoHandler = demoDecoders"
  by (simp_all add: demoHandler_def)

lemma demo_read [simp]: "readSignature (demoHttp path) = Inr (demoRequest 2)"
  unfolding readSignature_iff
  by (rule exI [of _ 0], rule exI [of _ "replicate 16 2"], rule exI [of _ "replicate 64 0"])
    (simp add: demoHttp_def demoRequest_def demoNonce_def demoSignature_def size_consts)

lemma demoHttp_sel [simp]: "hrMethod (demoHttp p) = ''POST''" "hrPath (demoHttp p) = p" "hrBody (demoHttp p) = Some []"
  "demoHttp p\<lparr>hrPathValues := []\<rparr> = demoHttp p"
  by (simp_all add: demoHttp_def)

lemma demoRequest_body [simp]: "demoRequest n\<lparr>rqBody := []\<rparr> = demoRequest n"
  by (simp add: demoRequest_def)

lemma demo_http_upload:
  "httpUpload demoHandler (demoHttp path) demoCreated =
     (writeJSON 201 (UploadBody \<lparr>urRevision = 1, urDigest = headerDigest demoHeader, urReceipt = demoSignature,
        urAcceptedAt = formatTime 0\<rparr>), demoUploaded)"
  by (simp add: httpUpload_def reading_def readSignedJSON_def readBody_def decodeJSON_def demoDecoders_def jsonSpace_def decodeBase64_def canonicalBase64_def demo_upload respond_def demoStored_def)



text \<open>
  C31.  A client that gets an error knows that nothing happened: after a response with a status of
  400 or above, every vault is exactly what it was before the request.
\<close>

theorem http_errors_change_nothing:
  assumes "hdTx H = memTx" "reachable (hdEd H) (hdConfig H) now s" "serve H request s = Some (resp, s')" "400 \<le> hpStatus resp"
  shows "same_vault (mview s) (mview s') v"
proof -
  obtain r vs where "handle H r (request\<lparr>hrPathValues := vs\<rparr>) s = (resp, s')"
    using assms(3) by (auto simp: serve_def split: list.splits)
  then consider "s' = s" | c e where "perform (hdTx H) (hdEd H) (hdConfig H) (hdNow H) c s = (Inl e, s')"
    using calls_handle [of H r "request\<lparr>hrPathValues := vs\<rparr>"] assms(4) unfolding calls_def by blast
  then show ?thesis
  proof cases
    case 2
    from mem.perform_err [OF reachable_ok(1) [OF assms(2)] this [unfolded assms(1)]] show ?thesis .
  qed simp
qed

lemma demo_http_reset:
  "\<exists>s'. serve demoHandler (demoHttp ''/v1/sync/reset'') demoCreated = Some (writeError codeConflict, s')"
  by (simp add: serve_def muxRoutes_def Register_def List.map_filter_simps matchRoute_def handle_def httpReset_def reading_def
      readSignedJSON_def readBody_def decodeJSON_def demoDecoders_def respond_def writeServiceError_def serviceErrorCode_def
      svcReset_def resetTx_def demo_eval demo_state_defs)

theorem http_errors_change_nothing_witness:
  "\<exists>s'. serve demoHandler (demoHttp ''/v1/sync/reset'') demoCreated = Some (writeError codeConflict, s') \<and>
     same_vault (mview demoCreated) (mview s') demoVaultID"
  using demo_http_reset http_errors_change_nothing [of demoHandler 0 demoCreated "demoHttp ''/v1/sync/reset''" "writeError codeConflict"]
    demo_run_created
  by (auto simp: writeError_def errorSpecs_def code_defs)

text \<open>
  C32.  What a client posts is what it downloads: when an upload request is answered with status
  201, the next download of the same caller, at any readings of the clock, is answered with status
  200 and carries the header and the very ciphertext text of the posted body.
\<close>

theorem http_upload_then_download:
  assumes "hdTx H = memTx" "reachable (hdEd H) (hdConfig H) now s"
    and "hdHost H request ''upload'' = Inr ca" "hdHost H request' ''download'' = Inr ca"
    and "httpUpload H request s = (resp, s')" "hpStatus resp = 201"
  shows "\<exists>body input rest b. hrBody request = Some body \<and> wdUpload (hdDecode H) body = Some (input, rest) \<and>
    httpDownload (H\<lparr>hdNow := clk'\<rparr>) request' s' = (writeJSON 200 (SnapshotBody b), s') \<and>
    ssHeader b = ulHeader input \<and> ssCiphertext b = ulCiphertext input"
proof -
  obtain sreq body input rest c where req: "hrBody request = Some body" "wdUpload (hdDecode H) body = Some (input, rest)"
    "ulCiphertext input = EncodeToString c"
    and run: "respond (svcUpload memTx (hdEd H) (hdConfig H) (hdNow H) ca sreq (ulHeader input) c s) (\<lambda>accepted.
         writeJSON 201 (UploadBody \<lparr>urRevision = hRevision (shHeader (acHeader accepted)),
           urDigest = shDigest (acHeader accepted), urReceipt = acReceipt accepted,
           urAcceptedAt = formatTime (shAcceptedAt (acHeader accepted))\<rparr>)) = (resp, s')"
    using upload_read [OF assms(3,5,6)] unfolding assms(1) by blast
  obtain acc where up: "svcUpload memTx (hdEd H) (hdConfig H) (hdNow H) ca sreq (ulHeader input) c s = (Inr acc, s')"
    by (rule respond_ok [OF run]) (simp add: assms(6))
  have "shHeader (acHeader acc) = ulHeader input"
    by (rule mem.svcUpload_ok [OF reachable_ok [OF assms(2)] _ up]) (use assms(2) in simp_all)
  moreover have "svcSnapshot memTx clk' ca s' = (Inr \<lparr>snapHeader = acHeader acc, snapCiphertext = c, snapVault = acVault acc\<rparr>, s')"
    by (rule memr.upload_snapshot [OF reachable_ok [OF assms(2)] _ up]) (use assms(2) in simp)
  ultimately show ?thesis using req assms(1,4) by (simp add: httpDownload_def reading_def respond_def writeJSON_def)
qed

theorem http_upload_then_download_witness:
  "\<exists>b. httpDownload (demoHandler\<lparr>hdNow := demoClock\<rparr>) (demoHttp ''/v1/sync/snapshot'') demoUploaded =
     (writeJSON 200 (SnapshotBody b), demoUploaded) \<and> ssHeader b = demoHeader \<and> ssCiphertext b = EncodeToString demoCipher"
  using http_upload_then_download [of demoHandler 0 demoCreated "demoHttp ''/v1/sync/snapshots''" demoCaller
      "demoHttp ''/v1/sync/snapshot''", OF _ _ _ _ demo_http_upload, of demoClock] demo_run_created
  by (auto simp: demoDecoders_def)

text \<open>
  C33.  The signature header has exactly one accepted form: the decimal timestamp, the nonce and the
  signature in canonical base64url, joined by dots.  What is read is what was written, and the
  method and the target of the request are the ones that were signed.
\<close>

theorem signature_header_round_trip:
  "readSignature request = Inr r \<longleftrightarrow>
     (\<exists>t n sig. hrSignatures request = [FormatUint t @ ''.'' @ EncodeToString n @ ''.'' @ EncodeToString sig] \<and>
        length n = RequestNonceBytes \<and> length sig = Ed25519SignatureBytes \<and>
        r = \<lparr>rqMethod = hrMethod request, rqTarget = hrTarget request, rqBody = [], rqTimestamp = t,
             rqNonce = EncodeToString n, rqSignature = EncodeToString sig\<rparr>)"
  by (rule readSignature_iff)

text \<open>
  C34.  The registered routes never conflict: for every method and path at most one of them
  matches, so the handler of a request does not depend on the order of registration.
\<close>

theorem routes_never_conflict: "length (muxRoutes verb path) \<le> 1"
  by (rule muxRoutes_unique)

end
