(* ===== verification/Go_Strings.thy ===== *)
theory Go_Strings
  imports Go_Text "HOL-Library.Char_ord"
begin

text \<open>
  Parts of Go's packages strings and unicode that the release rules, the update feed and the audit
  chain use.  A string is its bytes, so a white space character is the list of the bytes of its
  UTF-8 form.
\<close>

section \<open>strings.TrimSpace\<close>

definition spaceRunes :: "string list" where
  "spaceRunes =
     [[CHR 0x20], [CHR 0x09], [CHR 0x0A], [CHR 0x0B], [CHR 0x0C], [CHR 0x0D], [CHR 0xC2, CHR 0x85], [CHR 0xC2, CHR 0xA0],
      [CHR 0xE1, CHR 0x9A, CHR 0x80]] @
     map (\<lambda>c. [CHR 0xE2, CHR 0x80, c])
       [CHR 0x80, CHR 0x81, CHR 0x82, CHR 0x83, CHR 0x84, CHR 0x85, CHR 0x86, CHR 0x87, CHR 0x88, CHR 0x89, CHR 0x8A,
        CHR 0xA8, CHR 0xA9, CHR 0xAF] @
     [[CHR 0xE2, CHR 0x81, CHR 0x9F], [CHR 0xE3, CHR 0x80, CHR 0x80]]"

function trimRunes :: "string list \<Rightarrow> string \<Rightarrow> string" where
  "trimRunes runes s =
     (case find (\<lambda>r. r \<noteq> [] \<and> take (length r) s = r) runes of
        None \<Rightarrow> s
      | Some r \<Rightarrow> trimRunes runes (drop (length r) s))"
  by pat_completeness auto

termination
proof (relation "measure (\<lambda>(_, s). length s)")
  fix runes :: "string list" and s r :: string
  assume "find (\<lambda>r. r \<noteq> [] \<and> take (length r) s = r) runes = Some r"
  then have "r \<noteq> []" "take (length r) s = r" by (auto simp: find_Some_iff)
  then have "s \<noteq> []" by (cases s) auto
  with \<open>r \<noteq> []\<close> show "((runes, drop (length r) s), runes, s) \<in> measure (\<lambda>(_, s). length s)" by simp
qed simp

declare trimRunes.simps [simp del]

definition TrimSpace :: "string \<Rightarrow> string" where
  "TrimSpace s = rev (trimRunes (map rev spaceRunes) (rev (trimRunes spaceRunes s)))"

lemma TrimSpace_Nil [simp]: "TrimSpace [] = []"
proof -
  have "trimRunes rs [] = []" for rs
    by (subst trimRunes.simps) (auto split: option.split simp: find_Some_iff)
  then show ?thesis by (simp add: TrimSpace_def)
qed

section \<open>strings.Cut and strings.HasPrefix\<close>

fun Cut :: "string \<Rightarrow> string \<Rightarrow> string \<times> string option" where
  "Cut sep [] = ([], if sep = [] then Some [] else None)"
| "Cut sep (c # cs) =
     (if take (length sep) (c # cs) = sep then ([], Some (drop (length sep) (c # cs)))
      else (case Cut sep cs of (before, after) \<Rightarrow> (c # before, after)))"

lemma Cut_join: "Cut sep s = (before, after) \<Longrightarrow> s = before @ (case after of None \<Rightarrow> [] | Some t \<Rightarrow> sep @ t)"
proof (induction s arbitrary: before after)
  case (Cons c cs)
  show ?case
  proof (cases "take (length sep) (c # cs) = sep")
    case True
    with Cons.prems show ?thesis using append_take_drop_id [of "length sep" "c # cs"] by auto
  next
    case False
    with Cons.prems Cons.IH show ?thesis by (auto split: prod.splits)
  qed
qed (auto split: if_splits)

definition HasPrefix :: "string \<Rightarrow> string \<Rightarrow> bool" where
  "HasPrefix s p \<longleftrightarrow> take (length p) s = p"

section \<open>Character classes\<close>

definition lowerAlpha :: "char \<Rightarrow> bool" where "lowerAlpha c \<longleftrightarrow> CHR ''a'' \<le> c \<and> c \<le> CHR ''z''"
definition upperAlpha :: "char \<Rightarrow> bool" where "upperAlpha c \<longleftrightarrow> CHR ''A'' \<le> c \<and> c \<le> CHR ''Z''"
definition decimalChar :: "char \<Rightarrow> bool" where "decimalChar c \<longleftrightarrow> CHR ''0'' \<le> c \<and> c \<le> CHR ''9''"

lemma decimalChar_isDigit: "decimalChar c \<longleftrightarrow> isDigit c"
proof
  assume "decimalChar c"
  then have "of_char c \<in> {48 :: nat ..< 58}" by (auto simp: decimalChar_def less_eq_char_def)
  then have "of_char c \<in> set [48 :: nat ..< 58]" by (simp only: set_upt)
  then have "char_of (of_char c :: nat) \<in> char_of ` set [48 :: nat ..< 58]" by (rule imageI)
  moreover have "char_of ` set [48 :: nat ..< 58] = set ''0123456789''" by (simp add: upt_rec char_of_def bit_0)
  ultimately show "isDigit c" by (simp only: isDigit_def char_of_char)
qed (auto simp: isDigit_def decimalChar_def less_eq_char_def)

lemmas char_classes = lowerAlpha_def upperAlpha_def decimalChar_def less_eq_char_def less_char_def

end
