(* ===== verification/Audit_Chain.thy ===== *)
theory Audit_Chain
  imports Device_List Go_Strings
begin

text \<open>
  internal/admin/audit_chain.go: the hash chain over the admin audit log and the signed checkpoints
  that pin it.  The database is a record of the two tables; the result of a query is what the
  statement in the code selects from them.  A row carries its canonical text, which the database
  computes from the columns.  \<open>fails n\<close> says whether the \<open>n\<close>-th access to the database of a call fails,
  so that every error return is a branch.  The JSON encoding of a checkpoint is the parameter
  \<open>marshal\<close>; the current time is a parameter too.
\<close>

section \<open>Definitions\<close>

record auditRow =
  arSeq :: int
  arID :: int
  arPrevHash :: bytes
  arHash :: bytes
  arCanonical :: string

record AuditChainBreak =
  abSeq :: int
  abID :: int
  abReason :: string

record AuditChainReport =
  crVerified :: bool
  crRows :: int
  crHeadSeq :: int
  crHeadID :: int
  crHeadHash :: bytes
  crFirstBreak :: "AuditChainBreak option"

record AuditCheckpoint =
  acpID :: int
  acpCoverSeq :: int
  acpChainHash :: bytes
  acpKeyID :: string
  acpSignedAt :: gotime
  acpSignature :: bytes

record AuditCheckpointReport =
  aprVerified :: bool
  aprCheckpoints :: int
  aprLatest :: "AuditCheckpoint option"
  aprFirstBreak :: string

record auditDB =
  adLog :: "auditRow list"
  adCheckpoints :: "AuditCheckpoint list"
  adNextID :: int

datatype audit_error = AuditDatabase | AuditBadKey | AuditNoKeyID | AuditBadHead | AuditMarshal

definition auditChainGenesisHash :: bytes where
  "auditChainGenesisHash = replicate 32 0"

definition emptyReport :: AuditChainReport where
  "emptyReport = \<lparr>crVerified = False, crRows = 0, crHeadSeq = 0, crHeadID = 0, crHeadHash = [], crFirstBreak = None\<rparr>"

definition breakAt :: "auditRow \<Rightarrow> string \<Rightarrow> AuditChainReport \<Rightarrow> AuditChainReport" where
  "breakAt row reason report =
     report\<lparr>crFirstBreak := Some \<lparr>abSeq = arSeq row, abID = arID row, abReason = reason\<rparr>\<rparr>"

text \<open>The loop over the rows; \<open>n\<close> counts the accesses to the database.\<close>

fun verifyRows ::
  "(nat \<Rightarrow> bool) \<Rightarrow> nat \<Rightarrow> bytes \<Rightarrow> AuditChainReport \<Rightarrow> auditRow list \<Rightarrow> audit_error + AuditChainReport" where
  "verifyRows fails n expectedPrev report [] =
     (if fails n then Inl AuditDatabase else Inr (report\<lparr>crVerified := True\<rparr>))"
| "verifyRows fails n expectedPrev report (row # rows) =
     (if fails n then Inl AuditDatabase
      else let report = report\<lparr>crRows := crRows report + 1\<rparr>
           in if length (arPrevHash row) \<noteq> 32 \<or> length (arHash row) \<noteq> 32
              then Inr (breakAt row ''audit row has no chain hash'' report)
              else if arPrevHash row \<noteq> expectedPrev
              then Inr (breakAt row ''audit row does not link to the previous row'' report)
              else if arHash row \<noteq> Sum256 (expectedPrev @ bytes_of (arCanonical row))
              then Inr (breakAt row ''audit row hash does not match its contents'' report)
              else verifyRows fails (Suc n) (arHash row)
                     (report\<lparr>crHeadSeq := arSeq row, crHeadID := arID row, crHeadHash := arHash row\<rparr>) rows)"

definition VerifyAuditChain :: "(nat \<Rightarrow> bool) \<Rightarrow> auditDB \<Rightarrow> audit_error + AuditChainReport" where
  "VerifyAuditChain fails db =
     (if fails 0 then Inl AuditDatabase
      else verifyRows fails 1 auditChainGenesisHash emptyReport (sort_key arSeq (adLog db)))"

record auditCheckpointPayload =
  pyVersion :: string
  pyCoverSeq :: int
  pyChainHash :: string
  pyKeyID :: string
  pySignedAt :: string

definition auditCheckpointVersion :: string where
  "auditCheckpointVersion = ''sesame-admin-audit-checkpoint-v1''"

text \<open>\<open>hex.EncodeToString\<close>, and the layout of \<open>auditCheckpointTimeFormat\<close> for a time in UTC.\<close>

definition hexDigit :: "nat \<Rightarrow> char" where
  "hexDigit n = ''0123456789abcdef'' ! n"

definition hexEncode :: "bytes \<Rightarrow> string" where
  "hexEncode bs = concat (map (\<lambda>b. [hexDigit (unat b div 16), hexDigit (unat b mod 16)]) bs)"

definition auditTimeFormat :: "gotime \<Rightarrow> string" where
  "auditTimeFormat t =
     (let micros = t div 1000
      in butlast (formatRFC3339 (micros div 1000000)) @ ''.'' @ padded 6 (micros mod 1000000) @ ''Z'')"

type_synonym marshaller = "auditCheckpointPayload \<Rightarrow> bytes option"

definition auditCheckpointMessage :: "marshaller \<Rightarrow> int \<Rightarrow> bytes \<Rightarrow> string \<Rightarrow> gotime \<Rightarrow> audit_error + bytes" where
  "auditCheckpointMessage marshal coverSeq chainHash keyID signedAt =
     (case marshal \<lparr>pyVersion = auditCheckpointVersion, pyCoverSeq = coverSeq, pyChainHash = hexEncode chainHash,
                    pyKeyID = keyID, pySignedAt = auditTimeFormat signedAt\<rparr>
      of None \<Rightarrow> Inl AuditMarshal | Some message \<Rightarrow> Inr message)"

text \<open>
  The head of the log is the row the statement orders last.  An insert whose sequence number is
  taken does nothing and returns no row.
\<close>

definition chainHead :: "auditDB \<Rightarrow> auditRow option" where
  "chainHead db = (case rev (sort_key arSeq (adLog db)) of [] \<Rightarrow> None | row # _ \<Rightarrow> Some row)"

definition lastCoverSeq :: "auditDB \<Rightarrow> int" where
  "lastCoverSeq db = (case map acpCoverSeq (adCheckpoints db) of [] \<Rightarrow> 0 | seqs \<Rightarrow> Max (set seqs))"

definition insertCheckpoint :: "AuditCheckpoint \<Rightarrow> auditDB \<Rightarrow> AuditCheckpoint option \<times> auditDB" where
  "insertCheckpoint c db =
     (if acpCoverSeq c \<in> set (map acpCoverSeq (adCheckpoints db)) then (None, db)
      else let stored = c\<lparr>acpID := adNextID db\<rparr>
           in (Some stored, db\<lparr>adCheckpoints := adCheckpoints db @ [stored], adNextID := adNextID db + 1\<rparr>))"

definition CheckpointAuditChain ::
  "(nat \<Rightarrow> bool) \<Rightarrow> ed25519 \<Rightarrow> marshaller \<Rightarrow> gotime \<Rightarrow> bytes \<Rightarrow> string \<Rightarrow> auditDB \<Rightarrow>
     (audit_error + AuditCheckpoint option) \<times> auditDB" where
  "CheckpointAuditChain fails ed marshal now signingKey keyID db =
     (if length signingKey \<noteq> 64 then (Inl AuditBadKey, db)
      else let keyID = TrimSpace keyID
      in if keyID = [] then (Inl AuditNoKeyID, db)
      else if fails 0 then (Inl AuditDatabase, db)
      else case chainHead db of
        None \<Rightarrow> (Inr None, db)
      | Some head \<Rightarrow>
          if length (arHash head) \<noteq> 32 then (Inl AuditBadHead, db)
          else if fails 1 then (Inl AuditDatabase, db)
          else if arSeq head \<le> lastCoverSeq db then (Inr None, db)
          else let signedAt = now div 1000 * 1000
          in case auditCheckpointMessage marshal (arSeq head) (arHash head) keyID signedAt of
            Inl e \<Rightarrow> (Inl e, db)
          | Inr message \<Rightarrow>
              if fails 2 then (Inl AuditDatabase, db)
              else case insertCheckpoint \<lparr>acpID = 0, acpCoverSeq = arSeq head, acpChainHash = arHash head, acpKeyID = keyID,
                          acpSignedAt = signedAt, acpSignature = edSign ed signingKey message\<rparr> db
                   of (stored, db') \<Rightarrow> (Inr stored, db'))"

definition hashAt :: "auditDB \<Rightarrow> int \<Rightarrow> bytes option" where
  "hashAt db seq = map_option arHash (find (\<lambda>row. arSeq row = seq) (adLog db))"

definition checkpointBreak :: "AuditCheckpointReport \<Rightarrow> int \<Rightarrow> string \<Rightarrow> AuditCheckpointReport" where
  "checkpointBreak report coverSeq reason =
     report\<lparr>aprFirstBreak := ''checkpoint '' @ (if coverSeq < 0 then ''-'' else []) @ show_nat (nat \<bar>coverSeq\<bar>) @ reason\<rparr>"

fun verifyCheckpoints ::
  "(nat \<Rightarrow> bool) \<Rightarrow> nat \<Rightarrow> ed25519 \<Rightarrow> marshaller \<Rightarrow> bytes \<Rightarrow> auditDB \<Rightarrow> AuditCheckpointReport \<Rightarrow> AuditCheckpoint list \<Rightarrow>
     audit_error + AuditCheckpointReport" where
  "verifyCheckpoints fails n ed marshal publicKey db report [] = Inr (report\<lparr>aprVerified := True\<rparr>)"
| "verifyCheckpoints fails n ed marshal publicKey db report (c # cs) =
     (case auditCheckpointMessage marshal (acpCoverSeq c) (acpChainHash c) (acpKeyID c) (acpSignedAt c) of
        Inl e \<Rightarrow> Inl e
      | Inr message \<Rightarrow>
          if \<not> edVerify ed publicKey message (acpSignature c)
          then Inr (checkpointBreak report (acpCoverSeq c) '' signature does not match'')
          else if fails n then Inl AuditDatabase
          else case hashAt db (acpCoverSeq c) of
            None \<Rightarrow> Inr (checkpointBreak report (acpCoverSeq c) '' covers a missing audit row'')
          | Some chainHash \<Rightarrow>
              if chainHash \<noteq> acpChainHash c
              then Inr (checkpointBreak report (acpCoverSeq c) '' does not match the audit row'')
              else verifyCheckpoints fails (Suc n) ed marshal publicKey db (report\<lparr>aprLatest := Some c\<rparr>) cs)"

text \<open>Reading \<open>k\<close> checkpoints takes the query, \<open>k\<close> scans, the final error and the close: \<open>k + 3\<close> accesses.\<close>

definition VerifyAuditCheckpoints ::
  "(nat \<Rightarrow> bool) \<Rightarrow> ed25519 \<Rightarrow> marshaller \<Rightarrow> bytes \<Rightarrow> string \<Rightarrow> auditDB \<Rightarrow> audit_error + AuditCheckpointReport" where
  "VerifyAuditCheckpoints fails ed marshal publicKey keyID db =
     (if length publicKey \<noteq> 32 then Inl AuditBadKey
      else let checkpoints = sort_key acpCoverSeq (filter (\<lambda>c. acpKeyID c = TrimSpace keyID) (adCheckpoints db));
               reads = length checkpoints + 3
      in if list_ex fails [0..<reads] then Inl AuditDatabase
      else verifyCheckpoints fails reads ed marshal publicKey db
             \<lparr>aprVerified = False, aprCheckpoints = int (length checkpoints), aprLatest = None, aprFirstBreak = []\<rparr>
             checkpoints)"

section \<open>What a verified chain is\<close>

text \<open>The rows in the order of the query, and the reference: every row extends the digest before it.\<close>

definition auditLog :: "auditDB \<Rightarrow> auditRow list" where
  "auditLog db = sort_key arSeq (adLog db)"

definition chainDigest :: "bytes \<Rightarrow> string list \<Rightarrow> bytes" where
  "chainDigest = foldl (\<lambda>h canonical. Sum256 (h @ bytes_of canonical))"

fun chained :: "bytes \<Rightarrow> auditRow list \<Rightarrow> bool" where
  "chained h [] \<longleftrightarrow> True"
| "chained h (row # rows) \<longleftrightarrow>
     arPrevHash row = h \<and> arHash row = Sum256 (h @ bytes_of (arCanonical row)) \<and> chained (arHash row) rows"

definition hashedInputs :: "auditRow list \<Rightarrow> bytes set" where
  "hashedInputs rows = (\<lambda>row. arPrevHash row @ bytes_of (arCanonical row)) ` set rows"

definition hashBroken :: "auditRow list \<Rightarrow> auditRow list \<Rightarrow> bool" where
  "hashBroken rows rows' \<longleftrightarrow>
     (\<exists>x \<in> hashedInputs rows. \<exists>y \<in> hashedInputs rows'. x \<noteq> y \<and> Sum256 x = Sum256 y) \<or>
     (\<exists>x \<in> hashedInputs rows \<union> hashedInputs rows'. Sum256 x = auditChainGenesisHash)"

lemma chained_append: "chained h (xs @ ys) \<longleftrightarrow> chained h xs \<and> chained (chainDigest h (map arCanonical xs)) ys"
  by (induction xs arbitrary: h) (simp_all add: chainDigest_def cong: conj_cong)

lemma chained_snoc:
  "chained h (rows @ [row]) \<longleftrightarrow> chained h rows \<and> arPrevHash row = chainDigest h (map arCanonical rows) \<and>
     arHash row = Sum256 (arPrevHash row @ bytes_of (arCanonical row))"
  by (auto simp: chained_append)

lemma chainDigest_simps:
  "chainDigest h [] = h" "chainDigest h (cs @ [c]) = Sum256 (chainDigest h cs @ bytes_of c)"
  by (simp_all add: chainDigest_def)

lemma hashedInputs_snoc: "hashedInputs (rows @ [row]) = insert (arPrevHash row @ bytes_of (arCanonical row)) (hashedInputs rows)"
  by (auto simp: hashedInputs_def)

lemma length_chainDigest: "length (chainDigest auditChainGenesisHash cs) = 32"
  by (cases cs rule: rev_cases) (simp_all add: chainDigest_simps auditChainGenesisHash_def length_Sum256)

lemma verifyRows_verified:
  assumes "verifyRows fails n h report rows = Inr report'" "crVerified report'" "\<not> crVerified report"
  shows "chained h rows"
  using assms
  by (induction fails n h report rows rule: verifyRows.induct)
     (auto simp: Let_def breakAt_def split: if_splits)

lemma verifyRows_complete:
  assumes "chained h rows" "length h = 32" "\<And>k. \<not> fails k"
  shows "\<exists>report'. verifyRows fails n h report rows = Inr report' \<and> crVerified report' \<and>
    crRows report' = crRows report + int (length rows) \<and>
    crHeadHash report' = (if rows = [] then crHeadHash report else chainDigest h (map arCanonical rows))"
  using assms
proof (induction rows arbitrary: h n report)
  case (Cons row rows)
  let ?r = "report\<lparr>crRows := crRows report + 1, crHeadSeq := arSeq row, crHeadID := arID row, crHeadHash := arHash row\<rparr>"
  have "length (arHash row) = 32" using Cons.prems(1) by (simp add: length_Sum256)
  with Cons.IH [of "arHash row" "Suc n" ?r] Cons.prems show ?case by (auto simp: Let_def chainDigest_def)
qed simp

lemma chain_commits:
  assumes "chained auditChainGenesisHash rows" "chained auditChainGenesisHash rows'"
    and "chainDigest auditChainGenesisHash (map arCanonical rows) = chainDigest auditChainGenesisHash (map arCanonical rows')"
  shows "map arCanonical rows = map arCanonical rows' \<or> hashBroken rows rows'"
  using assms
proof (induction rows arbitrary: rows' rule: rev_induct)
  case Nil
  show ?case
  proof (cases rows' rule: rev_cases)
    case (snoc ys y)
    with Nil have "Sum256 (arPrevHash y @ bytes_of (arCanonical y)) = auditChainGenesisHash"
      by (simp add: chained_snoc chainDigest_simps)
    with snoc show ?thesis by (auto simp: hashBroken_def hashedInputs_snoc)
  qed simp
next
  case (snoc x xs)
  note IH = snoc.IH
  note x = snoc.prems(1) [unfolded chained_snoc]
  show ?case
  proof (cases rows' rule: rev_cases)
    case Nil
    with x snoc.prems(3) have "Sum256 (arPrevHash x @ bytes_of (arCanonical x)) = auditChainGenesisHash"
      by (simp add: chainDigest_simps)
    then show ?thesis by (auto simp: hashBroken_def hashedInputs_snoc)
  next
    case (snoc ys y)
    have y: "chained auditChainGenesisHash ys" "arPrevHash y = chainDigest auditChainGenesisHash (map arCanonical ys)"
      using \<open>chained auditChainGenesisHash rows'\<close> snoc by (simp_all add: chained_snoc)
    let ?x = "arPrevHash x @ bytes_of (arCanonical x)" and ?y = "arPrevHash y @ bytes_of (arCanonical y)"
    have same: "Sum256 ?x = Sum256 ?y"
      using \<open>chainDigest _ (map arCanonical (xs @ [x])) = _\<close> x y snoc by (simp add: chainDigest_simps)
    show ?thesis
    proof (cases "?x = ?y")
      case False
      with same snoc show ?thesis by (auto simp: hashBroken_def hashedInputs_snoc)
    next
      case True
      with x y have "chainDigest auditChainGenesisHash (map arCanonical xs) = chainDigest auditChainGenesisHash (map arCanonical ys)"
        "arCanonical x = arCanonical y"
        by (simp_all add: append_eq_append_conv length_chainDigest)
      with IH [OF _ y(1)] x have "map arCanonical xs = map arCanonical ys \<or> hashBroken xs ys" by simp
      with snoc \<open>arCanonical x = arCanonical y\<close> show ?thesis
        by (auto simp: hashBroken_def hashedInputs_snoc)
    qed
  qed
qed

section \<open>What a checkpoint pins\<close>

definition covered :: "auditDB \<Rightarrow> int \<Rightarrow> auditRow list" where
  "covered db seq = takeWhile (\<lambda>row. arSeq row \<le> seq) (auditLog db)"

definition chain_ok :: "auditDB \<Rightarrow> bool" where
  "chain_ok db \<longleftrightarrow> (\<exists>fails report. VerifyAuditChain fails db = Inr report \<and> crVerified report)"

lemma chain_ok_iff: "chain_ok db \<longleftrightarrow> chained auditChainGenesisHash (auditLog db)"
proof
  assume "chain_ok db"
  then show "chained auditChainGenesisHash (auditLog db)"
    by (auto simp: chain_ok_def VerifyAuditChain_def auditLog_def emptyReport_def split: if_splits intro: verifyRows_verified)
next
  assume "chained auditChainGenesisHash (auditLog db)"
  from verifyRows_complete [OF this, of "\<lambda>_. False" 1 emptyReport]
  show "chain_ok db"
    by (auto simp: chain_ok_def VerifyAuditChain_def auditLog_def auditChainGenesisHash_def intro!: exI [of _ "\<lambda>_. False"])
qed

lemma chained_prefix: "chained h rows \<Longrightarrow> chained h (takeWhile P rows)"
  using chained_append [of h "takeWhile P rows" "dropWhile P rows"] by simp

lemma covered_split:
  assumes "distinct (map arSeq (adLog db))" "auditLog db = xs @ row # ys"
  shows "covered db (arSeq row) = xs @ [row]"
proof -
  have "sorted (map arSeq (xs @ row # ys))" "distinct (map arSeq (xs @ row # ys))"
    using sorted_sort_key [of arSeq "adLog db"] assms(1)
    unfolding assms(2) [symmetric] auditLog_def by (simp_all add: distinct_map)
  then have "\<forall>x \<in> set xs. arSeq x \<le> arSeq row" "\<forall>y \<in> set ys. \<not> arSeq y \<le> arSeq row"
    by (auto simp: sorted_append image_iff) (metis order_antisym)
  then show ?thesis
    unfolding covered_def assms(2) by (cases ys) (auto simp: takeWhile_append2)
qed

lemma hashAt_covered:
  assumes "chain_ok db" "distinct (map arSeq (adLog db))" "hashAt db seq = Some h"
  shows "h = chainDigest auditChainGenesisHash (map arCanonical (covered db seq))"
proof -
  obtain row where row: "row \<in> set (adLog db)" "arSeq row = seq" "arHash row = h"
    using assms(3) by (force simp: hashAt_def find_Some_iff)
  then have "row \<in> set (auditLog db)" by (simp add: auditLog_def)
  then obtain xs ys where xs: "auditLog db = xs @ row # ys" by (auto simp: in_set_conv_decomp)
  have "chained auditChainGenesisHash ((xs @ [row]) @ ys)" using assms(1) xs by (simp add: chain_ok_iff)
  then have "arHash row = chainDigest auditChainGenesisHash (map arCanonical (xs @ [row]))"
    unfolding chained_append by (simp add: chained_snoc chainDigest_simps)
  with covered_split [OF assms(2) xs] row show ?thesis by simp
qed

lemma chainHead_last: "chainHead db = Some row \<longleftrightarrow> auditLog db \<noteq> [] \<and> last (auditLog db) = row"
proof -
  have "chainHead db = (case rev (auditLog db) of [] \<Rightarrow> None | row # _ \<Rightarrow> Some row)" by (simp add: chainHead_def auditLog_def)
  then show ?thesis by (cases "auditLog db" rule: rev_cases) auto
qed

lemma CheckpointAuditChain_ok:
  assumes "CheckpointAuditChain fails ed marshal now signingKey keyID db = (Inr (Some c), db')"
  obtains row message where "chainHead db = Some row" "acpCoverSeq c = arSeq row" "acpChainHash c = arHash row"
    "acpKeyID c = TrimSpace keyID" "lastCoverSeq db < acpCoverSeq c"
    "auditCheckpointMessage marshal (acpCoverSeq c) (acpChainHash c) (acpKeyID c) (acpSignedAt c) = Inr message"
    "acpSignature c = edSign ed signingKey message" "adLog db' = adLog db" "adCheckpoints db' = adCheckpoints db @ [c]"
  using assms
  by (auto simp: CheckpointAuditChain_def Let_def insertCheckpoint_def split: if_splits option.splits sum.splits)

lemma verifyCheckpoints_all:
  assumes "verifyCheckpoints fails n ed marshal publicKey db report cs = Inr report'" "aprVerified report'" "\<not> aprVerified report"
    and "c \<in> set cs"
  shows "hashAt db (acpCoverSeq c) = Some (acpChainHash c) \<and>
    (\<exists>message. auditCheckpointMessage marshal (acpCoverSeq c) (acpChainHash c) (acpKeyID c) (acpSignedAt c) = Inr message \<and>
       edVerify ed publicKey message (acpSignature c))"
  using assms
  by (induction cs arbitrary: n report) (auto simp: checkpointBreak_def split: if_splits sum.splits option.splits)

definition checkpoints_ok :: "ed25519 \<Rightarrow> marshaller \<Rightarrow> bytes \<Rightarrow> string \<Rightarrow> auditDB \<Rightarrow> bool" where
  "checkpoints_ok ed marshal publicKey keyID db \<longleftrightarrow>
     (\<exists>fails report. VerifyAuditCheckpoints fails ed marshal publicKey keyID db = Inr report \<and> aprVerified report)"

lemma checkpoints_okD:
  assumes "checkpoints_ok ed marshal publicKey keyID db" "c \<in> set (adCheckpoints db)" "acpKeyID c = TrimSpace keyID"
  shows "hashAt db (acpCoverSeq c) = Some (acpChainHash c)"
  using assms verifyCheckpoints_all [where c = c]
  by (fastforce simp: checkpoints_ok_def VerifyAuditCheckpoints_def Let_def split: if_splits)

lemma checkpoint_pins:
  assumes c: "CheckpointAuditChain fails ed marshal now signingKey keyID db = (Inr (Some c), db1)"
    and ok: "chain_ok db" "chain_ok db'" "checkpoints_ok ed marshal publicKey keyID db'"
    and distinct: "distinct (map arSeq (adLog db'))"
    and kept: "c \<in> set (adCheckpoints db')"
  shows "map arCanonical (covered db' (acpCoverSeq c)) = map arCanonical (auditLog db) \<or>
    hashBroken (covered db' (acpCoverSeq c)) (auditLog db)"
proof -
  obtain row where row: "chainHead db = Some row" "acpChainHash c = arHash row" "acpKeyID c = TrimSpace keyID"
    using CheckpointAuditChain_ok [OF c] by metis
  have pinned: "acpChainHash c = chainDigest auditChainGenesisHash (map arCanonical (covered db' (acpCoverSeq c)))"
    using hashAt_covered [OF ok(2) distinct checkpoints_okD [OF ok(3) kept row(3)]] .
  obtain xs where xs: "auditLog db = xs @ [row]"
    using row(1) by (cases "auditLog db" rule: rev_cases) (auto simp: chainHead_last)
  have "acpChainHash c = chainDigest auditChainGenesisHash (map arCanonical (auditLog db))"
    using ok(1) row(2) unfolding chain_ok_iff xs by (simp add: chained_snoc chainDigest_simps)
  with pinned chain_commits [of "covered db' (acpCoverSeq c)" "auditLog db"] chained_prefix ok
  show ?thesis by (simp add: chain_ok_iff covered_def)
qed

end
