(* ===== verification/Origin_Policy.thy ===== *)
theory Origin_Policy
  imports Go_Strings
begin

text \<open>
  internal/httpapi/origin_policy.go: the table of routes of the hosted API with the audience of each,
  and the checks on the origin, the CSRF token and the body that every request passes before its
  handler.  \<open>mux\<close>, a parameter, gives the registered pattern net/http chooses for a request (the
  empty string if there is none).  A request that reaches its handler is \<open>Forwarded\<close> with the
  response headers written so far; a response the policy writes itself is \<open>Answered\<close>.  The random
  request identifier is a parameter; logging is not modelled.
\<close>

section \<open>Definitions\<close>

datatype routeAudience =
    audienceUnknown | audiencePublicMetadata | audienceWebsiteSession | audienceAdminConsole
  | audienceDesktopClient | audienceReleasePipeline

record routePolicy =
  rpAudience :: routeAudience
  rpRequireWebOrigin :: bool

record routeRegistry =
  rrPolicies :: "(string \<times> routePolicy) list"
  rrPreflight :: "(string \<times> routePolicy list) list"
  rrMethods :: "(string \<times> string list) list"

record apiConfig =
  fgAllowedOrigin :: string
  fgAdminOrigin :: string
  fgPublicSiteOrigin :: string
  fgSessionDomain :: string
  fgSessionSecure :: bool
  fgProjectProfile :: bool

record webRequest =
  wqMethod :: string
  wqPath :: string
  wqHeaders :: "(string \<times> string) list"
  wqCookies :: "(string \<times> string) list"
  wqContentLength :: int
  wqTransferEncoding :: "string list"

record webResponse =
  wpHeaders :: "(string \<times> string) list"
  wpStatus :: int
  wpBody :: "(string \<times> string) option"

datatype dispatched = Forwarded webResponse | Answered webResponse

definition headerGet :: "webRequest \<Rightarrow> string \<Rightarrow> string" where
  "headerGet request name = (case map_of (wqHeaders request) name of None \<Rightarrow> [] | Some v \<Rightarrow> v)"

definition headerSet :: "string \<Rightarrow> string \<Rightarrow> webResponse \<Rightarrow> webResponse" where
  "headerSet name value response = response\<lparr>wpHeaders := AList.update name value (wpHeaders response)\<rparr>"

definition newRouteRegistry :: routeRegistry where
  "newRouteRegistry = \<lparr>rrPolicies = [], rrPreflight = [], rrMethods = []\<rparr>"

definition audienceSeverity :: "routeAudience list" where
  "audienceSeverity =
     [audienceAdminConsole, audienceDesktopClient, audienceWebsiteSession, audienceReleasePipeline, audiencePublicMetadata]"

definition strictestAudience :: "routePolicy list \<Rightarrow> routeAudience" where
  "strictestAudience policies =
     (case find (\<lambda>severity. severity \<in> set (map rpAudience policies)) audienceSeverity of
        None \<Rightarrow> audienceUnknown | Some a \<Rightarrow> a)"

definition appendUniqueMethod :: "string list \<Rightarrow> string \<Rightarrow> string list" where
  "appendUniqueMethod methods m = (if m \<in> set methods then methods else methods @ [m])"

definition listAt :: "(string \<times> 'a list) list \<Rightarrow> string \<Rightarrow> 'a list" where
  "listAt m k = (case map_of m k of None \<Rightarrow> [] | Some xs \<Rightarrow> xs)"

text \<open>Registering a pattern twice panics.\<close>

definition apiRoute :: "routePolicy \<Rightarrow> string \<Rightarrow> routeRegistry \<Rightarrow> routeRegistry option" where
  "apiRoute policy pattern routes =
     (if map_of (rrPolicies routes) pattern \<noteq> None then None
      else let routes = routes\<lparr>rrPolicies := AList.update pattern policy (rrPolicies routes)\<rparr>
           in case Cut '' '' pattern of
                (verb, Some bare) \<Rightarrow>
                  if verb \<noteq> ''OPTIONS''
                  then Some (routes\<lparr>rrPreflight := AList.update bare (listAt (rrPreflight routes) bare @ [policy]) (rrPreflight routes),
                              rrMethods := AList.update bare (appendUniqueMethod (listAt (rrMethods routes) bare) verb) (rrMethods routes)\<rparr>)
                  else Some routes
              | (_, None) \<Rightarrow> Some routes)"

definition projectRoute :: "apiConfig \<Rightarrow> routePolicy \<Rightarrow> string \<Rightarrow> routeRegistry \<Rightarrow> routeRegistry option" where
  "projectRoute cfg policy pattern routes =
     (if \<not> fgProjectProfile cfg then Some routes else apiRoute policy pattern routes)"

definition everyRequireWebOrigin :: "routePolicy list \<Rightarrow> bool" where
  "everyRequireWebOrigin policies = foldl (\<lambda>required policy. required \<or> rpRequireWebOrigin policy) False policies"

definition mergedPolicy :: "routePolicy list \<Rightarrow> routePolicy" where
  "mergedPolicy policies =
     \<lparr>rpAudience = strictestAudience policies, rpRequireWebOrigin = everyRequireWebOrigin policies\<rparr>"

definition mergePreflight :: "routeRegistry \<Rightarrow> string \<times> routePolicy list \<Rightarrow> routeRegistry" where
  "mergePreflight r x = r\<lparr>rrPolicies := AList.update (''OPTIONS '' @ fst x) (mergedPolicy (snd x)) (rrPolicies r)\<rparr>"

definition finishRoutes :: "routeRegistry \<Rightarrow> routeRegistry" where
  "finishRoutes routes = foldl mergePreflight routes (rrPreflight routes)"

definition expectedOrigin :: "apiConfig \<Rightarrow> routeAudience \<Rightarrow> string" where
  "expectedOrigin cfg audience = (if audience = audienceAdminConsole then fgAdminOrigin cfg else fgAllowedOrigin cfg)"

definition isUnsafeMethod :: "string \<Rightarrow> bool" where
  "isUnsafeMethod m \<longleftrightarrow> m = ''POST'' \<or> m = ''PUT'' \<or> m = ''PATCH'' \<or> m = ''DELETE''"

definition apiWriteError :: "int \<Rightarrow> string \<Rightarrow> string \<Rightarrow> webResponse \<Rightarrow> webResponse" where
  "apiWriteError status code message response =
     (headerSet ''Content-Type'' ''application/json; charset=utf-8'' response)\<lparr>wpStatus := status, wpBody := Some (code, message)\<rparr>"

definition writeCORSHeaders :: "apiConfig \<Rightarrow> webRequest \<Rightarrow> routeAudience \<Rightarrow> webResponse \<Rightarrow> webResponse" where
  "writeCORSHeaders cfg request audience response =
     (let origin = headerGet request ''Origin'';
          expected = expectedOrigin cfg audience;
          publicSiteRead = audience = audiencePublicMetadata \<and> origin \<noteq> [] \<and> fgPublicSiteOrigin cfg \<noteq> [] \<and>
            origin = fgPublicSiteOrigin cfg \<and> \<not> isUnsafeMethod (wqMethod request)
      in if origin \<noteq> [] \<and> origin = expected
         then headerSet ''Vary'' ''Origin'' (headerSet ''Access-Control-Expose-Headers'' ''X-Request-ID, Retry-After''
                (headerSet ''Access-Control-Allow-Credentials'' ''true'' (headerSet ''Access-Control-Allow-Origin'' origin response)))
         else if publicSiteRead
         then headerSet ''Vary'' ''Origin'' (headerSet ''Access-Control-Expose-Headers'' ''X-Request-ID, Retry-After''
                (headerSet ''Access-Control-Allow-Origin'' origin response))
         else response)"

definition hostOnlySecureCookieName :: "string \<Rightarrow> string \<Rightarrow> bool \<Rightarrow> string" where
  "hostOnlySecureCookieName plain domain secure = (if secure \<and> domain = [] then ''__Host-'' @ plain else plain)"

definition csrfCookieName :: "apiConfig \<Rightarrow> string" where
  "csrfCookieName cfg = hostOnlySecureCookieName ''sesame_csrf'' (fgSessionDomain cfg) (fgSessionSecure cfg)"

text \<open>The double-submit check: the header repeats the nonempty value of the cookie.\<close>

definition tokenMatches :: "webRequest \<Rightarrow> string \<Rightarrow> bool" where
  "tokenMatches request cookieName =
     (let header = headerGet request ''X-Sesame-CSRF''
      in case map_of (wqCookies request) cookieName of
           None \<Rightarrow> False
         | Some value \<Rightarrow> \<not> (header = [] \<or> value = [] \<or> length header \<noteq> length value) \<and> header = value)"

definition validCSRF :: "apiConfig \<Rightarrow> webRequest \<Rightarrow> bool" where
  "validCSRF cfg request = tokenMatches request (csrfCookieName cfg)"

definition validAdminCSRF :: "webRequest \<Rightarrow> bool" where
  "validAdminCSRF request = tokenMatches request ''sesame_admin_csrf''"

definition originMessage :: string where "originMessage = ''This origin is not allowed.''"

definition preflightFor :: "apiConfig \<Rightarrow> routePolicy \<Rightarrow> webRequest \<Rightarrow> webResponse \<Rightarrow> webResponse" where
  "preflightFor cfg policy request response =
     (let origin = headerGet request ''Origin'';
          expected = expectedOrigin cfg (rpAudience policy)
      in if rpAudience policy = audienceAdminConsole \<and> (expected = [] \<or> origin \<noteq> expected)
         then apiWriteError 403 ''origin_not_allowed'' originMessage response
         else if rpAudience policy = audienceDesktopClient \<and> origin \<noteq> []
         then apiWriteError 403 ''origin_not_allowed'' originMessage response
         else if origin \<noteq> [] \<and> origin \<noteq> expected
         then apiWriteError 403 ''origin_not_allowed'' originMessage response
         else (headerSet ''Access-Control-Max-Age'' ''600''
                (headerSet ''Access-Control-Allow-Headers'' ''Content-Type, Idempotency-Key, X-Sesame-CSRF''
                  (headerSet ''Access-Control-Allow-Methods'' ''GET, POST, PATCH, PUT, DELETE, OPTIONS''
                    (writeCORSHeaders cfg request (rpAudience policy) response))))\<lparr>wpStatus := 204\<rparr>)"

text \<open>The reason a request is refused, if any: the status, the code and the message.\<close>

definition refusal :: "apiConfig \<Rightarrow> webRequest \<Rightarrow> routePolicy \<Rightarrow> (int \<times> string \<times> string) option" where
  "refusal cfg request policy =
     (let audience = rpAudience policy;
          origin = headerGet request ''Origin'';
          expected = expectedOrigin cfg audience;
          early =
            (if isUnsafeMethod (wqMethod request) then
               (if audience = audienceWebsiteSession then
                  (if origin \<noteq> expected
                   then Some (403, ''origin_not_allowed'', ''This request origin is not allowed.'')
                   else if \<not> validCSRF cfg request
                   then Some (403, ''invalid_csrf'', ''Refresh the Sesame website and try again.'')
                   else None)
                else if audience = audienceAdminConsole then
                  (if expected = [] \<or> origin \<noteq> expected
                   then Some (403, ''origin_not_allowed'', ''This request must come from the Sesame admin app.'')
                   else if \<not> validAdminCSRF request
                   then Some (403, ''invalid_csrf'', ''Refresh the Sesame admin app and try again.'')
                   else None)
                else if audience = audienceDesktopClient then
                  (if origin \<noteq> []
                   then Some (403, ''origin_not_allowed'', ''Desktop linking is not available from a browser.'')
                   else None)
                else None)
             else if audience = audienceAdminConsole then
               (if expected = [] \<or> origin \<noteq> expected
                then Some (403, ''origin_not_allowed'', ''This request must come from the Sesame admin app.'')
                else None)
             else if audience = audienceWebsiteSession \<and> rpRequireWebOrigin policy \<and> origin \<noteq> expected
             then Some (403, ''origin_not_allowed'', ''This request must come from the Sesame website.'')
             else None)
      in if early \<noteq> None then early
         else if audience = audiencePublicMetadata \<and> (0 < wqContentLength request \<or> 0 < length (wqTransferEncoding request))
         then Some (415, ''request_body_not_supported'', ''This public metadata API does not accept request bodies.'')
         else None)"

definition enforce :: "apiConfig \<Rightarrow> webRequest \<Rightarrow> routePolicy \<Rightarrow> webResponse \<Rightarrow> bool \<times> webResponse" where
  "enforce cfg request policy response =
     (let response = writeCORSHeaders cfg request (rpAudience policy) response
      in case refusal cfg request policy of
           None \<Rightarrow> (True, response)
         | Some (status, code, message) \<Rightarrow> (False, apiWriteError status code message response))"

definition methodsInAllowOrder :: "string list" where
  "methodsInAllowOrder = [''GET'', ''POST'', ''PATCH'', ''PUT'', ''DELETE'']"

fun joinComma :: "string list \<Rightarrow> string" where
  "joinComma [] = []"
| "joinComma [x] = x"
| "joinComma (x # xs) = x @ '', '' @ joinComma xs"

type_synonym webMux = "webRequest \<Rightarrow> string"

fun probeMethods :: "routeRegistry \<Rightarrow> webMux \<Rightarrow> webRequest \<Rightarrow> string list \<Rightarrow> string option" where
  "probeMethods routes mux request [] = None"
| "probeMethods routes mux request (probe # probes) =
     (let pattern = mux (request\<lparr>wqMethod := probe\<rparr>)
      in if pattern = [] then probeMethods routes mux request probes
         else case Cut '' '' pattern of
             (_, None) \<Rightarrow> probeMethods routes mux request probes
           | (_, Some bare) \<Rightarrow>
               if listAt (rrMethods routes) bare = [] then probeMethods routes mux request probes
               else Some (joinComma (filter (\<lambda>m. m \<in> set (listAt (rrMethods routes) bare)) methodsInAllowOrder @ [''OPTIONS''])))"

definition allowedMethodsOnPath :: "routeRegistry \<Rightarrow> webMux \<Rightarrow> webRequest \<Rightarrow> string option" where
  "allowedMethodsOnPath routes mux request = probeMethods routes mux request methodsInAllowOrder"

definition dispatch ::
  "apiConfig \<Rightarrow> routeRegistry \<Rightarrow> webMux \<Rightarrow> webRequest \<Rightarrow> string \<Rightarrow> routePolicy option \<Rightarrow> webResponse \<Rightarrow> dispatched" where
  "dispatch cfg routes mux request pattern matched response =
     (case matched of
        Some policy \<Rightarrow>
          if HasPrefix pattern ''OPTIONS '' then Forwarded response
          else (case enforce cfg request policy response of
                  (allowed, response) \<Rightarrow> if allowed then Forwarded response else Answered response)
      | None \<Rightarrow>
          (case allowedMethodsOnPath routes mux request of
             Some allow \<Rightarrow>
               Answered (apiWriteError 405 ''method_not_allowed'' ''This endpoint does not allow that method.''
                 (headerSet ''Allow'' allow response))
           | None \<Rightarrow> Forwarded response))"

definition validRequestID :: "string \<Rightarrow> bool" where
  "validRequestID value \<longleftrightarrow> \<not> (length value < 16 \<or> 64 < length value) \<and>
     list_all (\<lambda>c. lowerAlpha c \<or> upperAlpha c \<or> decimalChar c \<or> c = CHR ''-'' \<or> c = CHR ''_'') value"

definition requestIDFor :: "string \<Rightarrow> webRequest \<Rightarrow> string" where
  "requestIDFor fresh request =
     (let incoming = headerGet request ''X-Request-ID'' in if validRequestID incoming then incoming else fresh)"

definition securityHeaders :: "(string \<times> string) list" where
  "securityHeaders =
     [(''X-Content-Type-Options'', ''nosniff''), (''Referrer-Policy'', ''no-referrer''),
      (''Cross-Origin-Resource-Policy'', ''same-site''), (''X-Frame-Options'', ''DENY''), (''Cache-Control'', ''no-store''),
      (''Content-Security-Policy'', ''default-src '' @ [CHR 0x27] @ ''none'' @ [CHR 0x27] @ ''; frame-ancestors '' @ [CHR 0x27] @ ''none'' @ [CHR 0x27]),
      (''Strict-Transport-Security'', ''max-age=63072000; includeSubDomains'')]"

definition secureMux :: "apiConfig \<Rightarrow> routeRegistry \<Rightarrow> webMux \<Rightarrow> string \<Rightarrow> webRequest \<Rightarrow> dispatched" where
  "secureMux cfg routes mux fresh request =
     (let response = foldl (\<lambda>r (name, value). headerSet name value r)
            (headerSet ''X-Request-ID'' (requestIDFor fresh request) \<lparr>wpHeaders = [], wpStatus = 200, wpBody = None\<rparr>) securityHeaders;
          pattern = mux request
      in dispatch cfg routes mux request pattern (map_of (rrPolicies routes) pattern) response)"

section \<open>The table of routes\<close>

text \<open>A sequence of registrations, each for every deployment or for the project profile only.\<close>

fun registerAll :: "apiConfig \<Rightarrow> (bool \<times> routePolicy \<times> string) list \<Rightarrow> routeRegistry \<Rightarrow> routeRegistry option" where
  "registerAll cfg [] routes = Some routes"
| "registerAll cfg ((project, policy, pattern) # rest) routes =
     (case (if project then projectRoute cfg policy pattern routes else apiRoute policy pattern routes) of
        None \<Rightarrow> None | Some routes \<Rightarrow> registerAll cfg rest routes)"

definition registered :: "apiConfig \<Rightarrow> (bool \<times> routePolicy \<times> string) list \<Rightarrow> routePolicy \<Rightarrow> string \<Rightarrow> bool" where
  "registered cfg regs policy pattern \<longleftrightarrow>
     (\<exists>project. (project, policy, pattern) \<in> set regs \<and> (project \<longrightarrow> fgProjectProfile cfg))"

lemma apiRoute_policies:
  assumes "apiRoute policy pattern routes = Some routes'"
  shows "map_of (rrPolicies routes') = (map_of (rrPolicies routes)) (pattern \<mapsto> policy)"
    and "map_of (rrPolicies routes) pattern = None"
  using assms
  by (auto simp: apiRoute_def Let_def update_conv' split: if_splits prod.splits option.splits)

lemma apiRoute_preflight:
  assumes "apiRoute policy pattern routes = Some routes'"
  shows "set (listAt (rrPreflight routes) bare) \<subseteq> set (listAt (rrPreflight routes') bare)"
    and "Cut '' '' pattern = (verb, Some bare) \<Longrightarrow> verb \<noteq> ''OPTIONS'' \<Longrightarrow> policy \<in> set (listAt (rrPreflight routes') bare)"
  using assms
  by (auto simp: apiRoute_def Let_def update_conv' listAt_def split: if_splits prod.splits option.splits)

lemma registerAll_keeps:
  assumes "registerAll cfg regs routes = Some routes'"
  shows "map_of (rrPolicies routes) pattern = Some policy \<Longrightarrow> map_of (rrPolicies routes') pattern = Some policy"
    and "set (listAt (rrPreflight routes) bare) \<subseteq> set (listAt (rrPreflight routes') bare)"
  using assms
proof (induction cfg regs routes rule: registerAll.induct)
  case (2 cfg project policy' pattern' rest routes)
  {
    case 1
    with 2 show ?case
      by (fastforce simp: projectRoute_def apiRoute_policies split: if_splits option.splits dest: apiRoute_policies)
  next
    case 2
    with \<open>\<And>x2. _ \<Longrightarrow> _ \<Longrightarrow> set (listAt (rrPreflight x2) bare) \<subseteq> _\<close> show ?case
      by (fastforce simp: projectRoute_def split: if_splits option.splits dest: apiRoute_preflight(1))
  }
qed auto

lemma registered_step:
  assumes "registerAll cfg regs routes = Some routes'" "registered cfg regs policy pattern"
  shows "\<exists>r1 r2 rest. apiRoute policy pattern r1 = Some r2 \<and> registerAll cfg rest r2 = Some routes'"
  using assms
proof (induction cfg regs routes rule: registerAll.induct)
  case (2 cfg project policy' pattern' rest routes)
  from 2(2) obtain routes1 where step: "(if project then projectRoute cfg policy' pattern' routes else apiRoute policy' pattern' routes) = Some routes1"
    and rest: "registerAll cfg rest routes1 = Some routes'"
    by (auto split: option.splits)
  show ?case
  proof (cases "registered cfg rest policy pattern")
    case True
    then show ?thesis using 2(1) [OF step rest] by simp
  next
    case False
    with 2(3) step have "apiRoute policy pattern routes = Some routes1"
      by (auto simp: registered_def projectRoute_def split: if_splits)
    with rest show ?thesis by blast
  qed
qed (simp add: registered_def)

lemma registerAll_registered:
  assumes "registerAll cfg regs routes = Some routes'" "registered cfg regs policy pattern"
  shows "map_of (rrPolicies routes') pattern = Some policy"
    and "Cut '' '' pattern = (verb, Some bare) \<Longrightarrow> verb \<noteq> ''OPTIONS'' \<Longrightarrow> policy \<in> set (listAt (rrPreflight routes') bare)"
proof -
  obtain r1 r2 rest where r: "apiRoute policy pattern r1 = Some r2" "registerAll cfg rest r2 = Some routes'"
    using registered_step [OF assms] by blast
  show "map_of (rrPolicies routes') pattern = Some policy"
    using registerAll_keeps(1) [OF r(2)] apiRoute_policies(1) [OF r(1)] by simp
  show "policy \<in> set (listAt (rrPreflight routes') bare)" if "Cut '' '' pattern = (verb, Some bare)" "verb \<noteq> ''OPTIONS''"
    using registerAll_keeps(2) [OF r(2)] apiRoute_preflight(2) [OF r(1) that] by blast
qed

lemma apiRoute_distinct:
  assumes "apiRoute policy pattern routes = Some routes'" "distinct (map fst (rrPreflight routes))"
  shows "distinct (map fst (rrPreflight routes'))"
  using assms by (auto simp: apiRoute_def Let_def AList.distinct_update split: if_splits prod.splits option.splits)

lemma registerAll_distinct:
  assumes "registerAll cfg regs routes = Some routes'" "distinct (map fst (rrPreflight routes))"
  shows "distinct (map fst (rrPreflight routes'))"
  using assms
  by (induction cfg regs routes rule: registerAll.induct)
     (auto simp: projectRoute_def split: if_splits option.splits dest: apiRoute_distinct)

lemma mergePreflight_policies:
  "map_of (rrPolicies (mergePreflight r x)) = (map_of (rrPolicies r)) (''OPTIONS '' @ fst x \<mapsto> mergedPolicy (snd x))"
  by (simp add: mergePreflight_def update_conv')

lemma merge_other:
  assumes "\<not> HasPrefix pattern ''OPTIONS ''"
  shows "map_of (rrPolicies (foldl mergePreflight routes m)) pattern = map_of (rrPolicies routes) pattern"
proof (induction m arbitrary: routes)
  case (Cons x m)
  have "pattern \<noteq> ''OPTIONS '' @ fst x" using assms by (auto simp: HasPrefix_def)
  with Cons show ?case by (simp add: mergePreflight_policies)
qed simp

lemma merge_preflight:
  assumes "distinct (map fst m)" "(bare, policies) \<in> set m"
  shows "map_of (rrPolicies (foldl mergePreflight routes m)) (''OPTIONS '' @ bare) = Some (mergedPolicy policies)"
  using assms
proof (induction m rule: rev_induct)
  case (snoc x m)
  then show ?case by (cases x) (auto simp: mergePreflight_policies rev_image_eqI)
qed simp

lemma finishRoutes_policies:
  "\<not> HasPrefix pattern ''OPTIONS '' \<Longrightarrow> map_of (rrPolicies (finishRoutes routes)) pattern = map_of (rrPolicies routes) pattern"
  "distinct (map fst (rrPreflight routes)) \<Longrightarrow> listAt (rrPreflight routes) bare \<noteq> [] \<Longrightarrow>
     map_of (rrPolicies (finishRoutes routes)) (''OPTIONS '' @ bare) = Some (mergedPolicy (listAt (rrPreflight routes) bare))"
proof -
  assume "distinct (map fst (rrPreflight routes))" "listAt (rrPreflight routes) bare \<noteq> []"
  then have "(bare, listAt (rrPreflight routes) bare) \<in> set (rrPreflight routes)"
    by (auto simp: listAt_def split: option.splits dest: map_of_SomeD)
  then show "map_of (rrPolicies (finishRoutes routes)) (''OPTIONS '' @ bare) = Some (mergedPolicy (listAt (rrPreflight routes) bare))"
    unfolding finishRoutes_def using \<open>distinct _\<close> by (rule merge_preflight [rotated])
qed (simp add: finishRoutes_def merge_other)

text \<open>The audience of a preflight request is at least as strict as that of every method of the path.\<close>

lemma strictestAudience_admin:
  "policy \<in> set policies \<Longrightarrow> rpAudience policy = audienceAdminConsole \<Longrightarrow> strictestAudience policies = audienceAdminConsole"
  by (force simp: strictestAudience_def audienceSeverity_def)

lemma strictestAudience_desktop:
  "policy \<in> set policies \<Longrightarrow> rpAudience policy = audienceDesktopClient \<Longrightarrow>
     strictestAudience policies \<in> {audienceAdminConsole, audienceDesktopClient}"
  by (force simp: strictestAudience_def audienceSeverity_def)

section \<open>What a forwarded request satisfies\<close>

definition policyMet :: "apiConfig \<Rightarrow> webRequest \<Rightarrow> routePolicy \<Rightarrow> bool" where
  "policyMet cfg request policy \<longleftrightarrow>
     (let origin = headerGet request ''Origin''; unsafe = isUnsafeMethod (wqMethod request)
      in case rpAudience policy of
           audienceAdminConsole \<Rightarrow>
             fgAdminOrigin cfg \<noteq> [] \<and> origin = fgAdminOrigin cfg \<and> (unsafe \<longrightarrow> validAdminCSRF request)
         | audienceWebsiteSession \<Rightarrow>
             (unsafe \<or> rpRequireWebOrigin policy \<longrightarrow> origin = fgAllowedOrigin cfg) \<and> (unsafe \<longrightarrow> validCSRF cfg request)
         | audienceDesktopClient \<Rightarrow> unsafe \<longrightarrow> origin = []
         | audiencePublicMetadata \<Rightarrow> wqContentLength request \<le> 0 \<and> wqTransferEncoding request = []
         | _ \<Rightarrow> True)"

lemma refusal_None_iff: "refusal cfg request policy = None \<longleftrightarrow> policyMet cfg request policy"
  by (cases "rpAudience policy")
     (auto simp: refusal_def policyMet_def Let_def expectedOrigin_def split: if_splits)

lemma tokenMatches_iff:
  "tokenMatches request name \<longleftrightarrow> headerGet request ''X-Sesame-CSRF'' \<noteq> [] \<and>
     map_of (wqCookies request) name = Some (headerGet request ''X-Sesame-CSRF'')"
  by (auto simp: tokenMatches_def Let_def split: option.splits)

definition sentHeader :: "webResponse \<Rightarrow> string \<Rightarrow> string option" where
  "sentHeader response = map_of (wpHeaders response)"

lemma sentHeader_simps [simp]:
  "sentHeader (headerSet name value response) = (sentHeader response) (name \<mapsto> value)"
  "sentHeader (response\<lparr>wpStatus := status\<rparr>) = sentHeader response"
  "sentHeader (response\<lparr>wpBody := body\<rparr>) = sentHeader response"
  by (simp_all add: sentHeader_def headerSet_def update_conv')

lemma credentials_origin:
  assumes "sentHeader response ''Access-Control-Allow-Credentials'' = None"
  shows "sentHeader (writeCORSHeaders cfg request audience response) ''Access-Control-Allow-Credentials'' \<noteq> None \<longleftrightarrow>
    headerGet request ''Origin'' \<noteq> [] \<and> headerGet request ''Origin'' = expectedOrigin cfg audience"
  using assms by (auto simp: writeCORSHeaders_def Let_def)

definition firstResponse :: "string \<Rightarrow> webResponse" where
  "firstResponse requestID = foldl (\<lambda>r (name, value). headerSet name value r)
     (headerSet ''X-Request-ID'' requestID \<lparr>wpHeaders = [], wpStatus = 200, wpBody = None\<rparr>) securityHeaders"

lemma firstResponse_headers: "sentHeader (firstResponse requestID) ''Access-Control-Allow-Credentials'' = None"
  by (simp add: firstResponse_def securityHeaders_def) (simp add: sentHeader_def)

lemma secureMux_first:
  "secureMux cfg routes mux fresh request =
     dispatch cfg routes mux request (mux request) (map_of (rrPolicies routes) (mux request)) (firstResponse (requestIDFor fresh request))"
  unfolding secureMux_def firstResponse_def Let_def ..

lemma secureMux_policy:
  assumes "map_of (rrPolicies routes) (mux request) = Some policy" "\<not> HasPrefix (mux request) ''OPTIONS ''"
  shows "(\<exists>response. secureMux cfg routes mux fresh request = Forwarded response) \<longleftrightarrow> policyMet cfg request policy"
    and "secureMux cfg routes mux fresh request \<in> {Forwarded response, Answered response} \<Longrightarrow>
      sentHeader response ''Access-Control-Allow-Credentials'' \<noteq> None \<Longrightarrow>
      headerGet request ''Origin'' \<noteq> [] \<and> headerGet request ''Origin'' = expectedOrigin cfg (rpAudience policy)"
proof -
  show "(\<exists>response. secureMux cfg routes mux fresh request = Forwarded response) \<longleftrightarrow> policyMet cfg request policy"
    using assms refusal_None_iff [of cfg request policy]
    by (auto simp: secureMux_first dispatch_def enforce_def Let_def split: option.splits prod.splits)
  assume "secureMux cfg routes mux fresh request \<in> {Forwarded response, Answered response}"
    "sentHeader response ''Access-Control-Allow-Credentials'' \<noteq> None"
  then have "sentHeader (writeCORSHeaders cfg request (rpAudience policy) (firstResponse (requestIDFor fresh request)))
      ''Access-Control-Allow-Credentials'' \<noteq> None"
    using assms
    by (auto simp: secureMux_first dispatch_def enforce_def Let_def apiWriteError_def split: option.splits prod.splits if_splits)
  then show "headerGet request ''Origin'' \<noteq> [] \<and> headerGet request ''Origin'' = expectedOrigin cfg (rpAudience policy)"
    using credentials_origin [OF firstResponse_headers] by blast
qed

lemma preflight_origin:
  assumes "wpStatus (preflightFor cfg policy request response) = 204" "wpStatus response \<noteq> 204"
  shows "(rpAudience policy = audienceAdminConsole \<longrightarrow> fgAdminOrigin cfg \<noteq> [] \<and> headerGet request ''Origin'' = fgAdminOrigin cfg) \<and>
    (rpAudience policy = audienceDesktopClient \<longrightarrow> headerGet request ''Origin'' = []) \<and>
    (headerGet request ''Origin'' \<noteq> [] \<longrightarrow> headerGet request ''Origin'' = expectedOrigin cfg (rpAudience policy))"
  using assms by (auto simp: preflightFor_def Let_def apiWriteError_def expectedOrigin_def split: if_splits)

end
