(* ===== verification/Semver.thy ===== *)
theory Semver
  imports Go_Strings "HOL-Library.List_Lexorder" "HOL-Library.Product_Lexorder"
begin

text \<open>
  The package internal/releases: semantic versions and the rule that decides which build may be
  distributed.  A rejected version is \<open>None\<close>; the texts of the errors are not modelled.
\<close>

section \<open>Definitions\<close>

record prereleaseId =
  idRaw :: string
  idNumeric :: bool
  idNumber :: u64

record Version =
  verMajor :: u64
  verMinor :: u64
  verPatch :: u64
  verPrerelease :: "prereleaseId list"

definition identifierChar :: "char \<Rightarrow> bool" where
  "identifierChar c \<longleftrightarrow> decimalChar c \<or> lowerAlpha c \<or> upperAlpha c \<or> c = CHR ''-''"

definition validIdentifier :: "string \<Rightarrow> bool" where
  "validIdentifier value \<longleftrightarrow> list_all identifierChar value"

definition allDigits :: "string \<Rightarrow> bool" where
  "allDigits value \<longleftrightarrow> list_all (\<lambda>c. \<not> (c < CHR ''0'' \<or> CHR ''9'' < c)) value"

definition leadingZero :: "string \<Rightarrow> bool" where
  "leadingZero part \<longleftrightarrow> 1 < length part \<and> part ! 0 = CHR ''0''"

definition parseCore :: "string \<Rightarrow> u64 option" where
  "parseCore part = (if part = [] \<or> leadingZero part then None else ParseUint part 64)"

text \<open>An overflow leaves the largest value in \<open>entry.number\<close>: the error is ignored.\<close>

definition parseIdentifier :: "string \<Rightarrow> prereleaseId option" where
  "parseIdentifier part =
     (if part = [] \<or> \<not> validIdentifier part then None
      else if allDigits part then
        (if leadingZero part then None
         else Some \<lparr>idRaw = part, idNumeric = True,
                    idNumber = (case ParseUint part 64 of None \<Rightarrow> -1 | Some n \<Rightarrow> n)\<rparr>)
      else Some \<lparr>idRaw = part, idNumeric = False, idNumber = 0\<rparr>)"

definition ParseVersion :: "string \<Rightarrow> Version option" where
  "ParseVersion raw =
     (if raw = [] \<or> TrimSpace raw \<noteq> raw \<or> CHR ''+'' \<in> set raw then None
      else case Cut ''-'' raw of (core, prerelease) \<Rightarrow>
        (case those (map parseCore (splitOn (CHR ''.'') core)) of
           Some [major, minor, patch] \<Rightarrow>
             (let parsed = \<lparr>verMajor = major, verMinor = minor, verPatch = patch, verPrerelease = []\<rparr>
              in case prerelease of
                   None \<Rightarrow> Some parsed
                 | Some pre \<Rightarrow>
                     if pre = [] then None
                     else map_option (\<lambda>ids. parsed\<lparr>verPrerelease := ids\<rparr>)
                            (those (map parseIdentifier (splitOn (CHR ''.'') pre))))
         | _ \<Rightarrow> None))"

definition ValidVersion :: "string \<Rightarrow> bool" where
  "ValidVersion raw \<longleftrightarrow> ParseVersion raw \<noteq> None"

text \<open>The loops of \<open>Compare\<close>: over the numbers of the core, and over the common identifiers.\<close>

fun comparePairs :: "(u64 \<times> u64) list \<Rightarrow> int" where
  "comparePairs [] = 0"
| "comparePairs ((a, b) # pairs) = (if a < b then -1 else if b < a then 1 else comparePairs pairs)"

fun compareIdentifiers :: "prereleaseId list \<Rightarrow> prereleaseId list \<Rightarrow> int" where
  "compareIdentifiers (left # ls) (right # rs) =
     (if idNumeric left \<and> idNumeric right then
        (if idNumber left < idNumber right then -1
         else if idNumber right < idNumber left then 1
         else compareIdentifiers ls rs)
      else if idNumeric left \<noteq> idNumeric right then (if idNumeric left then -1 else 1)
      else if idRaw left < idRaw right then -1
      else if idRaw right < idRaw left then 1
      else compareIdentifiers ls rs)"
| "compareIdentifiers ls rs =
     (if length ls < length rs then -1 else if length rs < length ls then 1 else 0)"

definition CompareVersions :: "Version \<Rightarrow> Version \<Rightarrow> int" where
  "CompareVersions v w =
     (let core = comparePairs [(verMajor v, verMajor w), (verMinor v, verMinor w), (verPatch v, verPatch w)]
      in if core \<noteq> 0 then core
         else if verPrerelease v = [] \<and> verPrerelease w \<noteq> [] then 1
         else if verPrerelease v \<noteq> [] \<and> verPrerelease w = [] then -1
         else compareIdentifiers (verPrerelease v) (verPrerelease w))"

definition ArtifactEligible :: "string \<Rightarrow> bool \<Rightarrow> bool \<Rightarrow> bool" where
  "ArtifactEligible distributionClass sigstoreVerified authenticodeVerified =
     (if \<not> sigstoreVerified then False
      else if distributionClass = ''early_access'' then \<not> authenticodeVerified
      else if distributionClass = ''production'' then authenticodeVerified
      else False)"

section \<open>The order of the standard\<close>

text \<open>
  The reference: numeric identifiers come before alphanumeric ones and are ordered by value, the
  others by their bytes; identifier lists and cores are ordered lexicographically, and a version
  without a prerelease comes after those with one.
\<close>

datatype identifierKey = NumericKey u64 | TextKey string

instantiation identifierKey :: linorder
begin

fun less_eq_identifierKey :: "identifierKey \<Rightarrow> identifierKey \<Rightarrow> bool" where
  "less_eq_identifierKey (NumericKey m) (NumericKey n) = (m \<le> n)"
| "less_eq_identifierKey (NumericKey m) (TextKey t) = True"
| "less_eq_identifierKey (TextKey s) (NumericKey n) = False"
| "less_eq_identifierKey (TextKey s) (TextKey t) = (s \<le> t)"

definition less_identifierKey :: "identifierKey \<Rightarrow> identifierKey \<Rightarrow> bool" where
  "less_identifierKey x y \<longleftrightarrow> x \<le> y \<and> \<not> y \<le> (x :: identifierKey)"

instance
proof
  fix x y z :: identifierKey
  show "x < y \<longleftrightarrow> x \<le> y \<and> \<not> y \<le> x" by (simp add: less_identifierKey_def)
  show "x \<le> x" by (cases x) simp_all
  show "x \<le> y \<Longrightarrow> y \<le> z \<Longrightarrow> x \<le> z" by (cases x; cases y; cases z) auto
  show "x \<le> y \<Longrightarrow> y \<le> x \<Longrightarrow> x = y" by (cases x; cases y) auto
  show "x \<le> y \<or> y \<le> x" by (cases x; cases y) auto
qed

end

definition idKey :: "prereleaseId \<Rightarrow> identifierKey" where
  "idKey i = (if idNumeric i then NumericKey (idNumber i) else TextKey (idRaw i))"

definition versionKey :: "Version \<Rightarrow> u64 \<times> u64 \<times> u64 \<times> bool \<times> identifierKey list" where
  "versionKey v = (verMajor v, verMinor v, verPatch v, verPrerelease v = [], map idKey (verPrerelease v))"

definition sign3 :: "'a::linorder \<Rightarrow> 'a \<Rightarrow> int" where
  "sign3 x y = (if x < y then -1 else if y < x then 1 else 0)"

lemma sign3_zero [simp]: "sign3 x y = 0 \<longleftrightarrow> x = y"
  by (auto simp: sign3_def)

lemma idKey_less:
  "NumericKey m < NumericKey n \<longleftrightarrow> m < n" "TextKey s < TextKey t \<longleftrightarrow> s < t" "NumericKey m < TextKey t" "\<not> TextKey s < NumericKey n"
  by (auto simp: less_identifierKey_def)

lemma Nil_less_map: "[] < map idKey xs \<longleftrightarrow> xs \<noteq> []"
  by (cases xs) simp_all

lemma compareIdentifiers_sign: "compareIdentifiers ls rs = sign3 (map idKey ls) (map idKey rs)"
proof (induction ls rs rule: compareIdentifiers.induct)
  case (1 l ls r rs)
  then show ?case by (auto simp: sign3_def idKey_def idKey_less)
qed (auto simp: sign3_def Nil_less_map)

lemma CompareVersions_sign: "CompareVersions v w = sign3 (versionKey v) (versionKey w)"
  by (auto simp: CompareVersions_def compareIdentifiers_sign versionKey_def sign3_def Let_def)

section \<open>Printing a version\<close>

definition printVersion :: "Version \<Rightarrow> string" where
  "printVersion v = FormatUint (verMajor v) @ ''.'' @ FormatUint (verMinor v) @ ''.'' @ FormatUint (verPatch v) @
     (if verPrerelease v = [] then [] else ''-'' @ joinWith (CHR ''.'') (map idRaw (verPrerelease v)))"

lemma digit_range: "\<not> c < CHR ''0'' \<and> \<not> CHR ''9'' < c \<longleftrightarrow> isDigit c"
  unfolding decimalChar_isDigit [symmetric] decimalChar_def by auto

lemma digit_char_value: "isDigit c \<Longrightarrow> digit_char (digitValue c) = c \<and> digitValue c < 10"
  by (auto simp: isDigit_def digitValue_def digit_char_def)

lemma show_read:
  assumes "list_all isDigit s" "s \<noteq> []" "\<not> leadingZero s"
  shows "show_nat (readNat s) = s"
  using assms
proof (induction s rule: rev_induct)
  case (snoc c t)
  then have c: "digit_char (digitValue c) = c" "digitValue c < 10" using digit_char_value [of c] by auto
  show ?case
  proof (cases "t = []")
    case True
    with c show ?thesis by (simp add: readNat_def show_nat.simps)
  next
    case False
    with snoc.prems have first: "t ! 0 \<noteq> CHR ''0''" by (cases t) (auto simp: leadingZero_def)
    with snoc False have t: "show_nat (readNat t) = t" by (simp add: leadingZero_def)
    have "readNat t \<noteq> 0"
    proof
      assume "readNat t = 0"
      with t have "t = [digit_char 0]" by (simp add: show_nat.simps)
      with first show False by (simp add: digit_char_def)
    qed
    with c t show ?thesis by (simp add: readNat_snoc show_nat.simps [of "10 * readNat t + digitValue c"])
  qed
qed simp

lemma parseCore_print: "parseCore part = Some n \<Longrightarrow> FormatUint n = part"
  by (auto simp: parseCore_def ParseUint_def FormatUint_def show_read unat_of_nat split: if_splits)

lemma parseIdentifier_raw: "parseIdentifier part = Some i \<Longrightarrow> idRaw i = part"
  by (auto simp: parseIdentifier_def split: if_splits)

lemma those_map_SomeD: "those (map f xs) = Some ys \<Longrightarrow> length ys = length xs \<and> (\<forall>i < length xs. f (xs ! i) = Some (ys ! i))"
proof (induction xs arbitrary: ys)
  case (Cons x xs)
  then obtain y zs where y: "f x = Some y" "those (map f xs) = Some zs" "ys = y # zs"
    by (auto split: option.splits)
  with Cons.IH [of zs] show ?case by (auto simp: nth_Cons split: nat.split)
qed simp

lemma parse_raws: "those (map parseIdentifier parts) = Some ids \<Longrightarrow> map idRaw ids = parts"
  using those_map_SomeD [of parseIdentifier parts ids] parseIdentifier_raw by (simp add: list_eq_iff_nth_eq)

lemma parse_core_print:
  assumes "those (map parseCore (splitOn (CHR ''.'') core)) = Some [a, b, c]"
  shows "FormatUint a @ ''.'' @ FormatUint b @ ''.'' @ FormatUint c = core"
proof -
  obtain x y z where xyz: "splitOn (CHR ''.'') core = [x, y, z]"
    using those_map_SomeD [OF assms] by (auto simp: length_Suc_conv dest!: sym [of "Suc _"])
  with assms have "parseCore x = Some a" "parseCore y = Some b" "parseCore z = Some c"
    by (auto split: option.splits)
  then show ?thesis using xyz by (simp add: parseCore_print split_three)
qed

lemma ParseVersion_cases:
  assumes "ParseVersion raw = Some v"
  obtains (core) core where "raw = core" "verPrerelease v = []"
      "FormatUint (verMajor v) @ ''.'' @ FormatUint (verMinor v) @ ''.'' @ FormatUint (verPatch v) = core"
  | (pre) core pre where "raw = core @ ''-'' @ pre" "pre \<noteq> []"
      "FormatUint (verMajor v) @ ''.'' @ FormatUint (verMinor v) @ ''.'' @ FormatUint (verPatch v) = core"
      "those (map parseIdentifier (splitOn (CHR ''.'') pre)) = Some (verPrerelease v)"
proof -
  obtain core rest where cut: "Cut ''-'' raw = (core, rest)" by fastforce
  have "\<exists>a b c. those (map parseCore (splitOn (CHR ''.'') core)) = Some [a, b, c] \<and>
      verMajor v = a \<and> verMinor v = b \<and> verPatch v = c \<and>
      (case rest of None \<Rightarrow> verPrerelease v = []
       | Some pre \<Rightarrow> pre \<noteq> [] \<and> those (map parseIdentifier (splitOn (CHR ''.'') pre)) = Some (verPrerelease v))"
    using assms cut
    by (auto simp: ParseVersion_def Let_def split: if_splits option.splits list.splits)
  then obtain a b c where abc: "those (map parseCore (splitOn (CHR ''.'') core)) = Some [a, b, c]"
      "verMajor v = a" "verMinor v = b" "verPatch v = c"
    and rest: "case rest of None \<Rightarrow> verPrerelease v = []
       | Some pre \<Rightarrow> pre \<noteq> [] \<and> those (map parseIdentifier (splitOn (CHR ''.'') pre)) = Some (verPrerelease v)"
    by blast
  from parse_core_print [OF abc(1)] Cut_join [OF cut] rest abc(2-) core [of core] pre [of core]
  show thesis by (cases rest) auto
qed

lemma those_Nil_iff: "those xs = Some [] \<longleftrightarrow> xs = []"
  by (cases xs) (auto split: option.splits)

lemma print_ParseVersion: "ParseVersion raw = Some v \<Longrightarrow> printVersion v = raw"
proof (erule ParseVersion_cases)
  fix core pre
  assume "raw = core @ ''-'' @ pre" "pre \<noteq> []"
    and core: "FormatUint (verMajor v) @ ''.'' @ FormatUint (verMinor v) @ ''.'' @ FormatUint (verPatch v) = core"
    and ids: "those (map parseIdentifier (splitOn (CHR ''.'') pre)) = Some (verPrerelease v)"
  moreover have "verPrerelease v \<noteq> []" using ids by (auto simp: those_Nil_iff)
  ultimately show "printVersion v = raw" using parse_raws [OF ids] by (simp add: printVersion_def)
qed (simp add: printVersion_def)

text \<open>A version whose numeric identifiers fit in 64 bits: no overflow was ignored.\<close>

definition fitsIdentifier :: "prereleaseId \<Rightarrow> bool" where
  "fitsIdentifier i \<longleftrightarrow> idNumeric i \<longrightarrow> readNat (idRaw i) < 2 ^ 64"

lemma idKey_raw:
  assumes "parseIdentifier p = Some i" "parseIdentifier q = Some j" "fitsIdentifier i" "fitsIdentifier j" "idKey i = idKey j"
  shows "idRaw i = idRaw j"
proof (cases "idNumeric i")
  case True
  then have n: "idNumeric j" "idNumber i = idNumber j" using assms(5) by (auto simp: idKey_def split: if_splits)
  have *: "FormatUint (idNumber k) = idRaw k" if k: "parseIdentifier r = Some k" "fitsIdentifier k" "idNumeric k" for r k
  proof -
    from k have r: "idRaw k = r" "r \<noteq> []" "\<not> leadingZero r" "list_all isDigit r"
        "idNumber k = (case ParseUint r 64 of None \<Rightarrow> -1 | Some n \<Rightarrow> n)"
      by (auto simp: parseIdentifier_def allDigits_def digit_range split: if_splits)
    with k have "readNat r < 2 ^ 64" by (simp add: fitsIdentifier_def)
    with r have "idNumber k = of_nat (readNat r)" by (simp add: ParseUint_def)
    with r(1-4) \<open>readNat r < 2 ^ 64\<close> show ?thesis by (simp add: FormatUint_def unat_of_nat show_read)
  qed
  show ?thesis using * [OF assms(1,3) True] * [OF assms(2,4) n(1)] n(2) by simp
next
  case False
  then show ?thesis using assms(5) by (auto simp: idKey_def split: if_splits)
qed

section \<open>The accepted texts\<close>

lemma trimRunes_clean:
  assumes "\<forall>r \<in> set runes. \<forall>c \<in> set s. r = [] \<or> hd r \<noteq> c"
  shows "trimRunes runes s = s"
proof -
  have "find (\<lambda>r. r \<noteq> [] \<and> take (length r) s = r) runes = None"
  proof (subst find_None_iff, rule notI)
    assume "\<exists>r. r \<in> set runes \<and> r \<noteq> [] \<and> take (length r) s = r"
    then obtain r where r: "r \<in> set runes" "r \<noteq> []" "take (length r) s = r" by blast
    then have "hd r \<in> set s" by (metis hd_in_set in_set_takeD)
    with assms r show False by blast
  qed
  then show ?thesis by (subst trimRunes.simps) simp
qed

text \<open>The characters of a version are printable ASCII characters.\<close>

lemma TrimSpace_clean:
  assumes "\<forall>c \<in> set s. (of_char c :: nat) \<in> {33..126}"
  shows "TrimSpace s = s"
proof -
  have clean: "trimRunes runes t = t" if t: "set t = set s" and r: "\<forall>r \<in> set runes. (of_char (hd r) :: nat) \<notin> {33..126}" for runes t
    using assms t r by (intro trimRunes_clean) auto
  have "\<forall>r \<in> set spaceRunes. (of_char (hd r) :: nat) \<notin> {33..126}" "\<forall>r \<in> set (map rev spaceRunes). (of_char (hd r) :: nat) \<notin> {33..126}"
    by (simp_all add: spaceRunes_def)
  then show ?thesis by (simp add: TrimSpace_def clean del: set_map)
qed

definition wellFormedVersion :: "Version \<Rightarrow> bool" where
  "wellFormedVersion v \<longleftrightarrow> list_all (\<lambda>i. parseIdentifier (idRaw i) = Some i) (verPrerelease v)"

lemma those_all: "(\<And>x. x \<in> set xs \<Longrightarrow> f (g x) = Some x) \<Longrightarrow> those (map f (map g xs)) = Some xs"
  by (induction xs) auto

lemma show_nat_first: "0 < n \<Longrightarrow> show_nat n ! 0 \<noteq> CHR ''0''"
proof (induction n rule: show_nat.induct)
  case (1 n)
  show ?case
  proof (cases "n < 10")
    case True
    with 1(2) digit_char_inj [of n 0] show ?thesis by (simp add: show_nat.simps [of n] digit_char_def)
  next
    case False
    then have "0 < n div 10" by simp
    with 1(1) [OF False] False show ?thesis by (simp add: show_nat.simps [of n] nth_append)
  qed
qed

lemma FormatUint_plain: "FormatUint n \<noteq> [] \<and> \<not> leadingZero (FormatUint n)"
proof (cases "unat n = 0")
  case True
  then show ?thesis by (simp add: FormatUint_def leadingZero_def show_nat.simps)
next
  case False
  with show_nat_first [of "unat n"] show ?thesis by (simp add: FormatUint_def leadingZero_def)
qed

lemma parseCore_FormatUint: "parseCore (FormatUint n) = Some n"
  using FormatUint_plain [of n] by (simp add: parseCore_def)

lemma parse_identifier_chars: "parseIdentifier s = Some i \<Longrightarrow> s \<noteq> [] \<and> list_all identifierChar s"
  by (auto simp: parseIdentifier_def validIdentifier_def split: if_splits)

lemma char_ranges:
  "isDigit c \<Longrightarrow> (of_char c :: nat) \<in> {48..57}"
  "identifierChar c \<Longrightarrow> (of_char c :: nat) \<in> {48..57} \<union> {65..90} \<union> {97..122} \<union> {45}"
  by (auto simp: identifierChar_def char_classes decimalChar_isDigit [symmetric])

lemma Cut_clean: "c \<notin> set s \<Longrightarrow> Cut [c] s = (s, None)"
  by (induction s) auto

lemma Cut_first: "c \<notin> set s \<Longrightarrow> Cut [c] (s @ c # t) = (s, Some t)"
  by (induction s) auto

lemma print_chars:
  assumes "wellFormedVersion v" "c \<in> set (printVersion v)"
  shows "(of_char c :: nat) \<in> {33..126} \<and> c \<noteq> CHR ''+''"
proof -
  have raws: "(of_char c :: nat) \<in> {48..57} \<union> {65..90} \<union> {97..122} \<union> {45, 46}"
    if "c \<in> set (joinWith (CHR ''.'') (map idRaw ids))" "\<forall>i \<in> set ids. list_all identifierChar (idRaw i)" for ids
    using that
  proof (induction ids)
    case (Cons i ids)
    then show ?case
      by (cases ids) (auto simp: list_all_iff dest!: char_ranges(2))
  qed simp
  have "\<forall>i \<in> set (verPrerelease v). list_all identifierChar (idRaw i)"
    using assms(1) parse_identifier_chars by (auto simp: wellFormedVersion_def list_all_iff)
  with raws [of "verPrerelease v"] assms(2) have "(of_char c :: nat) \<in> {48..57} \<union> {65..90} \<union> {97..122} \<union> {45, 46}"
    by (auto simp: printVersion_def dest!: FormatUint_digits char_ranges(1) split: if_splits)
  then show ?thesis by auto
qed

lemma FormatUint_no:
  assumes "\<not> isDigit c"
  shows "c \<notin> set (FormatUint n)"
  using assms FormatUint_digits by blast

lemma split_core:
  "splitOn (CHR ''.'') (FormatUint a @ CHR ''.'' # FormatUint b @ CHR ''.'' # FormatUint c) = [FormatUint a, FormatUint b, FormatUint c]"
  by (simp add: split_three FormatUint_no isDigit_def)

lemma Cut_print:
  "Cut ''-'' (printVersion v) =
     (FormatUint (verMajor v) @ ''.'' @ FormatUint (verMinor v) @ ''.'' @ FormatUint (verPatch v),
      if verPrerelease v = [] then None else Some (joinWith (CHR ''.'') (map idRaw (verPrerelease v))))"
proof -
  let ?core = "FormatUint (verMajor v) @ ''.'' @ FormatUint (verMinor v) @ ''.'' @ FormatUint (verPatch v)"
  have "CHR ''-'' \<notin> set ?core" by (simp add: FormatUint_no isDigit_def)
  from Cut_clean [OF this] Cut_first [OF this] show ?thesis by (simp add: printVersion_def)
qed

lemma ParseVersion_print:
  assumes v: "wellFormedVersion v"
  shows "ParseVersion (printVersion v) = Some v"
proof -
  have raws: "\<forall>i \<in> set (verPrerelease v). idRaw i \<noteq> [] \<and> CHR ''.'' \<notin> set (idRaw i)"
    using v parse_identifier_chars char_ranges(2) by (fastforce simp: wellFormedVersion_def list_all_iff)
  have "TrimSpace (printVersion v) = printVersion v" using print_chars [OF v] by (intro TrimSpace_clean) blast
  moreover have "CHR ''+'' \<notin> set (printVersion v)" using print_chars [OF v] by blast
  moreover have "printVersion v \<noteq> []" using FormatUint_plain by (simp add: printVersion_def)
  moreover have "joinWith (CHR ''.'') (map idRaw (verPrerelease v)) \<noteq> []" if "verPrerelease v \<noteq> []"
    using that raws by (cases "verPrerelease v"; cases "tl (verPrerelease v)") auto
  moreover have "those (map parseIdentifier (splitOn (CHR ''.'') (joinWith (CHR ''.'') (map idRaw (verPrerelease v))))) = Some (verPrerelease v)"
    if "verPrerelease v \<noteq> []"
    using that raws v those_all [of "verPrerelease v" parseIdentifier idRaw]
    by (simp add: split_join wellFormedVersion_def list_all_iff del: map_map)
  ultimately show ?thesis
    by (auto simp: ParseVersion_def Cut_print split_core parseCore_FormatUint)
qed

lemma ParseVersion_wellFormed: "ParseVersion raw = Some v \<Longrightarrow> wellFormedVersion v"
proof (erule ParseVersion_cases)
  fix core pre
  assume "those (map parseIdentifier (splitOn (CHR ''.'') pre)) = Some (verPrerelease v)"
  from those_map_SomeD [OF this] parse_raws [OF this] show "wellFormedVersion v"
    by (auto simp: wellFormedVersion_def list_all_length) (metis parseIdentifier_raw)
qed (simp add: wellFormedVersion_def)

lemma ParseVersion_iff: "ParseVersion raw = Some v \<longleftrightarrow> raw = printVersion v \<and> wellFormedVersion v"
  using print_ParseVersion ParseVersion_print ParseVersion_wellFormed by blast

lemma compare_zero:
  assumes "wellFormedVersion v" "wellFormedVersion w" "list_all fitsIdentifier (verPrerelease v)" "list_all fitsIdentifier (verPrerelease w)"
  shows "CompareVersions v w = 0 \<longleftrightarrow> printVersion v = printVersion w"
proof
  assume "CompareVersions v w = 0"
  then have key: "versionKey v = versionKey w" by (simp add: CompareVersions_sign)
  then have ids: "map idKey (verPrerelease v) = map idKey (verPrerelease w)" by (simp add: versionKey_def)
  have "map idRaw (verPrerelease v) = map idRaw (verPrerelease w)"
  proof (rule nth_equalityI)
    show len: "length (map idRaw (verPrerelease v)) = length (map idRaw (verPrerelease w))" using map_eq_imp_length_eq [OF ids] by simp
    fix n assume "n < length (map idRaw (verPrerelease v))"
    then have n: "n < length (verPrerelease v)" "n < length (verPrerelease w)" using len by simp_all
    then have "idKey (verPrerelease v ! n) = idKey (verPrerelease w ! n)" using ids by (metis nth_map)
    with n assms show "map idRaw (verPrerelease v) ! n = map idRaw (verPrerelease w) ! n"
      by (auto simp: wellFormedVersion_def list_all_length intro: idKey_raw)
  qed
  with key show "printVersion v = printVersion w" by (auto simp: printVersion_def versionKey_def)
next
  assume "printVersion v = printVersion w"
  with ParseVersion_print assms(1,2) have "v = w" by (metis option.inject)
  then show "CompareVersions v w = 0" by (simp add: CompareVersions_sign)
qed

lemma sign3_swap: "sign3 y x = - sign3 x y"
  by (auto simp: sign3_def)

end
