(* ===== verification/Update_Feed.thy ===== *)
theory Update_Feed
  imports Semver Sync_Types
begin

text \<open>
  internal/selfhost/updates: the signed update feed of the self-hosted server (feed.go), the pinned
  keys (keys.go), the registry of products (registry.go), the choice of a version (versions.go) and
  the commands shown to the operator (install.go).  The JSON encoding and \<open>url.Parse\<close> are the
  parameter \<open>lib\<close>; a decoder returns the value and the bytes it did not read.  The message of a
  rejected feed is not modelled.  The order in which Go visits the channels of a product does not
  matter, since every failure gives the same error.
\<close>

section \<open>Keys\<close>

type_synonym Keys = "(string \<times> bytes) list"

definition keyIDChar :: "char \<Rightarrow> bool" where
  "keyIDChar c \<longleftrightarrow> lowerAlpha c \<or> upperAlpha c \<or> decimalChar c \<or> c = CHR ''-'' \<or> c = CHR ''_'' \<or> c = CHR ''.''"

definition ValidKeyID :: "string \<Rightarrow> bool" where
  "ValidKeyID value \<longleftrightarrow> \<not> (value = [] \<or> 64 < length value) \<and> list_all keyIDChar value"

fun parseKeyEntries :: "string list \<Rightarrow> Keys \<Rightarrow> Keys option" where
  "parseKeyEntries [] keys = Some keys"
| "parseKeyEntries (entry # entries) keys =
     (case Cut '':'' (TrimSpace entry) of
        (_, None) \<Rightarrow> None
      | (keyID, Some encoded) \<Rightarrow>
          if \<not> ValidKeyID keyID then None
          else (case DecodeString encoded of
              None \<Rightarrow> None
            | Some raw \<Rightarrow>
                if length raw \<noteq> 32 \<or> map_of keys keyID \<noteq> None then None
                else parseKeyEntries entries (AList.update keyID raw keys)))"

definition ParseKeys :: "string \<Rightarrow> Keys option" where
  "ParseKeys text =
     (let text = TrimSpace text
      in if text = [] then Some []
         else if list_ex is_newline text then None
         else parseKeyEntries (splitOn (CHR '','') text) [])"

definition FormatKey :: "string \<Rightarrow> bytes \<Rightarrow> string" where
  "FormatKey keyID key = keyID @ '':'' @ EncodeToString key"

section \<open>Registry\<close>

record ProductSpec =
  psID :: string
  psChannels :: "string list"

type_synonym Registry = "(string \<times> ProductSpec) list"

definition HasChannel :: "ProductSpec \<Rightarrow> string \<Rightarrow> bool" where
  "HasChannel p channel \<longleftrightarrow> channel \<in> set (psChannels p)"

definition ServerProductID :: string where "ServerProductID = ''sesame-server''"
definition ChannelStable :: string where "ChannelStable = ''stable''"
definition ChannelBeta :: string where "ChannelBeta = ''beta''"

definition slugChar :: "char \<Rightarrow> bool" where
  "slugChar c \<longleftrightarrow> lowerAlpha c \<or> decimalChar c \<or> c = CHR ''-''"

definition validProductID :: "string \<Rightarrow> bool" where
  "validProductID value \<longleftrightarrow> \<not> (value = [] \<or> 64 < length value \<or> value ! 0 = CHR ''-'') \<and> list_all slugChar value"

definition ValidUpdateChannel :: "string \<Rightarrow> bool" where
  "ValidUpdateChannel value \<longleftrightarrow>
     \<not> (value = [] \<or> 32 < length value \<or> value ! 0 < CHR ''a'' \<or> CHR ''z'' < value ! 0) \<and> list_all slugChar value"

definition RegisterProduct :: "ProductSpec \<Rightarrow> Registry \<Rightarrow> Registry option" where
  "RegisterProduct spec r =
     (if \<not> validProductID (psID spec) then None
      else if psChannels spec = [] then None
      else if \<not> list_all ValidUpdateChannel (psChannels spec) then None
      else if map_of r (psID spec) \<noteq> None then None
      else Some (AList.update (psID spec) spec r))"

definition DefaultRegistry :: "Registry option" where
  "DefaultRegistry = RegisterProduct \<lparr>psID = ServerProductID, psChannels = [ChannelStable, ChannelBeta]\<rparr> []"

definition IDs :: "Registry \<Rightarrow> string list" where
  "IDs r = sort (map fst r)"

section \<open>The feed\<close>

record Envelope =
  envPayload :: string
  envSignature :: string
  envKeyID :: string

record Image =
  imRef :: string

record Binary =
  biOS :: string
  biArch :: string
  biURL :: string
  biSHA256 :: string

record Release =
  reVersion :: string
  rePublishedAt :: gotime
  reNotesURL :: string
  reSecurity :: bool
  reMinimumFrom :: string
  reImages :: "Image list"
  reBinaries :: "Binary list"

record Product =
  prodID :: string
  prodChannels :: "(string \<times> Release) list"

record Payload =
  plSchemaVersion :: int
  plSequence :: int
  plIssuedAt :: gotime
  plExpiresAt :: gotime
  plProducts :: "Product list"

record Document =
  docPayload :: Payload
  docEnvelope :: Envelope
  docRaw :: bytes

record urlParts =
  upScheme :: string
  upHost :: string
  upHostname :: string
  upUser :: bool
  upOpaque :: string
  upFragment :: string

record feedLib =
  flEnvelope :: "bytes \<Rightarrow> (Envelope \<times> bytes) option"
  flPayload :: "bytes \<Rightarrow> (Payload \<times> bytes) option"
  flMarshalEnvelope :: "Envelope \<Rightarrow> bytes option"
  flMarshalPayload :: "Payload \<Rightarrow> bytes option"
  flURL :: "string \<Rightarrow> urlParts option"

record Verifier =
  vrKeys :: Keys
  vrRegistry :: Registry

datatype feed_error = ErrFeedInvalid | ErrFeedExpired | ErrFeedMarshal

definition FeedSchemaVersion :: int where "FeedSchemaVersion = 1"
definition MaxFeedBytes :: nat where "MaxFeedBytes = 256 * 1024"
definition MaxFeedLifetime :: int where "MaxFeedLifetime = 45 * 24 * 3600 * second"
definition MaxIssuedSkew :: int where "MaxIssuedSkew = 600 * second"
definition MaxSequence :: int where "MaxSequence = 1000000000"
definition signingContext :: string where "signingContext = ''sesame-update-feed-v1'' @ [CHR 0x0A]"

text \<open>The zero \<open>time.Time\<close>: January 1 of year 1.\<close>

definition zeroTime :: gotime where "zeroTime = - 62135596800 * second"

definition urlChar :: "char \<Rightarrow> bool" where
  "urlChar c \<longleftrightarrow> CHR 0x20 < c \<and> c < CHR 0x7F \<and>
     c \<notin> {CHR 0x27, CHR 0x22, CHR 0x60, CHR 0x5C, CHR ''<'', CHR ''>'', CHR ''{'', CHR ''}'', CHR ''['', CHR '']'', CHR ''|'', CHR ''^''}"

definition validateURL :: "feedLib \<Rightarrow> string \<Rightarrow> bool" where
  "validateURL lib raw \<longleftrightarrow> \<not> (raw = [] \<or> 2048 < length raw) \<and> list_all urlChar raw \<and>
     (case flURL lib raw of
        None \<Rightarrow> False
      | Some parsed \<Rightarrow> \<not> (upScheme parsed \<noteq> ''https'' \<or> upHost parsed = [] \<or> upHostname parsed = [] \<or> upUser parsed \<or>
          upOpaque parsed \<noteq> [] \<or> upFragment parsed \<noteq> []))"

definition hexLower :: "char \<Rightarrow> bool" where
  "hexLower c \<longleftrightarrow> decimalChar c \<or> CHR ''a'' \<le> c \<and> c \<le> CHR ''f''"

definition sha256Pattern :: "string \<Rightarrow> bool" where
  "sha256Pattern s \<longleftrightarrow> length s = 64 \<and> list_all hexLower s"

definition imageNamePattern :: "string \<Rightarrow> bool" where
  "imageNamePattern s \<longleftrightarrow> s \<noteq> [] \<and> (lowerAlpha (s ! 0) \<or> decimalChar (s ! 0)) \<and> length s \<le> 255 \<and>
     list_all (\<lambda>c. lowerAlpha c \<or> decimalChar c \<or> c \<in> set ''._/:-'') s"

definition platformPattern :: "string \<Rightarrow> bool" where
  "platformPattern s \<longleftrightarrow> 2 \<le> length s \<and> length s \<le> 16 \<and> list_all (\<lambda>c. lowerAlpha c \<or> decimalChar c) s"

definition ValidImageRef :: "string \<Rightarrow> bool" where
  "ValidImageRef ref =
     (case Cut ''@sha256:'' ref of
        (_, None) \<Rightarrow> False | (name, Some hash) \<Rightarrow> imageNamePattern name \<and> sha256Pattern hash)"

fun validateBinaries :: "feedLib \<Rightarrow> string list \<Rightarrow> Binary list \<Rightarrow> bool" where
  "validateBinaries lib platforms [] = True"
| "validateBinaries lib platforms (b # bs) =
     (if \<not> platformPattern (biOS b) \<or> \<not> platformPattern (biArch b) then False
      else if biOS b @ ''/'' @ biArch b \<in> set platforms then False
      else if \<not> validateURL lib (biURL b) then False
      else if \<not> sha256Pattern (biSHA256 b) then False
      else validateBinaries lib ((biOS b @ ''/'' @ biArch b) # platforms) bs)"

definition validateRelease :: "feedLib \<Rightarrow> Release \<Rightarrow> bool" where
  "validateRelease lib r \<longleftrightarrow>
     ParseVersion (reVersion r) \<noteq> None \<and> rePublishedAt r \<noteq> zeroTime \<and> validateURL lib (reNotesURL r) \<and>
     \<not> (reMinimumFrom r \<noteq> [] \<and> \<not> ValidVersion (reMinimumFrom r)) \<and>
     \<not> 8 < length (reImages r) \<and> list_all (\<lambda>i. ValidImageRef (imRef i)) (reImages r) \<and>
     \<not> 32 < length (reBinaries r) \<and> validateBinaries lib [] (reBinaries r)"

fun validateProducts :: "feedLib \<Rightarrow> Registry \<Rightarrow> string list \<Rightarrow> Product list \<Rightarrow> string list option" where
  "validateProducts lib registry seen [] = Some seen"
| "validateProducts lib registry seen (p # ps) =
     (if \<not> validProductID (prodID p) then None
      else if prodID p \<in> set seen then None
      else case map_of registry (prodID p) of
          None \<Rightarrow> validateProducts lib registry (prodID p # seen) ps
        | Some spec \<Rightarrow>
            if list_all (\<lambda>(channel, release). HasChannel spec channel \<longrightarrow> validateRelease lib release) (prodChannels p)
            then validateProducts lib registry (prodID p # seen) ps else None)"

definition ValidatePayload :: "feedLib \<Rightarrow> Payload \<Rightarrow> Registry \<Rightarrow> bool" where
  "ValidatePayload lib payload registry =
     (if plSchemaVersion payload \<noteq> FeedSchemaVersion then False
      else if plSequence payload < 1 \<or> MaxSequence < plSequence payload then False
      else if plIssuedAt payload = zeroTime \<or> plExpiresAt payload = zeroTime then False
      else if \<not> plIssuedAt payload < plExpiresAt payload \<or> MaxFeedLifetime < plExpiresAt payload - plIssuedAt payload then False
      else if plProducts payload = [] \<or> 32 < length (plProducts payload) then False
      else case validateProducts lib registry [] (plProducts payload) of
          None \<Rightarrow> False
        | Some seen \<Rightarrow> list_all (\<lambda>productID. productID \<in> set seen) (IDs registry))"

definition signedMessage :: "bytes \<Rightarrow> bytes" where
  "signedMessage payload = bytes_of signingContext @ payload"

definition OpenFeed :: "feedLib \<Rightarrow> ed25519 \<Rightarrow> Verifier \<Rightarrow> bytes \<Rightarrow> feed_error + Document" where
  "OpenFeed lib ed v body =
     (if MaxFeedBytes < length body then Inl ErrFeedInvalid
      else case flEnvelope lib body of
        None \<Rightarrow> Inl ErrFeedInvalid
      | Some (envelope, rest) \<Rightarrow>
      if \<not> list_all jsonSpace rest then Inl ErrFeedInvalid
      else case map_of (vrKeys v) (envKeyID envelope) of
        None \<Rightarrow> Inl ErrFeedInvalid
      | Some key \<Rightarrow>
      if list_ex is_newline (envPayload envelope) \<or> list_ex is_newline (envSignature envelope) then Inl ErrFeedInvalid
      else case DecodeString (envPayload envelope) of
        None \<Rightarrow> Inl ErrFeedInvalid
      | Some payloadBytes \<Rightarrow>
      if payloadBytes = [] then Inl ErrFeedInvalid
      else case DecodeString (envSignature envelope) of
        None \<Rightarrow> Inl ErrFeedInvalid
      | Some signature \<Rightarrow>
      if length signature \<noteq> 64 then Inl ErrFeedInvalid
      else if \<not> edVerify ed key (signedMessage payloadBytes) signature then Inl ErrFeedInvalid
      else case flPayload lib payloadBytes of
        None \<Rightarrow> Inl ErrFeedInvalid
      | Some (payload, rest) \<Rightarrow>
      if \<not> list_all jsonSpace rest then Inl ErrFeedInvalid
      else if \<not> ValidatePayload lib payload (vrRegistry v) then Inl ErrFeedInvalid
      else case flMarshalEnvelope lib envelope of
        None \<Rightarrow> Inl ErrFeedMarshal
      | Some canonical \<Rightarrow> Inr \<lparr>docPayload = payload, docEnvelope = envelope, docRaw = canonical\<rparr>)"

definition CheckFresh :: "Payload \<Rightarrow> gotime \<Rightarrow> feed_error option" where
  "CheckFresh payload now =
     (if now + MaxIssuedSkew < plIssuedAt payload then Some ErrFeedInvalid
      else if plExpiresAt payload < now then Some ErrFeedExpired
      else None)"

definition VerifyFeed :: "feedLib \<Rightarrow> ed25519 \<Rightarrow> Verifier \<Rightarrow> bytes \<Rightarrow> gotime \<Rightarrow> feed_error + Document" where
  "VerifyFeed lib ed v body now =
     (case OpenFeed lib ed v body of
        Inl e \<Rightarrow> Inl e
      | Inr document \<Rightarrow> (case CheckFresh (docPayload document) now of Some e \<Rightarrow> Inl e | None \<Rightarrow> Inr document))"

definition SignFeed :: "feedLib \<Rightarrow> ed25519 \<Rightarrow> Payload \<Rightarrow> string \<Rightarrow> bytes \<Rightarrow> bytes option" where
  "SignFeed lib ed payload keyID key =
     (if \<not> ValidKeyID keyID \<or> length key \<noteq> 64 then None
      else case flMarshalPayload lib payload of
          None \<Rightarrow> None
        | Some payloadBytes \<Rightarrow>
            flMarshalEnvelope lib \<lparr>envPayload = EncodeToString payloadBytes,
              envSignature = EncodeToString (edSign ed key (signedMessage payloadBytes)), envKeyID = keyID\<rparr>)"

definition releaseFor :: "Payload \<Rightarrow> string \<Rightarrow> string \<Rightarrow> Release option" where
  "releaseFor p productID channel =
     (case find (\<lambda>x. prodID x = productID) (plProducts p) of None \<Rightarrow> None | Some x \<Rightarrow> map_of (prodChannels x) channel)"

section \<open>Versions\<close>

definition Newer :: "string \<Rightarrow> string \<Rightarrow> bool" where
  "Newer candidate current =
     (case ParseVersion candidate of
        None \<Rightarrow> False
      | Some next_version \<Rightarrow>
          (case ParseVersion current of None \<Rightarrow> False | Some installed \<Rightarrow> 0 < CompareVersions next_version installed))"

definition Offered :: "Release \<Rightarrow> string \<Rightarrow> bool" where
  "Offered r channel =
     (case ParseVersion (reVersion r) of
        None \<Rightarrow> False
      | Some version \<Rightarrow> \<not> (channel = ChannelStable \<and> 0 < length (verPrerelease version)))"

section \<open>Commands\<close>

datatype InstallKind = InstallContainer | InstallBinary

record Command =
  cmLabel :: string
  cmText :: string

record Platform =
  pfOS :: string
  pfArch :: string
  pfExecutable :: string

definition quoteChar :: char where "quoteChar = CHR 0x27"

definition shellQuote :: "string \<Rightarrow> string" where
  "shellQuote value =
     [quoteChar] @ concat (map (\<lambda>c. if c = quoteChar then [quoteChar, CHR 0x5C, quoteChar, quoteChar] else [c]) value) @ [quoteChar]"

definition pulledDigestCommand :: string where
  "pulledDigestCommand =
     ''docker image inspect --format '' @ [quoteChar] @ ''{{range .RepoDigests}}{{println .}}{{end}}'' @ [quoteChar] @ '' '' @
     [CHR 0x22] @ ''$(docker compose config --images)'' @ [CHR 0x22]"

definition containerCommands :: "Release \<Rightarrow> Command list" where
  "containerCommands r =
     [\<lparr>cmLabel = ''Set the new version in the settings your compose file reads'', cmText = ''SESAME_IMAGE_TAG='' @ reVersion r\<rparr>,
      \<lparr>cmLabel = ''Pull the image, in the directory that holds your compose file'', cmText = ''docker compose pull''\<rparr>,
      \<lparr>cmLabel = ''Print the digest of the image you pulled'', cmText = pulledDigestCommand\<rparr>] @
     (if 0 < length (reImages r)
      then [\<lparr>cmLabel = ''Image named in the signed feed, to compare with the digest above'', cmText = imRef (reImages r ! 0)\<rparr>]
      else []) @
     [\<lparr>cmLabel = ''Start the server on the new image, in the same directory'', cmText = ''docker compose up -d''\<rparr>]"

definition binaryCommands :: "Release \<Rightarrow> Platform \<Rightarrow> Command list" where
  "binaryCommands r platform =
     (case find (\<lambda>b. biOS b = pfOS platform \<and> biArch b = pfArch platform) (reBinaries r) of
        None \<Rightarrow> []
      | Some b \<Rightarrow>
          (let executable = (if pfExecutable platform = [] then ''/usr/local/bin/sesame-server'' else pfExecutable platform);
               compare = (if pfOS platform = ''darwin'' then ''shasum -a 256 -c -'' else ''sha256sum -c -'');
               q = [quoteChar]
           in [\<lparr>cmLabel = ''Download the program'', cmText = ''curl -fsSLo sesame-server.new --proto '' @ q @ ''=https'' @ q @
                   '' --proto-redir '' @ q @ ''=https'' @ q @ '' '' @ shellQuote (biURL b)\<rparr>,
               \<lparr>cmLabel = ''Compare it with the SHA-256 in the signed feed'',
                 cmText = ''echo '' @ q @ biSHA256 b @ ''  sesame-server.new'' @ q @ '' | '' @ compare\<rparr>,
               \<lparr>cmLabel = ''Replace the installed program'',
                 cmText = ''sudo install -m 0755 sesame-server.new '' @ shellQuote executable\<rparr>,
               \<lparr>cmLabel = ''Restart the service'', cmText = ''sudo systemctl restart sesame-server''\<rparr>]))"

definition Commands :: "InstallKind \<Rightarrow> Release \<Rightarrow> Platform \<Rightarrow> Command list" where
  "Commands kind r platform = (if kind = InstallContainer then containerCommands r else binaryCommands r platform)"

text \<open>
  How a POSIX shell reads one word that uses only single quotes and backslashes: the reference for
  \<open>shellQuote\<close>.
\<close>

fun shellRead :: "bool \<Rightarrow> string \<Rightarrow> string option" where
  "shellRead True [] = None"
| "shellRead True (c # cs) = (if c = quoteChar then shellRead False cs else map_option ((#) c) (shellRead True cs))"
| "shellRead False [] = Some []"
| "shellRead False [c] = (if c = quoteChar then shellRead True [] else None)"
| "shellRead False (c # d # cs) =
     (if c = quoteChar then shellRead True (d # cs) else if c = CHR 0x5C then map_option ((#) d) (shellRead False cs) else None)"

lemma shellRead_quote: "shellRead False (quoteChar # cs) = shellRead True cs"
  by (cases cs) simp_all

definition escaped :: "string \<Rightarrow> string" where
  "escaped v = concat (map (\<lambda>c. if c = quoteChar then [quoteChar, CHR 0x5C, quoteChar, quoteChar] else [c]) v)"

lemma shellRead_escaped: "shellRead True (escaped v @ [quoteChar]) = Some v"
proof (induction v)
  case (Cons c v)
  then show ?case
  proof (cases "c = quoteChar")
    case True
    have "quoteChar \<noteq> CHR 0x5C" by (simp add: quoteChar_def)
    with Cons True show ?thesis by (simp add: escaped_def shellRead_quote)
  qed (simp add: escaped_def)
qed (simp add: escaped_def)

lemma shellRead_shellQuote: "shellRead False (shellQuote v) = Some v"
  using shellRead_escaped [of v] by (simp add: shellQuote_def shellRead_quote escaped_def)

end
