(* ===== verification/Update_Store.thy ===== *)
theory Update_Store
  imports Update_Feed
begin

text \<open>
  The settings of the update checks and their store: the interface \<open>UpdateStore\<close> of
  internal/selfhost/updates.go as a record of operations, its contract as a locale, and the SQLite
  store (internal/selfhost/sqlitestore/updates.go) with the two tables \<open>update_settings\<close> (one row) and
  \<open>update_sequences\<close>, each statement written out as what it does to them.  The transactions of the
  store roll back on an error.  Whether the database, the encoding of the audit entry or the closed
  store makes the next call fail is decided by \<open>sqFaults\<close>; the entries of the audit log are kept
  without their hash chain.
\<close>

section \<open>The interface\<close>

datatype UpdateChoice = UpdatesUnset | UpdatesOn | UpdatesOff

definition UpdateErrorUnreachable :: string where "UpdateErrorUnreachable = ''feed_unreachable''"
definition UpdateErrorInvalid :: string where "UpdateErrorInvalid = ''feed_invalid''"
definition UpdateErrorRollback :: string where "UpdateErrorRollback = ''feed_rollback''"
definition UpdateErrorExpired :: string where "UpdateErrorExpired = ''feed_expired''"

lemmas update_code_defs = UpdateErrorUnreachable_def UpdateErrorInvalid_def UpdateErrorRollback_def UpdateErrorExpired_def

definition ValidUpdateError :: "string \<Rightarrow> bool" where
  "ValidUpdateError code \<longleftrightarrow> code \<in> {UpdateErrorUnreachable, UpdateErrorInvalid, UpdateErrorRollback, UpdateErrorExpired}"

record UpdateSettings =
  usChoice :: UpdateChoice
  usChannel :: string
  usSequences :: "(string \<times> int) list"
  usFeed :: bytes
  usCheckedAt :: "gotime option"
  usLastError :: string

record UpdateChange =
  ucEnabled :: "bool option"
  ucChannel :: "string option"

record UpdateFeed =
  ufRaw :: bytes
  ufKeyID :: string
  ufSequence :: int
  ufCheckedAt :: gotime

datatype store_error = StoreFailed | StoreNotFound | StoreConflict | StoreInvalidInput

record 's UpdateStore =
  stSettings :: "('s, store_error, UpdateSettings) txm"
  stConfigure :: "string \<Rightarrow> UpdateChange \<Rightarrow> ('s, store_error, UpdateSettings) txm"
  stRecordFeed :: "UpdateFeed \<Rightarrow> ('s, store_error, unit) txm"
  stRecordFailure :: "string \<Rightarrow> gotime \<Rightarrow> ('s, store_error, unit) txm"
  stResetSequences :: "string \<Rightarrow> ('s, store_error, nat) txm"

text \<open>The highest accepted sequence number of a key, 0 if there is none.\<close>

definition seqOf :: "UpdateSettings \<Rightarrow> string \<Rightarrow> int" where
  "seqOf x keyID = (case map_of (usSequences x) keyID of None \<Rightarrow> 0 | Some n \<Rightarrow> n)"

definition recorded :: "UpdateFeed \<Rightarrow> UpdateSettings \<Rightarrow> UpdateSettings \<Rightarrow> bool" where
  "recorded f x y \<longleftrightarrow>
     (\<forall>n. map_of (usSequences x) (ufKeyID f) = Some n \<longrightarrow> n \<le> ufSequence f) \<and>
     map_of (usSequences y) = (map_of (usSequences x)) (ufKeyID f \<mapsto> ufSequence f) \<and>
     y = x\<lparr>usSequences := usSequences y, usFeed := ufRaw f, usCheckedAt := Some (ufCheckedAt f div second * second), usLastError := []\<rparr>"

locale update_store =
  fixes T :: "'s UpdateStore" and view :: "'s \<Rightarrow> UpdateSettings option"
  assumes Settings_ok: "stSettings T s = (Inr x, s') \<Longrightarrow> view s = Some x \<and> view s' = view s"
    and Settings_err: "stSettings T s = (Inl e, s') \<Longrightarrow> view s' = view s"
    and Configure_ok: "stConfigure T who change s = (Inr y, s') \<Longrightarrow> view s' = Some y \<and>
      (\<exists>x. view s = Some x \<and> y = x\<lparr>usChoice := usChoice y, usChannel := usChannel y\<rparr> \<and>
        (\<forall>b. ucEnabled change = Some b \<longrightarrow> usChoice y = (if b then UpdatesOn else UpdatesOff)) \<and>
        (ucEnabled change = None \<longrightarrow> usChoice y = usChoice x) \<and>
        usChannel y = (case ucChannel change of None \<Rightarrow> usChannel x | Some c \<Rightarrow> c))"
    and Configure_err: "stConfigure T who change s = (Inl e, s') \<Longrightarrow> view s' = view s"
    and RecordFeed_ok: "stRecordFeed T f s = (Inr u, s') \<Longrightarrow> view s = Some x \<Longrightarrow> \<exists>y. view s' = Some y \<and> recorded f x y"
    and RecordFeed_err: "stRecordFeed T f s = (Inl e, s') \<Longrightarrow> view s' = view s"
    and RecordFeed_conflict: "stRecordFeed T f s = (Inl StoreConflict, s') \<Longrightarrow> view s = Some x \<Longrightarrow> ufSequence f < seqOf x (ufKeyID f)"
    and RecordFailure_ok: "stRecordFailure T code at s = (Inr u, s') \<Longrightarrow>
      \<exists>x. view s = Some x \<and> view s' = Some (x\<lparr>usLastError := code\<rparr>)"
    and RecordFailure_err: "stRecordFailure T code at s = (Inl e, s') \<Longrightarrow> view s' = view s"
    and Reset_ok: "stResetSequences T who s = (Inr n, s') \<Longrightarrow> view s = Some x \<Longrightarrow>
      \<exists>y. view s' = Some y \<and> usSequences y = [] \<and> y = x\<lparr>usSequences := [], usLastError := usLastError y\<rparr>"
    and Reset_err: "stResetSequences T who s = (Inl e, s') \<Longrightarrow> view s' = view s"

section \<open>The SQLite store\<close>

record updateRow =
  rwEnabled :: UpdateChoice
  rwChannel :: string
  rwLastFeed :: bytes
  rwCheckedAt :: "int option"
  rwLastError :: string

record auditEntry =
  aeActor :: string
  aeAction :: string
  aeTarget :: string
  aeDetail :: "(string \<times> string) list"

record sqliteDB =
  sqRow :: "updateRow option"
  sqSequences :: "(string \<times> int) list"
  sqAudit :: "auditEntry list"
  sqFaults :: "nat \<Rightarrow> bool"
  sqTick :: nat

definition attempt :: "(sqliteDB, store_error, 'a) txm \<Rightarrow> (sqliteDB, store_error, 'a) txm" where
  "attempt f s =
     (let s1 = s\<lparr>sqTick := Suc (sqTick s)\<rparr>
      in if sqFaults s (sqTick s) then (Inl StoreFailed, s1)
         else case f s1 of (Inl e, _) \<Rightarrow> (Inl e, s1) | (Inr x, s2) \<Rightarrow> (Inr x, s2))"

definition readUpdateSettings :: "sqliteDB \<Rightarrow> store_error + UpdateSettings" where
  "readUpdateSettings s =
     (case sqRow s of
        None \<Rightarrow> Inl StoreNotFound
      | Some row \<Rightarrow> Inr \<lparr>usChoice = rwEnabled row, usChannel = rwChannel row, usSequences = sqSequences s, usFeed = rwLastFeed row,
          usCheckedAt = map_option (\<lambda>n. n * second) (rwCheckedAt row), usLastError = rwLastError row\<rparr>)"

definition sqlUpdateSettings :: "(sqliteDB, store_error, UpdateSettings) txm" where
  "sqlUpdateSettings = attempt (readT readUpdateSettings)"

definition choiceOf :: "bool \<Rightarrow> UpdateChoice" where
  "choiceOf enabled = (if enabled then UpdatesOn else UpdatesOff)"

definition choiceText :: "UpdateChoice \<Rightarrow> string" where
  "choiceText c = (case c of UpdatesUnset \<Rightarrow> ''unset'' | UpdatesOn \<Rightarrow> ''on'' | UpdatesOff \<Rightarrow> ''off'')"

definition auditT :: "string \<Rightarrow> string \<Rightarrow> (string \<times> string) list \<Rightarrow> sqliteDB \<Rightarrow> sqliteDB" where
  "auditT who action detail s =
     s\<lparr>sqAudit := sqAudit s @ [\<lparr>aeActor = who, aeAction = action, aeTarget = ''instance'', aeDetail = detail\<rparr>]\<rparr>"

definition onRow :: "(updateRow \<Rightarrow> updateRow) \<Rightarrow> sqliteDB \<Rightarrow> sqliteDB" where
  "onRow f s = s\<lparr>sqRow := map_option f (sqRow s)\<rparr>"

definition sqlConfigureUpdates :: "string \<Rightarrow> UpdateChange \<Rightarrow> (sqliteDB, store_error, UpdateSettings) txm" where
  "sqlConfigureUpdates who change = attempt (\<lambda>s.
     (case readUpdateSettings s of
        Inl e \<Rightarrow> (Inl e, s)
      | Inr current \<Rightarrow>
          (let chosen = (case ucEnabled change of None \<Rightarrow> usChoice current | Some b \<Rightarrow> choiceOf b);
               detail1 = (if chosen \<noteq> usChoice current then [(''enabled'', choiceText chosen)] else []);
               channel = (case ucChannel change of None \<Rightarrow> usChannel current | Some c \<Rightarrow> c);
               detail2 = (if channel \<noteq> usChannel current then [(''channel'', channel)] else []);
               result = current\<lparr>usChoice := chosen, usChannel := channel\<rparr>
           in if (case ucChannel change of None \<Rightarrow> False | Some c \<Rightarrow> \<not> ValidUpdateChannel c) then (Inl StoreInvalidInput, s)
              else if detail1 @ detail2 = [] then (Inr result, s)
              else (Inr result, auditT who ''updates.updated'' (detail1 @ detail2)
                     (onRow (\<lambda>row. row\<lparr>rwEnabled := chosen, rwChannel := channel\<rparr>) s)))))"

definition sqlRecordUpdateFeed :: "UpdateFeed \<Rightarrow> (sqliteDB, store_error, unit) txm" where
  "sqlRecordUpdateFeed feed s =
     (if ufSequence feed < 1 \<or> ufRaw feed = [] \<or> ufKeyID feed = [] \<or> 64 < length (ufKeyID feed) then (Inl StoreInvalidInput, s)
      else attempt (\<lambda>s.
        (let changed = (case map_of (sqSequences s) (ufKeyID feed) of None \<Rightarrow> True | Some n \<Rightarrow> n \<le> ufSequence feed)
         in if \<not> changed then (Inl StoreConflict, s)
            else (Inr (), onRow (\<lambda>row. row\<lparr>rwLastFeed := ufRaw feed, rwCheckedAt := Some (ufCheckedAt feed div second), rwLastError := []\<rparr>)
                   (s\<lparr>sqSequences := AList.update (ufKeyID feed) (ufSequence feed) (sqSequences s)\<rparr>)))) s)"

definition sqlRecordUpdateFailure :: "string \<Rightarrow> gotime \<Rightarrow> (sqliteDB, store_error, unit) txm" where
  "sqlRecordUpdateFailure code at s =
     (if \<not> ValidUpdateError code then (Inl StoreInvalidInput, s)
      else attempt (\<lambda>s.
        (case readUpdateSettings s of
           Inl e \<Rightarrow> (Inl e, s)
         | Inr current \<Rightarrow>
             (let s1 = onRow (\<lambda>row. row\<lparr>rwLastError := code\<rparr>) s
              in if code \<noteq> UpdateErrorRollback \<or> usLastError current = code then (Inr (), s1)
                 else let highest = foldl (\<lambda>m n. max m n) 0 (map snd (usSequences current))
                      in (Inr (), auditT ''system'' ''updates.rollback_rejected'' [(''highestSequence'', show_nat (nat highest))] s1)))) s)"

definition sqlResetUpdateSequences :: "string \<Rightarrow> (sqliteDB, store_error, nat) txm" where
  "sqlResetUpdateSequences who = attempt (\<lambda>s.
     (let cleared = length (sqSequences s)
      in (Inr cleared, auditT who ''updates.sequences_reset'' [(''keys'', show_nat cleared)]
           (onRow (\<lambda>row. if rwLastError row = UpdateErrorRollback then row\<lparr>rwLastError := []\<rparr> else row) (s\<lparr>sqSequences := []\<rparr>)))))"

definition sqliteStore :: "sqliteDB UpdateStore" where
  "sqliteStore = \<lparr>stSettings = sqlUpdateSettings, stConfigure = sqlConfigureUpdates, stRecordFeed = sqlRecordUpdateFeed,
     stRecordFailure = sqlRecordUpdateFailure, stResetSequences = sqlResetUpdateSequences\<rparr>"

definition sqView :: "sqliteDB \<Rightarrow> UpdateSettings option" where
  "sqView s = (case readUpdateSettings s of Inl _ \<Rightarrow> None | Inr x \<Rightarrow> Some x)"

section \<open>The SQLite store meets the contract\<close>

lemma attempt_cases:
  assumes "attempt f s = (r, s')"
  obtains (fault) "r = Inl StoreFailed" "sqView s' = sqView s"
  | (error) e s2 where "f (s\<lparr>sqTick := Suc (sqTick s)\<rparr>) = (Inl e, s2)" "r = Inl e" "sqView s' = sqView s"
  | (finished) x where "f (s\<lparr>sqTick := Suc (sqTick s)\<rparr>) = (Inr x, s')" "r = Inr x"
proof -
  have tick: "sqView (s\<lparr>sqTick := n\<rparr>) = sqView s" for n by (simp add: sqView_def readUpdateSettings_def split: option.splits)
  from assms that show thesis
    by (auto simp: attempt_def Let_def tick split: if_splits prod.splits sum.splits)
qed

lemma sqView_tick [simp]: "sqView (s\<lparr>sqTick := n\<rparr>) = sqView s"
  by (simp add: sqView_def readUpdateSettings_def split: option.splits)

lemma attempt_err: "attempt f s = (Inl e, s') \<Longrightarrow> sqView s' = sqView s"
  by (erule attempt_cases) auto

lemma attempt_ok: "attempt f s = (Inr x, s') \<Longrightarrow> f (s\<lparr>sqTick := Suc (sqTick s)\<rparr>) = (Inr x, s')"
  by (erule attempt_cases) auto

lemma readUpdateSettings_view: "readUpdateSettings s = Inr x \<longleftrightarrow> sqView s = Some x"
  by (auto simp: sqView_def split: sum.splits)

lemma sqliteStore_sel [simp]:
  "stSettings sqliteStore = sqlUpdateSettings" "stConfigure sqliteStore = sqlConfigureUpdates"
  "stRecordFeed sqliteStore = sqlRecordUpdateFeed" "stRecordFailure sqliteStore = sqlRecordUpdateFailure"
  "stResetSequences sqliteStore = sqlResetUpdateSequences"
  by (simp_all add: sqliteStore_def)

lemma sqView_auditT [simp]: "sqView (auditT who action detail s) = sqView s"
  by (simp add: sqView_def readUpdateSettings_def auditT_def split: option.splits)

lemma sqView_row: "sqView s = Some x \<longleftrightarrow> (\<exists>row. sqRow s = Some row \<and>
    x = \<lparr>usChoice = rwEnabled row, usChannel = rwChannel row, usSequences = sqSequences s, usFeed = rwLastFeed row,
         usCheckedAt = map_option (\<lambda>n. n * second) (rwCheckedAt row), usLastError = rwLastError row\<rparr>)"
  by (auto simp: sqView_def readUpdateSettings_def split: option.splits)

lemma sqRow_onRow [simp]: "sqRow (onRow f s) = map_option f (sqRow s)" "sqSequences (onRow f s) = sqSequences s"
  by (simp_all add: onRow_def)

lemma sql_configure:
  assumes "sqlConfigureUpdates who change s = (Inr y, s')"
  shows "sqView s' = Some y \<and> (\<exists>x. sqView s = Some x \<and> y = x\<lparr>usChoice := usChoice y, usChannel := usChannel y\<rparr> \<and>
    (\<forall>b. ucEnabled change = Some b \<longrightarrow> usChoice y = (if b then UpdatesOn else UpdatesOff)) \<and>
    (ucEnabled change = None \<longrightarrow> usChoice y = usChoice x) \<and>
    usChannel y = (case ucChannel change of None \<Rightarrow> usChannel x | Some c \<Rightarrow> c))"
proof -
  let ?s = "s\<lparr>sqTick := Suc (sqTick s)\<rparr>"
  obtain x where x: "sqView ?s = Some x"
    and y: "y = x\<lparr>usChoice := (case ucEnabled change of None \<Rightarrow> usChoice x | Some b \<Rightarrow> choiceOf b),
              usChannel := (case ucChannel change of None \<Rightarrow> usChannel x | Some c \<Rightarrow> c)\<rparr>"
    and s': "s' = ?s \<and> usChoice y = usChoice x \<and> usChannel y = usChannel x \<or>
       (\<exists>d. s' = auditT who ''updates.updated'' d (onRow (\<lambda>row. row\<lparr>rwEnabled := usChoice y, rwChannel := usChannel y\<rparr>) ?s))"
    using attempt_ok [OF assms [unfolded sqlConfigureUpdates_def]]
    by (auto simp: Let_def readUpdateSettings_view split: sum.splits if_splits)
  have "sqView s' = Some y" using s'
  proof
    assume "s' = ?s \<and> usChoice y = usChoice x \<and> usChannel y = usChannel x"
    with x y show ?thesis by (cases x) auto
  next
    assume "\<exists>d. s' = auditT who ''updates.updated'' d (onRow (\<lambda>row. row\<lparr>rwEnabled := usChoice y, rwChannel := usChannel y\<rparr>) ?s)"
    then obtain d where "s' = auditT who ''updates.updated'' d (onRow (\<lambda>row. row\<lparr>rwEnabled := usChoice y, rwChannel := usChannel y\<rparr>) ?s)" ..
    with x y show ?thesis by (auto simp: sqView_row)
  qed
  with x y show ?thesis by (auto simp: choiceOf_def split: option.splits)
qed

lemma sql_feed:
  assumes "sqlRecordUpdateFeed f s = (Inr u, s')" "sqView s = Some x"
  shows "\<exists>y. sqView s' = Some y \<and> recorded f x y"
proof -
  let ?s = "s\<lparr>sqTick := Suc (sqTick s)\<rparr>"
  have "sqlRecordUpdateFeed f s = attempt (\<lambda>s.
        (let changed = (case map_of (sqSequences s) (ufKeyID f) of None \<Rightarrow> True | Some n \<Rightarrow> n \<le> ufSequence f)
         in if \<not> changed then (Inl StoreConflict, s)
            else (Inr (), onRow (\<lambda>row. row\<lparr>rwLastFeed := ufRaw f, rwCheckedAt := Some (ufCheckedAt f div second), rwLastError := []\<rparr>)
                   (s\<lparr>sqSequences := AList.update (ufKeyID f) (ufSequence f) (sqSequences s)\<rparr>)))) s"
    using assms(1) by (simp add: sqlRecordUpdateFeed_def split: if_splits)
  from attempt_ok [OF this [symmetric, unfolded assms(1)]]
  have le: "\<forall>n. map_of (sqSequences s) (ufKeyID f) = Some n \<longrightarrow> n \<le> ufSequence f"
    and s': "s' = onRow (\<lambda>row. row\<lparr>rwLastFeed := ufRaw f, rwCheckedAt := Some (ufCheckedAt f div second), rwLastError := []\<rparr>)
           (?s\<lparr>sqSequences := AList.update (ufKeyID f) (ufSequence f) (sqSequences s)\<rparr>)"
    by (auto simp: Let_def split: if_splits option.splits)
  from assms(2) le show ?thesis
    unfolding s' by (auto simp: sqView_row recorded_def update_conv')
qed

lemma sql_conflict:
  assumes "sqlRecordUpdateFeed f s = (Inl StoreConflict, s')" "sqView s = Some x"
  shows "ufSequence f < seqOf x (ufKeyID f)"
  using assms
  by (auto simp: sqlRecordUpdateFeed_def attempt_def Let_def sqView_row seqOf_def split: if_splits option.splits prod.splits sum.splits)

lemma sql_failure:
  assumes "sqlRecordUpdateFailure code at s = (Inr u, s')"
  shows "\<exists>x. sqView s = Some x \<and> sqView s' = Some (x\<lparr>usLastError := code\<rparr>)"
proof -
  let ?s = "s\<lparr>sqTick := Suc (sqTick s)\<rparr>"
  obtain x where x: "sqView ?s = Some x"
    and s': "sqView s' = sqView (onRow (\<lambda>row. row\<lparr>rwLastError := code\<rparr>) ?s)"
    using assms
    by (auto simp: sqlRecordUpdateFailure_def Let_def readUpdateSettings_view dest!: attempt_ok split: sum.splits if_splits)
  with x show ?thesis by (auto simp: sqView_row)
qed

lemma sql_reset:
  assumes "sqlResetUpdateSequences who s = (Inr n, s')" "sqView s = Some x"
  shows "\<exists>y. sqView s' = Some y \<and> usSequences y = [] \<and> y = x\<lparr>usSequences := [], usLastError := usLastError y\<rparr>"
proof -
  let ?f = "\<lambda>row. if rwLastError row = UpdateErrorRollback then row\<lparr>rwLastError := []\<rparr> else row"
  have "sqView s' = sqView (onRow ?f (s\<lparr>sqTick := Suc (sqTick s), sqSequences := []\<rparr>))"
    using attempt_ok [OF assms(1) [unfolded sqlResetUpdateSequences_def]] by (auto simp: Let_def)
  moreover obtain row where "sqRow s = Some row" using assms(2) by (auto simp: sqView_row)
  ultimately have "sqView s' = Some (x\<lparr>usSequences := [], usLastError := rwLastError (?f row)\<rparr>)"
    using assms(2) by (auto simp: sqView_def readUpdateSettings_def)
  then show ?thesis by auto
qed

lemma sql_errors:
  "sqlUpdateSettings s = (Inl e, s') \<Longrightarrow> sqView s' = sqView s"
  "sqlConfigureUpdates who change s = (Inl e, s') \<Longrightarrow> sqView s' = sqView s"
  "sqlRecordUpdateFeed f s = (Inl e, s') \<Longrightarrow> sqView s' = sqView s"
  "sqlRecordUpdateFailure code at s = (Inl e, s') \<Longrightarrow> sqView s' = sqView s"
  "sqlResetUpdateSequences who s = (Inl e, s') \<Longrightarrow> sqView s' = sqView s"
  by (auto simp: sqlUpdateSettings_def sqlConfigureUpdates_def sqlResetUpdateSequences_def sqlRecordUpdateFeed_def
      sqlRecordUpdateFailure_def split: if_splits intro: attempt_err)

lemma sql_settings: "sqlUpdateSettings s = (Inr x, s') \<Longrightarrow> sqView s = Some x \<and> sqView s' = sqView s"
  unfolding sqlUpdateSettings_def by (drule attempt_ok) (auto simp: readT_def readUpdateSettings_view)

interpretation sql: update_store sqliteStore sqView
  by (rule update_store.intro; unfold sqliteStore_sel;
      erule sql_settings sql_configure sql_feed sql_conflict sql_failure sql_reset sql_errors)

end
