(* ===== verification/Update_Service.thy ===== *)
theory Update_Service
  imports Update_Store
begin

text \<open>
  internal/selfhost/updates/service.go: the status shown to the operator, the check of the feed with
  its protection against an older feed, and the waiting times of the background loop.  The service
  is a record with the store it calls.  The result of fetching the feed, whether the context was
  cancelled, and the readings of the clock are inputs of each call.  The mutex makes the calls of
  \<open>runCheck\<close> a sequence, as they are here; logging is not modelled.
\<close>

section \<open>Definitions\<close>

record 's UpdateService =
  suStore :: "'s UpdateStore"
  suLib :: feedLib
  suEd :: ed25519
  suVerifier :: Verifier
  suProduct :: string
  suVersion :: string
  suKind :: InstallKind
  suPlatform :: Platform
  suConfigured :: bool
  suInterval :: int
  suRetry :: int

record Latest =
  laVersion :: string
  laPublishedAt :: gotime
  laNotesURL :: string
  laSecurity :: bool
  laMinimumFrom :: string
  laImages :: "Image list"
  laBinaries :: "Binary list"

record Status =
  stConfigured :: bool
  stEnabled :: "bool option"
  stChannel :: string
  stInstallKind :: InstallKind
  stCurrent :: "string \<times> string"
  stLatest :: "Latest option"
  stAvailable :: bool
  stCheckedAt :: "gotime option"
  stError :: string
  stCommands :: "Command list"

datatype update_error = UpdateStoreError store_error | UpdateOff | UpdateCancelled

datatype fetch_error = FetchUnreachable | FetchTooLarge

record checkInput =
  ciNow :: gotime
  ciFetch :: "fetch_error + bytes"
  ciCancelled :: bool

definition fromStore :: "('s, store_error, 'a) txm \<Rightarrow> ('s, update_error, 'a) txm" where
  "fromStore m s = (case m s of (Inl e, s') \<Rightarrow> (Inl (UpdateStoreError e), s') | (Inr x, s') \<Rightarrow> (Inr x, s'))"

definition codeOf :: "feed_error \<Rightarrow> string" where
  "codeOf e = (case e of ErrFeedExpired \<Rightarrow> UpdateErrorExpired | ErrFeedInvalid \<Rightarrow> UpdateErrorInvalid | ErrFeedMarshal \<Rightarrow> UpdateErrorUnreachable)"

definition codeOfFetch :: "fetch_error \<Rightarrow> string" where
  "codeOfFetch e = (case e of FetchUnreachable \<Rightarrow> UpdateErrorUnreachable | FetchTooLarge \<Rightarrow> UpdateErrorInvalid)"

definition serviceHasChannel :: "'s UpdateService \<Rightarrow> string \<Rightarrow> bool" where
  "serviceHasChannel U channel =
     (case map_of (vrRegistry (suVerifier U)) (suProduct U) of None \<Rightarrow> False | Some spec \<Rightarrow> HasChannel spec channel)"

definition latestOf :: "Release \<Rightarrow> Latest" where
  "latestOf r = \<lparr>laVersion = reVersion r, laPublishedAt = rePublishedAt r div second * second, laNotesURL = reNotesURL r,
     laSecurity = reSecurity r, laMinimumFrom = reMinimumFrom r, laImages = reImages r, laBinaries = reBinaries r\<rparr>"

definition statusOf :: "'s UpdateService \<Rightarrow> gotime \<Rightarrow> UpdateSettings \<Rightarrow> Status" where
  "statusOf U now settings =
     (let status = \<lparr>stConfigured = suConfigured U,
            stEnabled = (case usChoice settings of UpdatesOn \<Rightarrow> Some True | UpdatesOff \<Rightarrow> Some False | UpdatesUnset \<Rightarrow> None),
            stChannel = usChannel settings, stInstallKind = suKind U, stCurrent = (suProduct U, suVersion U), stLatest = None,
            stAvailable = False, stCheckedAt = None, stError = [], stCommands = []\<rparr>
      in if \<not> suConfigured U then status\<lparr>stError := ''not_configured''\<rparr>
      else if usChoice settings \<noteq> UpdatesOn then status
      else let status = status\<lparr>stError := usLastError settings, stCheckedAt := usCheckedAt settings\<rparr>
      in if usFeed settings = [] then status
      else case OpenFeed (suLib U) (suEd U) (suVerifier U) (usFeed settings) of
        Inl _ \<Rightarrow> status
      | Inr document \<Rightarrow>
      (case releaseFor (docPayload document) (suProduct U) (usChannel settings) of
        None \<Rightarrow> status
      | Some r \<Rightarrow>
          if \<not> Offered r (usChannel settings) then status
          else let stale = CheckFresh (docPayload document) now;
                   available = stale = None \<and> Newer (reVersion r) (suVersion U)
               in status\<lparr>stError := (case stale of None \<Rightarrow> stError status | Some e \<Rightarrow> codeOf e), stLatest := Some (latestOf r),
                    stAvailable := available, stCommands := (if available then Commands (suKind U) r (suPlatform U) else [])\<rparr>))"

definition updStatus :: "'s UpdateService \<Rightarrow> gotime \<Rightarrow> ('s, update_error, Status) txm" where
  "updStatus U now = bindE (fromStore (stSettings (suStore U))) (\<lambda>settings. ret (statusOf U now settings))"

definition updFail :: "'s UpdateService \<Rightarrow> string \<Rightarrow> checkInput \<Rightarrow> ('s, update_error, string) txm" where
  "updFail U code input =
     (if ciCancelled input then raise UpdateCancelled
      else bindE (fromStore (stRecordFailure (suStore U) code (ciNow input))) (\<lambda>_. ret code))"

definition runCheck :: "'s UpdateService \<Rightarrow> checkInput \<Rightarrow> ('s, update_error, string) txm" where
  "runCheck U input =
     bindE (fromStore (stSettings (suStore U))) (\<lambda>settings.
     bindE (rejectIf (usChoice settings \<noteq> UpdatesOn) UpdateOff) (\<lambda>_.
       case ciFetch input of
         Inl e \<Rightarrow> updFail U (codeOfFetch e) input
       | Inr body \<Rightarrow>
           (case VerifyFeed (suLib U) (suEd U) (suVerifier U) body (ciNow input) of
              Inl e \<Rightarrow> updFail U (codeOf e) input
            | Inr document \<Rightarrow>
                if plSequence (docPayload document) < seqOf settings (envKeyID (docEnvelope document))
                then updFail U UpdateErrorRollback input
                else tryE (fromStore (stRecordFeed (suStore U) \<lparr>ufRaw = docRaw document, ufKeyID = envKeyID (docEnvelope document),
                             ufSequence = plSequence (docPayload document), ufCheckedAt = ciNow input\<rparr>))
                       (\<lambda>r. case r of
                          Inl e \<Rightarrow> if e = UpdateStoreError StoreConflict then updFail U UpdateErrorRollback input else raise e
                        | Inr _ \<Rightarrow> ret []))))"

definition updCheck :: "'s UpdateService \<Rightarrow> checkInput \<Rightarrow> gotime \<Rightarrow> ('s, update_error, Status) txm" where
  "updCheck U input now =
     bindE (if suConfigured U then bindE (runCheck U input) (\<lambda>_. ret ()) else ret ()) (\<lambda>_. updStatus U now)"

definition updConfigure ::
  "'s UpdateService \<Rightarrow> string \<Rightarrow> UpdateChange \<Rightarrow> checkInput \<Rightarrow> gotime \<Rightarrow> ('s, update_error, Status) txm" where
  "updConfigure U who change input now =
     bindE (rejectIf (case ucChannel change of None \<Rightarrow> False | Some c \<Rightarrow> \<not> serviceHasChannel U c) (UpdateStoreError StoreInvalidInput)) (\<lambda>_.
     bindE (fromStore (stSettings (suStore U))) (\<lambda>before.
     bindE (fromStore (stConfigure (suStore U) who change)) (\<lambda>after.
     bindE (if suConfigured U \<and> usChoice after = UpdatesOn \<and> usChoice before \<noteq> UpdatesOn
            then tryE (runCheck U input) (\<lambda>r. case r of Inl e \<Rightarrow> if e \<noteq> UpdateOff then raise e else ret () | Inr _ \<Rightarrow> ret ())
            else ret ()) (\<lambda>_. updStatus U now))))"

text \<open>
  The waiting times of the background loop, in nanoseconds; \<open>jitter\<close> draws a random time below its
  argument.  Division of durations truncates, and both are positive here.
\<close>

definition startupWait :: "'s UpdateService \<Rightarrow> (int \<Rightarrow> int) \<Rightarrow> gotime \<Rightarrow> store_error + UpdateSettings \<Rightarrow> int" where
  "startupWait U jitter now settings =
     (case settings of
        Inl _ \<Rightarrow> jitter (600 * second)
      | Inr settings \<Rightarrow>
          if usChoice settings \<noteq> UpdatesOn then suInterval U + jitter (suInterval U div 24)
          else (case usCheckedAt settings of
              None \<Rightarrow> jitter (600 * second)
            | Some checkedAt \<Rightarrow>
                (let elapsed = now - checkedAt
                 in if 0 \<le> elapsed \<and> elapsed < suInterval U then suInterval U - elapsed + jitter (suInterval U div 24)
                    else jitter (600 * second))))"

definition nextWait :: "'s UpdateService \<Rightarrow> (int \<Rightarrow> int) \<Rightarrow> update_error + string \<Rightarrow> int" where
  "nextWait U jitter result =
     (case result of
        Inl e \<Rightarrow> if e \<noteq> UpdateOff then suRetry U else suInterval U + jitter (suInterval U div 24)
      | Inr code \<Rightarrow> if code = UpdateErrorUnreachable then suRetry U + jitter (suRetry U div 4)
                   else suInterval U + jitter (suInterval U div 24))"

section \<open>Sequences of calls\<close>

datatype update_call =
    CallStatus gotime
  | CallCheck checkInput gotime
  | CallRunCheck checkInput
  | CallConfigure string UpdateChange checkInput gotime
  | CallReset string

fun updPerform :: "'s UpdateService \<Rightarrow> update_call \<Rightarrow> 's \<Rightarrow> 's" where
  "updPerform U (CallStatus now) s = snd (updStatus U now s)"
| "updPerform U (CallCheck input now) s = snd (updCheck U input now s)"
| "updPerform U (CallRunCheck input) s = snd (runCheck U input s)"
| "updPerform U (CallConfigure who change input now) s = snd (updConfigure U who change input now s)"
| "updPerform U (CallReset who) s = snd (stResetSequences (suStore U) who s)"

definition updRun :: "'s UpdateService \<Rightarrow> update_call list \<Rightarrow> 's \<Rightarrow> 's" where
  "updRun U calls s = foldl (\<lambda>s c. updPerform U c s) s calls"

fun isReset :: "update_call \<Rightarrow> bool" where
  "isReset (CallReset who) = True"
| "isReset _ = False"

section \<open>The service over the contract\<close>

text \<open>What a call other than a reset may do to the settings.\<close>

definition advances :: "UpdateSettings option \<Rightarrow> UpdateSettings option \<Rightarrow> bool" where
  "advances v w \<longleftrightarrow> (\<forall>x. v = Some x \<longrightarrow> (\<exists>y. w = Some y \<and> (\<forall>k. seqOf x k \<le> seqOf y k)))"

lemma advances_refl [simp]: "advances v v"
  by (auto simp: advances_def)

lemma advances_trans: "advances u v \<Longrightarrow> advances v w \<Longrightarrow> advances u w"
  unfolding advances_def by (metis order_trans)

lemma fromStore_ok: "fromStore m s = (Inr x, s') \<longleftrightarrow> m s = (Inr x, s')"
  by (auto simp: fromStore_def split: prod.splits sum.splits)

lemma fromStore_err: "fromStore m s = (Inl e, s') \<longleftrightarrow> (\<exists>e'. e = UpdateStoreError e' \<and> m s = (Inl e', s'))"
  by (auto simp: fromStore_def split: prod.splits sum.splits)

lemma recorded_advances: "recorded f x y \<Longrightarrow> ufSequence f \<ge> 0 \<Longrightarrow> seqOf x k \<le> seqOf y k"
  by (auto simp: recorded_def seqOf_def split: option.splits)

definition feedOf :: "Document \<Rightarrow> gotime \<Rightarrow> UpdateFeed" where
  "feedOf document now = \<lparr>ufRaw = docRaw document, ufKeyID = envKeyID (docEnvelope document),
     ufSequence = plSequence (docPayload document), ufCheckedAt = now\<rparr>"

text \<open>The settings after a check: as they were, with an error code, or with a feed that verified.\<close>

definition checked :: "'s UpdateService \<Rightarrow> checkInput \<Rightarrow> UpdateSettings \<Rightarrow> UpdateSettings \<Rightarrow> bool" where
  "checked U input x y \<longleftrightarrow> (\<exists>code. y = x\<lparr>usLastError := code\<rparr>) \<or>
     (\<exists>body document. ciFetch input = Inr body \<and>
        VerifyFeed (suLib U) (suEd U) (suVerifier U) body (ciNow input) = Inr document \<and> recorded (feedOf document (ciNow input)) x y)"

lemma checked_same [simp]: "checked U input x x"
  by (auto simp: checked_def intro!: exI [of _ "usLastError x"])

lemma checked_error [simp]: "checked U input x (x\<lparr>usLastError := code\<rparr>)"
  by (auto simp: checked_def)

lemma OpenFeed_ok:
  assumes "OpenFeed lib ed v body = Inr document"
  shows "ValidatePayload lib (docPayload document) (vrRegistry v)"
    and "\<exists>key payloadBytes signature rest. map_of (vrKeys v) (envKeyID (docEnvelope document)) = Some key \<and>
      DecodeString (envPayload (docEnvelope document)) = Some payloadBytes \<and>
      DecodeString (envSignature (docEnvelope document)) = Some signature \<and>
      edVerify ed key (signedMessage payloadBytes) signature \<and>
      flPayload lib payloadBytes = Some (docPayload document, rest)"
  using assms by (auto simp: OpenFeed_def split: if_splits option.splits)

lemma OpenFeed_sequence: "OpenFeed lib ed v body = Inr document \<Longrightarrow> 1 \<le> plSequence (docPayload document)"
  by (drule OpenFeed_ok(1)) (auto simp: ValidatePayload_def split: if_splits)

lemma VerifyFeed_open:
  "VerifyFeed lib ed v body now = Inr document \<longleftrightarrow> OpenFeed lib ed v body = Inr document \<and> CheckFresh (docPayload document) now = None"
  by (auto simp: VerifyFeed_def split: sum.splits option.splits)

lemma checked_advances:
  assumes "checked U input x y"
  shows "seqOf x k \<le> seqOf y k"
  using assms unfolding checked_def
proof
  assume "\<exists>code. y = x\<lparr>usLastError := code\<rparr>"
  then show ?thesis by (auto simp: seqOf_def)
next
  assume "\<exists>body document. ciFetch input = Inr body \<and>
    VerifyFeed (suLib U) (suEd U) (suVerifier U) body (ciNow input) = Inr document \<and> recorded (feedOf document (ciNow input)) x y"
  then obtain body document where d: "OpenFeed (suLib U) (suEd U) (suVerifier U) body = Inr document" "recorded (feedOf document (ciNow input)) x y"
    by (auto simp: VerifyFeed_open)
  from OpenFeed_sequence [OF d(1)] show ?thesis by (intro recorded_advances [OF d(2)]) (simp add: feedOf_def)
qed

context update_store
begin

lemma updFail_view:
  assumes U: "suStore U = T" and run: "updFail U code input s = (r, s')" and x: "view s = Some x"
  shows "\<exists>y. view s' = Some y \<and> (y = x \<and> isl r \<or> y = x\<lparr>usLastError := code\<rparr> \<and> r = Inr code)"
proof (cases r)
  case (Inl e)
  with run x show ?thesis
    by (auto simp: U updFail_def bindE_err fromStore_err txm_simps split: if_splits dest: RecordFailure_err)
next
  case (Inr c)
  with run x show ?thesis
    by (auto simp: U updFail_def fromStore_ok txm_simps split: if_splits dest: RecordFailure_ok)
qed

lemma updFail_checked:
  assumes "suStore U = T" "updFail U code input s = (r, s')" "view s = Some x"
  shows "\<exists>y. view s' = Some y \<and> checked U input x y"
  using updFail_view [OF assms] by auto

lemma record_checked:
  assumes U: "suStore U = T" and x: "view s = Some x"
    and d: "ciFetch input = Inr body" "VerifyFeed (suLib U) (suEd U) (suVerifier U) body (ciNow input) = Inr document"
    and run: "tryE (fromStore (stRecordFeed T (feedOf document (ciNow input))))
      (\<lambda>r. case r of Inl e \<Rightarrow> if e = UpdateStoreError StoreConflict then updFail U UpdateErrorRollback input else raise e
           | Inr _ \<Rightarrow> ret []) s = (r, s')"
  shows "\<exists>y. view s' = Some y \<and> checked U input x y"
proof -
  obtain r1 s1 where s1: "stRecordFeed T (feedOf document (ciNow input)) s = (r1, s1)"
    by (cases "stRecordFeed T (feedOf document (ciNow input)) s")
  show ?thesis
  proof (cases r1)
    case (Inl e)
    with RecordFeed_err s1 x have v: "view s1 = Some x" by simp
    show ?thesis
    proof (cases "e = StoreConflict")
      case True
      with run s1 Inl have "updFail U UpdateErrorRollback input s1 = (r, s')" by (simp add: tryE_def fromStore_def)
      with updFail_checked [OF U _ v] show ?thesis by blast
    next
      case False
      with run s1 Inl v show ?thesis by (auto simp: tryE_def fromStore_def txm_simps)
    qed
  next
    case (Inr u)
    with run s1 have "s' = s1" by (auto simp: tryE_def fromStore_def txm_simps)
    with RecordFeed_ok [of _ s u s1 x] s1 Inr x d show ?thesis by (auto simp: checked_def)
  qed
qed

lemma runCheck_decides:
  assumes U: "suStore U = T" and s1: "stSettings T s = (Inr x, s1)" "usChoice x = UpdatesOn"
  shows "ciFetch input = Inl e \<Longrightarrow> runCheck U input s = updFail U (codeOfFetch e) input s1"
    and "ciFetch input = Inr body \<Longrightarrow> VerifyFeed (suLib U) (suEd U) (suVerifier U) body (ciNow input) = Inl e' \<Longrightarrow>
      runCheck U input s = updFail U (codeOf e') input s1"
    and "ciFetch input = Inr body \<Longrightarrow> VerifyFeed (suLib U) (suEd U) (suVerifier U) body (ciNow input) = Inr document \<Longrightarrow>
      plSequence (docPayload document) < seqOf x (envKeyID (docEnvelope document)) \<Longrightarrow>
      runCheck U input s = updFail U UpdateErrorRollback input s1"
    and "ciFetch input = Inr body \<Longrightarrow> VerifyFeed (suLib U) (suEd U) (suVerifier U) body (ciNow input) = Inr document \<Longrightarrow>
      \<not> plSequence (docPayload document) < seqOf x (envKeyID (docEnvelope document)) \<Longrightarrow>
      runCheck U input s = tryE (fromStore (stRecordFeed T (feedOf document (ciNow input))))
      (\<lambda>r. case r of Inl e \<Rightarrow> if e = UpdateStoreError StoreConflict then updFail U UpdateErrorRollback input else raise e
           | Inr _ \<Rightarrow> ret []) s1"
  using s1 unfolding runCheck_def U by (simp_all add: bindE_def rejectIf_def fromStore_def [of "stSettings T"] ret_def [of "()"] feedOf_def)

lemma runCheck_view:
  assumes U: "suStore U = T" and run: "runCheck U input s = (r, s')" and x: "view s = Some x"
  shows "\<exists>y. view s' = Some y \<and> checked U input x y"
proof -
  obtain r1 s1 where s1: "stSettings T s = (r1, s1)" by (cases "stSettings T s")
  show ?thesis
  proof (cases r1)
    case (Inl e)
    with s1 run x Settings_err show ?thesis by (auto simp: U runCheck_def bindE_def fromStore_def)
  next
    case (Inr y)
    with s1 x have y: "stSettings T s = (Inr x, s1)" "view s1 = Some x" using Settings_ok by force+
    note fail = updFail_checked [OF U _ y(2)]
    show ?thesis
    proof (cases "usChoice x = UpdatesOn")
      case False
      with run y show ?thesis by (auto simp: U runCheck_def bindE_def fromStore_def rejectIf_def raise_def)
    next
      case True
      note on = runCheck_decides [where input = input, OF U y(1) True, unfolded run]
      show ?thesis
      proof (cases "ciFetch input")
        case (Inr body)
        show ?thesis
        proof (cases "VerifyFeed (suLib U) (suEd U) (suVerifier U) body (ciNow input)")
          case (Inr document)
          note d = \<open>ciFetch input = Inr body\<close> Inr
          show ?thesis
          proof (cases "plSequence (docPayload document) < seqOf x (envKeyID (docEnvelope document))")
            case True
            from fail [OF on(3) [OF d True, symmetric]] show ?thesis .
          next
            case False
            from record_checked [OF U y(2) d on(4) [OF d False, symmetric]] show ?thesis .
          qed
        qed (use on(2) Inr fail in metis)
      qed (use on(1) fail in metis)
    qed
  qed
qed

lemma runCheck_accepts:
  assumes U: "suStore U = T" and run: "runCheck U input s = (Inr [], s')"
    and d: "ciFetch input = Inr body" "VerifyFeed (suLib U) (suEd U) (suVerifier U) body (ciNow input) = Inr document"
  shows "\<exists>x y. view s = Some x \<and> view s' = Some y \<and> recorded (feedOf document (ciNow input)) x y"
proof -
  obtain x s1 where x: "stSettings T s = (Inr x, s1)" "usChoice x = UpdatesOn"
    using run by (auto simp: U runCheck_def fromStore_ok txm_simps)
  then have v: "view s = Some x" "view s1 = Some x" using Settings_ok by force+
  note on = runCheck_decides [where input = input, OF U x, unfolded run]
  show ?thesis
  proof (cases "plSequence (docPayload document) < seqOf x (envKeyID (docEnvelope document))")
    case True
    from updFail_view [OF U on(3) [OF d True, symmetric] v(2)] show ?thesis by (auto simp: update_code_defs)
  next
    case False
    obtain r1 s2 where s2: "stRecordFeed T (feedOf document (ciNow input)) s1 = (r1, s2)"
      by (cases "stRecordFeed T (feedOf document (ciNow input)) s1")
    show ?thesis
    proof (cases r1)
      case (Inl e)
      with s2 on(4) [OF d False] have e: "e = StoreConflict" "updFail U UpdateErrorRollback input s2 = (Inr [], s')"
        by (auto simp: tryE_def fromStore_def raise_def split: if_splits)
      from s2 Inl RecordFeed_err v(2) have "view s2 = Some x" by simp
      from updFail_view [OF U e(2) this] show ?thesis by (auto simp: update_code_defs)
    next
      case (Inr u)
      with s2 on(4) [OF d False] have "s' = s2" by (auto simp: tryE_def fromStore_def ret_def)
      with RecordFeed_ok [of _ s1 u s2 x] s2 Inr v show ?thesis by auto
    qed
  qed
qed

lemma runCheck_refuses:
  assumes U: "suStore U = T" and run: "runCheck U input s = (r, s')" and x: "view s = Some x"
    and d: "ciFetch input = Inr body" "VerifyFeed (suLib U) (suEd U) (suVerifier U) body (ciNow input) = Inr document"
    and older: "plSequence (docPayload document) < seqOf x (envKeyID (docEnvelope document))"
  shows "\<exists>code. view s' = Some (x\<lparr>usLastError := code\<rparr>)" "r \<noteq> Inr []"
proof -
  obtain r1 s1 where s1: "stSettings T s = (r1, s1)" by (cases "stSettings T s")
  have "(\<exists>code. view s' = Some (x\<lparr>usLastError := code\<rparr>)) \<and> r \<noteq> Inr []"
  proof (cases r1)
    case (Inl e)
    with s1 run x Settings_err show ?thesis by (auto simp: U runCheck_def bindE_def fromStore_def intro!: exI [of _ "usLastError x"])
  next
    case (Inr y)
    with s1 x have y: "stSettings T s = (Inr x, s1)" "view s1 = Some x" using Settings_ok by force+
    show ?thesis
    proof (cases "usChoice x = UpdatesOn")
      case False
      with run y show ?thesis
        by (auto simp: U runCheck_def bindE_def fromStore_def rejectIf_def raise_def intro!: exI [of _ "usLastError x"])
    next
      case True
      note on = runCheck_decides(3) [OF U y(1) True d older, unfolded run]
      have "\<exists>code. x = x\<lparr>usLastError := code\<rparr>" by (intro exI [of _ "usLastError x"]) simp
      with updFail_view [OF U on [symmetric] y(2)] show ?thesis by (auto simp: update_code_defs)
    qed
  qed
  then show "\<exists>code. view s' = Some (x\<lparr>usLastError := code\<rparr>)" "r \<noteq> Inr []" by simp_all
qed

lemma updStatus_view:
  assumes U: "suStore U = T" and run: "updStatus U now s = (r, s')"
  shows "view s' = view s" and "r = Inr status \<Longrightarrow> \<exists>x. view s = Some x \<and> status = statusOf U now x"
proof -
  show "view s' = view s"
    using run Settings_ok Settings_err
    by (auto simp: U updStatus_def bindE_def fromStore_def ret_def split: prod.splits sum.splits)
  show "\<exists>x. view s = Some x \<and> status = statusOf U now x" if "r = Inr status"
    using run that by (auto simp: U updStatus_def fromStore_ok txm_simps dest: Settings_ok)
qed

lemma runCheck_advances: "suStore U = T \<Longrightarrow> advances (view s) (view (snd (runCheck U input s)))"
  unfolding advances_def
proof (intro allI impI)
  fix x
  assume U: "suStore U = T" and x: "view s = Some x"
  obtain r s' where run: "runCheck U input s = (r, s')" by (cases "runCheck U input s")
  with runCheck_view [OF U run x] checked_advances
  show "\<exists>y. view (snd (runCheck U input s)) = Some y \<and> (\<forall>k. seqOf x k \<le> seqOf y k)" by fastforce
qed

lemma bindE_advances:
  assumes "advances (view s) (view (snd (m s)))"
    and "\<And>x s1. m s = (Inr x, s1) \<Longrightarrow> advances (view s1) (view (snd (f x s1)))"
  shows "advances (view s) (view (snd (bindE m f s)))"
proof (cases "m s")
  case (Pair r s1)
  with assms show ?thesis by (cases r) (auto simp: bindE_def intro: advances_trans)
qed

lemma tryE_advances:
  assumes "advances (view s) (view (snd (m s)))"
    and "\<And>r s1. advances (view s1) (view (snd (f r s1)))"
  shows "advances (view s) (view (snd (tryE m f s)))"
  using assms by (cases "m s") (auto simp: tryE_def intro: advances_trans)

lemma settings_advances: "advances (view s) (view (snd (fromStore (stSettings T) s)))"
  using Settings_ok Settings_err
  by (cases "stSettings T s"; cases "fst (stSettings T s)") (auto simp: fromStore_def dest: Settings_ok Settings_err)

lemma configure_advances: "advances (view s) (view (snd (fromStore (stConfigure T who change) s)))"
proof (cases "stConfigure T who change s")
  case (Pair r s')
  show ?thesis
  proof (cases r)
    case (Inl e)
    with Pair Configure_err show ?thesis by (simp add: fromStore_def)
  next
    case (Inr y)
    with Pair Configure_ok [of who change s y s'] obtain x where "view s = Some x" "view s' = Some y" "usSequences y = usSequences x"
      by (metis UpdateSettings.select_convs(3) UpdateSettings.surjective UpdateSettings.update_convs(1,2))
    with Pair Inr show ?thesis by (simp add: fromStore_def advances_def seqOf_def)
  qed
qed

lemma simple_advances [simp]:
  "advances (view s) (view (snd (ret x s)))" "advances (view s) (view (snd (raise e s)))"
  "advances (view s) (view (snd (rejectIf c e s)))"
  by (simp_all add: ret_def raise_def rejectIf_def)

lemma updPerform_advances:
  assumes U: "suStore U = T" and c: "\<not> isReset c"
  shows "advances (view s) (view (updPerform U c s))"
proof -
  have status: "advances (view s) (view (snd (updStatus U now s)))" for now s
    by (cases "updStatus U now s") (simp add: updStatus_view(1) [OF U])
  note parts = runCheck_advances [OF U] settings_advances configure_advances status
  show ?thesis
  proof (cases c)
    case (CallCheck input now)
    then show ?thesis by (auto simp: updCheck_def intro!: bindE_advances parts)
  next
    case (CallConfigure who change input now)
    then show ?thesis
      by (auto simp: updConfigure_def U intro!: bindE_advances tryE_advances parts split: sum.split)
  qed (use c parts in auto)
qed

lemma updRun_advances:
  assumes U: "suStore U = T" and "\<forall>c \<in> set calls. \<not> isReset c"
  shows "advances (view s) (view (updRun U calls s))"
  using assms(2)
proof (induction calls arbitrary: s)
  case (Cons c calls)
  then have "advances (view s) (view (updPerform U c s))" using updPerform_advances [OF U] by simp
  with Cons show ?case by (auto simp: updRun_def intro: advances_trans)
qed (simp add: updRun_def)

lemma no_rollback:
  assumes U: "suStore U = T"
    and accepted: "runCheck U input s = (Inr [], s1)" "ciFetch input = Inr body"
      "VerifyFeed (suLib U) (suEd U) (suVerifier U) body (ciNow input) = Inr document"
    and later: "\<forall>c \<in> set calls. \<not> isReset c" "runCheck U input' (updRun U calls s1) = (r, s2)"
    and older: "ciFetch input' = Inr body'" "VerifyFeed (suLib U) (suEd U) (suVerifier U) body' (ciNow input') = Inr document'"
      "envKeyID (docEnvelope document') = envKeyID (docEnvelope document)"
      "plSequence (docPayload document') < plSequence (docPayload document)"
  shows "r \<noteq> Inr [] \<and> (\<exists>x code. view (updRun U calls s1) = Some x \<and> view s2 = Some (x\<lparr>usLastError := code\<rparr>))"
proof -
  let ?k = "envKeyID (docEnvelope document)"
  obtain y where y: "view s1 = Some y" "seqOf y ?k = plSequence (docPayload document)"
    using runCheck_accepts [OF U accepted] by (auto simp: recorded_def seqOf_def feedOf_def)
  obtain x where x: "view (updRun U calls s1) = Some x" "seqOf y ?k \<le> seqOf x ?k"
    using updRun_advances [OF U later(1), of s1] y(1) by (auto simp: advances_def)
  then have "plSequence (docPayload document') < seqOf x (envKeyID (docEnvelope document'))" using y(2) older(3,4) by simp
  from runCheck_refuses [OF U later(2) x(1) older(1,2) this] x(1) show ?thesis by blast
qed

end

section \<open>What the operator is offered\<close>

lemma statusOf_available:
  assumes "stAvailable (statusOf U now x)"
  shows "suConfigured U \<and> usChoice x = UpdatesOn \<and>
    (\<exists>document r. OpenFeed (suLib U) (suEd U) (suVerifier U) (usFeed x) = Inr document \<and>
      CheckFresh (docPayload document) now = None \<and>
      releaseFor (docPayload document) (suProduct U) (usChannel x) = Some r \<and>
      Offered r (usChannel x) \<and> Newer (reVersion r) (suVersion U) \<and>
      stLatest (statusOf U now x) = Some (latestOf r) \<and> stCommands (statusOf U now x) = Commands (suKind U) r (suPlatform U))"
  using assms
  by (auto simp: statusOf_def Let_def split: if_splits sum.splits option.splits)

lemma waits_bounded:
  assumes "\<And>m. 0 < m \<Longrightarrow> 0 \<le> jitter m \<and> jitter m < m" "24 \<le> suInterval U" "4 \<le> suRetry U" "suRetry U \<le> suInterval U"
  shows "suRetry U \<le> nextWait U jitter result \<and> nextWait U jitter result < suInterval U + suInterval U div 4"
proof -
  have "0 < suInterval U div 24" "0 < suRetry U div 4" using assms(2,3) by auto
  then have j: "0 \<le> jitter (suInterval U div 24)" "jitter (suInterval U div 24) < suInterval U div 24"
    "0 \<le> jitter (suRetry U div 4)" "jitter (suRetry U div 4) < suRetry U div 4"
    using assms(1) by auto
  have "suInterval U div 24 \<le> suInterval U div 4" "suRetry U div 4 \<le> suInterval U div 4" "0 < suInterval U div 4"
    using assms(2-4) by auto
  with j assms(4) show ?thesis by (auto simp: nextWait_def split: sum.splits)
qed

end
