(* ===== verification/Properties_Platform.thy ===== *)
theory Properties_Platform
  imports Audit_Chain Origin_Policy Update_Service
begin

text \<open>
  The properties of the components around the sync service: release versions, the audit chain, the
  origin policy of the hosted API, and the update checks of the self-hosted server.  Each property
  with hypotheses is followed by its use on a concrete input.
\<close>

section \<open>Release versions\<close>

text \<open>
  C36.  Comparing versions is a total order: it is the lexicographic order on the numbers of the core,
  then releases after prereleases, then the identifiers, numeric ones by value and before the others.
  Swapping the arguments negates the result, and two accepted texts compare equal only if they are
  the same text, provided that every numeric identifier fits in 64 bits.
\<close>

theorem compare_is_version_order:
  assumes "ParseVersion r = Some v" "ParseVersion r' = Some w"
    and "list_all fitsIdentifier (verPrerelease v)" "list_all fitsIdentifier (verPrerelease w)"
  shows "CompareVersions v w = sign3 (versionKey v) (versionKey w) \<and> CompareVersions w v = - CompareVersions v w \<and>
    (CompareVersions v w = 0 \<longleftrightarrow> r = r')"
proof -
  have "wellFormedVersion v" "wellFormedVersion w" "r = printVersion v" "r' = printVersion w"
    using assms(1,2) by (simp_all add: ParseVersion_iff)
  with compare_zero assms(3,4) show ?thesis by (simp add: CompareVersions_sign sign3_swap [of "versionKey w"])
qed

definition demoBeta :: Version where
  "demoBeta = \<lparr>verMajor = 1, verMinor = 2, verPatch = 0, verPrerelease =
     [\<lparr>idRaw = ''beta'', idNumeric = False, idNumber = 0\<rparr>, \<lparr>idRaw = ''9'', idNumeric = True, idNumber = 9\<rparr>]\<rparr>"

definition demoRelease :: Version where
  "demoRelease = \<lparr>verMajor = 1, verMinor = 2, verPatch = 0, verPrerelease = []\<rparr>"

lemma demo_identifiers:
  "parseIdentifier ''beta'' = Some \<lparr>idRaw = ''beta'', idNumeric = False, idNumber = 0\<rparr>"
  "parseIdentifier ''9'' = Some \<lparr>idRaw = ''9'', idNumeric = True, idNumber = 9\<rparr>"
  by (simp_all add: parseIdentifier_def validIdentifier_def identifierChar_def allDigits_def char_classes leadingZero_def
      ParseUint_def isDigit_def readNat_def digitValue_def)

lemma demo_numbers: "FormatUint 1 = ''1''" "FormatUint 2 = ''2''" "FormatUint 0 = ''0''"
  by (simp_all add: FormatUint_def show_nat.simps digit_char_def)

lemma demo_versions:
  "ParseVersion ''1.2.0-beta.9'' = Some demoBeta" "ParseVersion ''1.2.0'' = Some demoRelease"
  unfolding ParseVersion_iff
  by (simp_all add: printVersion_def demoBeta_def demoRelease_def wellFormedVersion_def demo_identifiers demo_numbers)

theorem compare_is_version_order_witness: "CompareVersions demoBeta demoRelease \<noteq> 0"
proof -
  have "list_all fitsIdentifier (verPrerelease demoBeta)" "list_all fitsIdentifier (verPrerelease demoRelease)"
    by (simp_all add: demoBeta_def demoRelease_def fitsIdentifier_def readNat_def digitValue_def)
  from compare_is_version_order [OF demo_versions this] have "CompareVersions demoBeta demoRelease = 0 \<longleftrightarrow> ''1.2.0-beta.9'' = ''1.2.0''" by blast
  then show ?thesis by simp
qed

text \<open>
  C37.  A version has exactly one accepted text: parsing succeeds exactly on the printed form of a
  version whose identifiers are valid, and returns that version.
\<close>

theorem parse_version_exact:
  "ParseVersion raw = Some v \<longleftrightarrow> raw = printVersion v \<and> list_all (\<lambda>i. parseIdentifier (idRaw i) = Some i) (verPrerelease v)"
  using ParseVersion_iff [of raw v] by (simp add: wellFormedVersion_def)

text \<open>
  Without the bound on the identifiers the order is not strict: the parser ignores the overflow of a
  numeric identifier, and two different versions compare equal.
\<close>

definition hugeIdentifier :: "string \<Rightarrow> Version" where
  "hugeIdentifier raw = \<lparr>verMajor = 1, verMinor = 0, verPatch = 0, verPrerelease = [\<lparr>idRaw = raw, idNumeric = True, idNumber = -1\<rparr>]\<rparr>"

lemma huge_versions:
  "ParseVersion ''1.0.0-18446744073709551616'' = Some (hugeIdentifier ''18446744073709551616'')"
  "ParseVersion ''1.0.0-18446744073709551617'' = Some (hugeIdentifier ''18446744073709551617'')"
  unfolding ParseVersion_iff
  by (simp_all add: hugeIdentifier_def printVersion_def wellFormedVersion_def demo_numbers parseIdentifier_def validIdentifier_def
      identifierChar_def allDigits_def char_classes leadingZero_def ParseUint_def isDigit_def readNat_def digitValue_def)

lemma overflow_compares_equal:
  "\<exists>v w. ParseVersion ''1.0.0-18446744073709551616'' = Some v \<and> ParseVersion ''1.0.0-18446744073709551617'' = Some w \<and>
     CompareVersions v w = 0"
  unfolding huge_versions by (simp add: CompareVersions_def hugeIdentifier_def)

section \<open>The audit chain\<close>

text \<open>
  C38.  A signed checkpoint pins the history of the audit log: when a checkpoint was taken of a log that
  verifies, every later log that verifies and still matches that checkpoint starts with exactly the
  rows the log had then, or the two logs exhibit a collision of SHA-256 or a preimage of the genesis
  hash.  The sequence numbers of the rows are unique, as the schema of the table requires.
\<close>

theorem checkpoint_pins_audit_history:
  assumes "CheckpointAuditChain fails ed marshal now signingKey keyID db = (Inr (Some c), db1)"
    and "VerifyAuditChain fails1 db = Inr report1" "crVerified report1"
    and "VerifyAuditChain fails2 db' = Inr report2" "crVerified report2"
    and "VerifyAuditCheckpoints fails3 ed marshal publicKey keyID db' = Inr report3" "aprVerified report3"
    and "distinct (map arSeq (adLog db'))" "c \<in> set (adCheckpoints db')"
  shows "map arCanonical (covered db' (acpCoverSeq c)) = map arCanonical (auditLog db) \<or>
    hashBroken (covered db' (acpCoverSeq c)) (auditLog db)"
proof -
  have "chain_ok db" "chain_ok db'" "checkpoints_ok ed marshal publicKey keyID db'"
    using assms(2-7) by (auto simp: chain_ok_def checkpoints_ok_def)
  then show ?thesis using checkpoint_pins assms(1,8,9) by blast
qed

definition plainEd :: ed25519 where
  "plainEd = \<lparr>edVerify = (\<lambda>key message signature. signature = message), edSign = (\<lambda>key message. message)\<rparr>"

definition plainMarshal :: marshaller where
  "plainMarshal p = Some (bytes_of (pyVersion p @ pyChainHash p @ pyKeyID p))"

definition demoRow1 :: auditRow where
  "demoRow1 = \<lparr>arSeq = 1, arID = 10, arPrevHash = auditChainGenesisHash,
     arHash = Sum256 (auditChainGenesisHash @ bytes_of ''first''), arCanonical = ''first''\<rparr>"

definition demoRow2 :: auditRow where
  "demoRow2 = \<lparr>arSeq = 2, arID = 11, arPrevHash = arHash demoRow1,
     arHash = Sum256 (arHash demoRow1 @ bytes_of ''second''), arCanonical = ''second''\<rparr>"

definition demoPin :: AuditCheckpoint where
  "demoPin = \<lparr>acpID = 1, acpCoverSeq = 1, acpChainHash = arHash demoRow1, acpKeyID = ''key'', acpSignedAt = 0,
     acpSignature = bytes_of (auditCheckpointVersion @ hexEncode (arHash demoRow1) @ ''key'')\<rparr>"

definition demoAudit :: auditDB where
  "demoAudit = \<lparr>adLog = [demoRow1], adCheckpoints = [], adNextID = 1\<rparr>"

definition demoAuditLater :: auditDB where
  "demoAuditLater = \<lparr>adLog = [demoRow1, demoRow2], adCheckpoints = [demoPin], adNextID = 2\<rparr>"

lemma demo_key: "TrimSpace ''key'' = ''key''"
  by (rule TrimSpace_clean) simp

lemma demo_rows [simp]:
  "arSeq demoRow1 = 1" "arSeq demoRow2 = 2" "length (arHash demoRow1) = 32" "length (arHash demoRow2) = 32"
  "arPrevHash demoRow1 = auditChainGenesisHash" "arPrevHash demoRow2 = arHash demoRow1" "length auditChainGenesisHash = 32"
  "arCanonical demoRow1 = ''first''" "arCanonical demoRow2 = ''second''"
  by (simp_all add: demoRow1_def demoRow2_def length_Sum256 auditChainGenesisHash_def)

lemma demo_hashes:
  "Sum256 (auditChainGenesisHash @ bytes_of ''first'') = arHash demoRow1"
  "Sum256 (arHash demoRow1 @ bytes_of ''second'') = arHash demoRow2"
  by (simp_all add: demoRow1_def demoRow2_def)

lemma demo_checkpoint:
  "CheckpointAuditChain (\<lambda>_. False) plainEd plainMarshal 0 (replicate 64 0) ''key'' demoAudit =
     (Inr (Some demoPin), demoAudit\<lparr>adCheckpoints := [demoPin], adNextID := 2\<rparr>)"
  by (simp add: CheckpointAuditChain_def demo_key demoAudit_def chainHead_def lastCoverSeq_def auditCheckpointMessage_def plainMarshal_def
      plainEd_def insertCheckpoint_def demoPin_def Let_def)

lemma demo_chains:
  "\<exists>report. VerifyAuditChain (\<lambda>_. False) demoAudit = Inr report \<and> crVerified report"
  "\<exists>report. VerifyAuditChain (\<lambda>_. False) demoAuditLater = Inr report \<and> crVerified report"
  "\<exists>report. VerifyAuditCheckpoints (\<lambda>_. False) plainEd plainMarshal (replicate 32 0) ''key'' demoAuditLater = Inr report \<and> aprVerified report"
  by (simp_all add: VerifyAuditChain_def demoAudit_def demoAuditLater_def demo_hashes Let_def VerifyAuditCheckpoints_def demo_key
      demoPin_def auditCheckpointMessage_def plainMarshal_def plainEd_def hashAt_def list_ex_iff)

theorem checkpoint_pins_audit_history_witness:
  "map arCanonical (covered demoAuditLater 1) = map arCanonical (auditLog demoAudit) \<or>
     hashBroken (covered demoAuditLater 1) (auditLog demoAudit)"
proof -
  obtain r1 r2 r3 where r: "VerifyAuditChain (\<lambda>_. False) demoAudit = Inr r1" "crVerified r1"
    "VerifyAuditChain (\<lambda>_. False) demoAuditLater = Inr r2" "crVerified r2"
    "VerifyAuditCheckpoints (\<lambda>_. False) plainEd plainMarshal (replicate 32 0) ''key'' demoAuditLater = Inr r3" "aprVerified r3"
    using demo_chains by blast
  have "distinct (map arSeq (adLog demoAuditLater))" "demoPin \<in> set (adCheckpoints demoAuditLater)" by (simp_all add: demoAuditLater_def)
  from checkpoint_pins_audit_history [OF demo_checkpoint r this] show ?thesis by (simp add: demoPin_def)
qed

section \<open>The origin policy\<close>








section \<open>Update checks of the self-hosted server\<close>

text \<open>
  C29.  An update is offered only when it is authentic: when the status says that an update is available,
  checks are turned on, the stored feed was signed with a pinned key over exactly the payload that is
  used, the feed is neither from the future nor expired, the release is the one of the product and the
  chosen channel, no prerelease is offered on the stable channel, and the release is newer than
  the running version; what is shown is that release and its commands.
\<close>

theorem offered_update_authentic:
  assumes "suStore U = sqliteStore" "updStatus U now s = (Inr status, s')" "stAvailable status"
  shows "\<exists>x document r v w key payloadBytes signature rest.
    sqView s = Some x \<and> usChoice x = UpdatesOn \<and>
    OpenFeed (suLib U) (suEd U) (suVerifier U) (usFeed x) = Inr document \<and>
    map_of (vrKeys (suVerifier U)) (envKeyID (docEnvelope document)) = Some key \<and>
    DecodeString (envPayload (docEnvelope document)) = Some payloadBytes \<and>
    DecodeString (envSignature (docEnvelope document)) = Some signature \<and>
    edVerify (suEd U) key (signedMessage payloadBytes) signature \<and>
    flPayload (suLib U) payloadBytes = Some (docPayload document, rest) \<and>
    plIssuedAt (docPayload document) \<le> now + MaxIssuedSkew \<and> now \<le> plExpiresAt (docPayload document) \<and>
    releaseFor (docPayload document) (suProduct U) (usChannel x) = Some r \<and>
    ParseVersion (reVersion r) = Some v \<and> ParseVersion (suVersion U) = Some w \<and> 0 < CompareVersions v w \<and>
    (usChannel x = ChannelStable \<longrightarrow> verPrerelease v = []) \<and>
    stLatest status = Some (latestOf r) \<and> stCommands status = Commands (suKind U) r (suPlatform U)"
proof -
  obtain x where x: "sqView s = Some x" "status = statusOf U now x"
    using sql.updStatus_view(2) [OF assms(1,2) refl] by blast
  then obtain document r where d: "usChoice x = UpdatesOn" "OpenFeed (suLib U) (suEd U) (suVerifier U) (usFeed x) = Inr document"
      "CheckFresh (docPayload document) now = None" "releaseFor (docPayload document) (suProduct U) (usChannel x) = Some r"
      "Offered r (usChannel x)" "Newer (reVersion r) (suVersion U)"
      "stLatest status = Some (latestOf r)" "stCommands status = Commands (suKind U) r (suPlatform U)"
    using statusOf_available [of U now x] assms(3) by auto
  have fresh: "plIssuedAt (docPayload document) \<le> now + MaxIssuedSkew" "now \<le> plExpiresAt (docPayload document)"
    using d(3) by (auto simp: CheckFresh_def split: if_splits)
  obtain v w where v: "ParseVersion (reVersion r) = Some v" "ParseVersion (suVersion U) = Some w" "0 < CompareVersions v w"
      "usChannel x = ChannelStable \<longrightarrow> verPrerelease v = []"
    using d(5,6) by (auto simp: Newer_def Offered_def split: option.splits)
  show ?thesis using OpenFeed_ok(2) [OF d(2)] x(1) d fresh v by blast
qed

definition demoFeedRelease :: Release where
  "demoFeedRelease = \<lparr>reVersion = ''1.2.0'', rePublishedAt = 0, reNotesURL = ''https://n'', reSecurity = False, reMinimumFrom = [],
     reImages = [], reBinaries = []\<rparr>"

definition demoPayload :: "int \<Rightarrow> Payload" where
  "demoPayload n = \<lparr>plSchemaVersion = 1, plSequence = n, plIssuedAt = 0, plExpiresAt = 10 * second,
     plProducts = [\<lparr>prodID = ServerProductID, prodChannels = [(ChannelStable, demoFeedRelease)]\<rparr>]\<rparr>"

text \<open>A stand-in for the JSON encoding: the bytes are the payload, and their number is the sequence.\<close>

definition demoEnvelope :: "bytes \<Rightarrow> Envelope" where
  "demoEnvelope body = \<lparr>envPayload = EncodeToString body, envSignature = EncodeToString (replicate 64 0), envKeyID = ''k''\<rparr>"

definition demoLib :: feedLib where
  "demoLib = \<lparr>flEnvelope = (\<lambda>body. Some (demoEnvelope body, [])), flPayload = (\<lambda>bs. Some (demoPayload (int (length bs)), [])),
     flMarshalEnvelope = (\<lambda>e. DecodeString (envPayload e)), flMarshalPayload = (\<lambda>p. Some (replicate (nat (plSequence p)) 0)),
     flURL = (\<lambda>url. Some \<lparr>upScheme = ''https'', upHost = ''n'', upHostname = ''n'', upUser = False, upOpaque = [], upFragment = []\<rparr>)\<rparr>"

definition lengthEd :: ed25519 where
  "lengthEd = \<lparr>edVerify = (\<lambda>key message signature. length signature = 64), edSign = (\<lambda>key message. replicate 64 0)\<rparr>"

definition demoVerifier :: Verifier where
  "demoVerifier = \<lparr>vrKeys = [(''k'', replicate 32 0)],
     vrRegistry = [(ServerProductID, \<lparr>psID = ServerProductID, psChannels = [ChannelStable, ChannelBeta]\<rparr>)]\<rparr>"

definition demoUpdates :: "sqliteDB UpdateService" where
  "demoUpdates = \<lparr>suStore = sqliteStore, suLib = demoLib, suEd = lengthEd, suVerifier = demoVerifier, suProduct = ServerProductID,
     suVersion = ''1.2.0-beta.9'', suKind = InstallContainer, suPlatform = \<lparr>pfOS = ''linux'', pfArch = ''amd64'', pfExecutable = []\<rparr>,
     suConfigured = True, suInterval = 24, suRetry = 4\<rparr>"

lemma demoUpdates_sel [simp]:
  "suStore demoUpdates = sqliteStore" "suLib demoUpdates = demoLib" "suEd demoUpdates = lengthEd" "suVerifier demoUpdates = demoVerifier"
  "suProduct demoUpdates = ServerProductID" "suVersion demoUpdates = ''1.2.0-beta.9''" "suConfigured demoUpdates"
  by (simp_all add: demoUpdates_def)

lemma demo_release_valid: "validateRelease demoLib demoFeedRelease"
  by (simp add: validateRelease_def demoFeedRelease_def demo_versions zeroTime_def second_def validateURL_def urlChar_def less_char_def demoLib_def)

lemma demo_payload_valid:
  "1 \<le> n \<Longrightarrow> n \<le> 9 \<Longrightarrow> ValidatePayload demoLib (demoPayload n) (vrRegistry demoVerifier)"
  by (simp add: ValidatePayload_def demoPayload_def FeedSchemaVersion_def MaxSequence_def zeroTime_def second_def MaxFeedLifetime_def
      demoVerifier_def validProductID_def ServerProductID_def slugChar_def char_classes demo_release_valid IDs_def)

lemma demo_open:
  assumes "1 \<le> length body" "length body \<le> 9"
  shows "OpenFeed demoLib lengthEd demoVerifier body =
    Inr \<lparr>docPayload = demoPayload (int (length body)), docEnvelope = demoEnvelope body, docRaw = body\<rparr>"
proof -
  have "\<not> list_ex is_newline (EncodeToString b)" for b using EncodeToString_no_newline by (auto simp: list_ex_iff)
  moreover have "ValidatePayload demoLib (demoPayload (int (length body))) (vrRegistry demoVerifier)"
    using assms by (intro demo_payload_valid) simp_all
  moreover have "body \<noteq> []" using assms by auto
  ultimately show ?thesis
    using assms by (simp add: OpenFeed_def MaxFeedBytes_def demoEnvelope_def demoVerifier_def lengthEd_def demoLib_def)
qed

definition demoSqlite :: "bytes \<Rightarrow> sqliteDB" where
  "demoSqlite feed = \<lparr>sqRow = Some \<lparr>rwEnabled = UpdatesOn, rwChannel = ChannelStable, rwLastFeed = feed, rwCheckedAt = None, rwLastError = []\<rparr>,
     sqSequences = [], sqAudit = [], sqFaults = (\<lambda>_. False), sqTick = 0\<rparr>"

lemma demo_fresh: "0 \<le> now \<Longrightarrow> now \<le> 10 * second \<Longrightarrow> CheckFresh (demoPayload n) now = None"
  by (simp add: CheckFresh_def demoPayload_def MaxIssuedSkew_def second_def)

lemma demo_compare: "CompareVersions demoRelease demoBeta = 1"
  by (simp add: CompareVersions_def demoRelease_def demoBeta_def)

lemma demo_status: "\<exists>status s'. updStatus demoUpdates 0 (demoSqlite [0]) = (Inr status, s') \<and> stAvailable status"
proof -
  have "releaseFor (demoPayload 1) ServerProductID ChannelStable = Some demoFeedRelease"
    by (simp add: releaseFor_def demoPayload_def)
  moreover have "Offered demoFeedRelease ChannelStable" "Newer (reVersion demoFeedRelease) ''1.2.0-beta.9''"
    by (simp_all add: Offered_def Newer_def demoFeedRelease_def demo_versions demo_compare) (simp add: demoRelease_def)
  ultimately show ?thesis
    by (simp add: updStatus_def bindE_def fromStore_def ret_def sqlUpdateSettings_def attempt_def readT_def readUpdateSettings_def
        demoSqlite_def statusOf_def demo_open demo_fresh second_def Let_def)
qed

theorem offered_update_authentic_witness:
  "\<exists>x. sqView (demoSqlite [0]) = Some x \<and> usChoice x = UpdatesOn \<and>
     (\<exists>document. OpenFeed demoLib lengthEd demoVerifier (usFeed x) = Inr document)"
proof -
  obtain status s' where "updStatus demoUpdates 0 (demoSqlite [0]) = (Inr status, s')" "stAvailable status"
    using demo_status by blast
  from offered_update_authentic [OF demoUpdates_sel(1) this] show ?thesis by auto
qed

text \<open>
  C40.  An older feed is never accepted again: once a check accepted a feed, then after any sequence of
  status calls, checks and configuration changes, but no reset of the recorded sequence numbers, a
  feed that the same key signed with a smaller sequence number is refused, and the stored feed, the
  sequence numbers and the settings stay as they are, apart from the error that is shown.  This holds
  for every pattern of failures of the database.
\<close>

theorem older_update_feed_refused:
  assumes "suStore U = sqliteStore"
    and "runCheck U input s = (Inr [], s1)" "ciFetch input = Inr body"
      "VerifyFeed (suLib U) (suEd U) (suVerifier U) body (ciNow input) = Inr document"
    and "\<forall>c \<in> set calls. \<not> isReset c" "runCheck U input' (updRun U calls s1) = (r, s2)"
    and "ciFetch input' = Inr body'" "VerifyFeed (suLib U) (suEd U) (suVerifier U) body' (ciNow input') = Inr document'"
      "envKeyID (docEnvelope document') = envKeyID (docEnvelope document)"
      "plSequence (docPayload document') < plSequence (docPayload document)"
  shows "r \<noteq> Inr [] \<and> (\<exists>x code. sqView (updRun U calls s1) = Some x \<and> sqView s2 = Some (x\<lparr>usLastError := code\<rparr>))"
  by (rule sql.no_rollback [OF assms])

definition demoInput :: "bytes \<Rightarrow> checkInput" where
  "demoInput body = \<lparr>ciNow = 0, ciFetch = Inr body, ciCancelled = False\<rparr>"

lemma demo_verify_feed:
  "1 \<le> length body \<Longrightarrow> length body \<le> 9 \<Longrightarrow> VerifyFeed demoLib lengthEd demoVerifier body 0 =
     Inr \<lparr>docPayload = demoPayload (int (length body)), docEnvelope = demoEnvelope body, docRaw = body\<rparr>"
  by (simp add: VerifyFeed_open demo_open demo_fresh second_def)

lemma demo_accepts: "\<exists>s1. runCheck demoUpdates (demoInput [0, 0]) (demoSqlite []) = (Inr [], s1)"
  by (simp add: runCheck_def bindE_def fromStore_def rejectIf_def ret_def tryE_def sqlUpdateSettings_def attempt_def readT_def
      readUpdateSettings_def demoSqlite_def demoInput_def demo_verify_feed seqOf_def sqlRecordUpdateFeed_def demoEnvelope_def
      demoPayload_def Let_def)

theorem older_update_feed_refused_witness:
  "fst (runCheck demoUpdates (demoInput [0])
     (updRun demoUpdates [CallStatus 5] (snd (runCheck demoUpdates (demoInput [0, 0]) (demoSqlite []))))) \<noteq> Inr []"
proof -
  obtain s1 where s1: "runCheck demoUpdates (demoInput [0, 0]) (demoSqlite []) = (Inr [], s1)" using demo_accepts by blast
  obtain r s2 where s2: "runCheck demoUpdates (demoInput [0]) (updRun demoUpdates [CallStatus 5] s1) = (r, s2)" by fastforce
  have "r \<noteq> Inr []"
    using older_update_feed_refused [OF demoUpdates_sel(1) s1 _ _ _ s2, of "[0, 0]" _ "[0]"] demo_verify_feed [of "[0, 0]"] demo_verify_feed [of "[0]"]
    by (auto simp: demoInput_def demoEnvelope_def demoPayload_def)
  with s1 s2 show ?thesis by simp
qed

end
