(* ===== verification/Spec2Isabelle.thy ===== *)
theory Spec2Isabelle
  imports Properties_Http Properties_Platform
begin

text \<open>
  Verification of the Sesame server (Go, under src/internal): the end-to-end encrypted sync of vaults
  between the devices of an account, from the signed messages to the HTTP handlers, and four
  components around it.

  \<^bold>\<open>The program.\<close>  A vault belongs to an account and is shared by its devices.  The server cannot read
  it: it stores ciphertexts, a signed list of the devices, a chain of signed headers, and encrypted
  key packages.  A client sends a signed HTTP request (syncv3http), which the service (syncsvc)
  verifies and carries out in one transaction of a store, using the checks of the protocol package
  (syncproto), the same ones the clients run.

  \<^bold>\<open>Theories and sources.\<close>
  \<^item> \<open>Sync_Prelude\<close>, \<open>Go_Base64\<close>, \<open>Go_Sha256\<close>, \<open>Go_Text\<close>, \<open>Go_Strings\<close>: Go's integers, maps, transaction
    functions with errors, and what the code uses of base64, SHA-256, strconv, strings and time.  All
    are executable.
  \<^item> \<open>Canonical\<close>, \<open>Device_List\<close>, \<open>Header\<close>, \<open>Request\<close>, \<open>Checkpoint\<close>: the package syncproto.  A device list is
    verified entry by entry (\<open>Extend\<close>); headers, requests, key packages and checkpoints are verified
    against it.  Messages are framed by \<open>newCanonical\<close>, whose injectivity is proved once in the locale
    \<open>message_form\<close> and used for every kind of message.
  \<^item> \<open>Sync_Types\<close>, \<open>Tx_Contract\<close>: the records and the storage interface of syncsvc/types.go.  The contract of
    the interface is the locale \<open>sync_tx\<close> over an abstract view of the tables (\<open>sview\<close>).
  \<^item> \<open>Mem_Store\<close>, \<open>Mem_Contract\<close>: syncsvc/memstore, and the interpretation of the contract for it.
  \<^item> \<open>Nonce_Keeper\<close>: syncsvc/nonce_keeper.go, which records a spent nonce again after a rollback; wrapped
    around a store that meets the contract it meets the contract.
  \<^item> \<open>Sync_Service\<close>: syncsvc/service.go and maintenance.go, one function per call (\<open>svc...\<close>) and one for the
    body of its transaction (\<open>...Tx\<close>).
  \<^item> \<open>Service_Parts\<close>, \<open>Service_Spec\<close>, \<open>Service_Spec2\<close>, \<open>Service_Spec3\<close>: what each call does to the view when it
    succeeds, proved in the locale of the contract.  \<open>Service_Inv\<close>, \<open>Service_Inv2\<close>, \<open>Service_Run\<close>: the
    invariant of all vaults (\<open>sinv\<close>), that every call keeps it, and the states a sequence of calls
    reaches.  \<open>Service_Nonce\<close>, \<open>Service_Replay\<close>: nonces and replay.  \<open>Service_Reads\<close>, \<open>Service_Effects\<close>,
    \<open>Service_Safety\<close>, \<open>Service_Served\<close>, \<open>Service_Live\<close>: reads, effects, authorisation and isolation of
    accounts, what is served to clients, and that the loops end and calls succeed when they should.
  \<^item> \<open>Sync_Wire\<close>, \<open>Sync_Http\<close>, \<open>Http_Facts\<close>: the package syncv3http: bodies, error codes, the signature header,
    the 21 handlers and the table of routes.
  \<^item> \<open>Semver\<close>: the package releases.  \<open>Audit_Chain\<close>: admin/audit_chain.go.  \<open>Origin_Policy\<close>:
    httpapi/origin_policy.go with the CSRF checks it calls.  \<open>Update_Feed\<close>, \<open>Update_Store\<close>,
    \<open>Update_Service\<close>: selfhost/updates with the store behind it (the locale \<open>update_store\<close>, interpreted for the
    SQLite store).
  \<^item> \<open>Scenario\<close>, \<open>Scenario_Pairing\<close>: a concrete run (create, upload, pair, approve, remove) that the witnesses
    use.

  \<^bold>\<open>Properties.\<close>  \<open>Properties_Service\<close> (C1--C10): the invariant, uploads, served headers, removed devices,
  replay, errors, isolation.  \<open>Properties_Vault\<close> (C11--C20): pairing, rekeying, checkpoints, termination and
  bounds, and the two refinements of the storage contract.  \<open>Properties_Protocol\<close> (C21--C28): device lists
  and headers as commitments, separation of signed messages.  \<open>Properties_Http\<close> (C30--C34): the HTTP layer.
  \<open>Properties_Platform\<close> (C29, C36--C40): updates, versions, audit chain, origin policy.  C35 is below.

  \<^bold>\<open>Modelling decisions.\<close>
  \<^item> \<open>uint64\<close> is a 64-bit word and wraps around; sums of sizes in \<open>int64\<close> are unbounded, since they are
    bounded by the byte budget.  A \<open>time.Time\<close> is its number of nanoseconds.
  \<^item> Ed25519 is the parameter \<open>ed\<close>, a pair of functions; only C28 assumes that signing and verifying
    fit together.  Collisions of SHA-256 appear as explicit alternatives, never as an assumption.
  \<^item> A call reads the clock several times; \<open>clk n\<close> is its \<open>n\<close>-th reading.
  \<^item> A transaction function returns an error or a value; a value that Go returns beside an error is
    not modelled, since the callers ignore it.  Beginning and committing a transaction of the sync
    store succeed; for the update store and the audit chain every access to the database may fail.
  \<^item> \<open>sort.Slice\<close> is a stable sort.  A Go map is an association list with distinct keys.
  \<^item> The JSON decoder and encoder, \<open>url.Parse\<close>, the authentication by the host, the pattern that the
    multiplexer of the hosted API selects, and the result of fetching the feed are parameters.  The
    multiplexer of the sync routes is modelled; requests that match no route are left to net/http.
  \<^item> \<open>loadList\<close> and the eviction loop of \<open>makeRoom\<close> run with fuel \<open>2 ^ 64\<close>.  It is enough, because each
    page and each eviction advances a 64-bit index; C14 and C15 prove that they return.

  \<^bold>\<open>Not modelled.\<close>  The PostgreSQL stores and the other SQL of the hosted service (accounts, admin,
  activity, notifications) and of the SQLite store, which are statements run by a database; the
  handlers of the hosted API and of the self-hosted console over those stores; mail delivery,
  backup and restore, configuration from files and the environment, process start-up; password
  hashing and random tokens, which are calls of cryptographic libraries; logging, deadlines of
  connections (\<open>allowLongTransfer\<close>), the ticker of \<open>RunMaintenance\<close>; the web front ends and scripts.
\<close>

section \<open>The canonical text of binary fields\<close>

text \<open>
  C35.  \<open>decodeCanonical\<close> accepts a text exactly when it is the canonical base64url form of a byte
  sequence of the expected length, and then returns that sequence.
\<close>

theorem decodeCanonical_exact:
  "decodeCanonical v n = Inr bs \<longleftrightarrow> v = EncodeToString bs \<and> length bs = n"
  by (rule decodeCanonical_iff)

end
